theory Spec2Isabelle
  imports Complex_Main "HOL-Library.AList" "HOL-Library.Log_Nat"
begin

section \<open>The benchmark module of Ax: data model\<close>

text \<open>
  This theory embeds \<^verbatim>\<open>src/ax/benchmark/benchmark.py\<close>. The arithmetic of
  \<open>compute_score_trace\<close> is modelled in IEEE 754 binary64, with rounding to nearest,
  signed zeros, infinities and NaN. The other floats (costs, clock readings, the values of
  the traces that the best-point extractor returns, the reference values of a problem) are
  real numbers, and are rounded to doubles where they enter \<open>compute_score_trace\<close>.
  Python ints are \<open>int\<close>, a \<open>dict\<close> is an association list in insertion order, a
  \<open>set[int]\<close> an \<open>int set\<close>, and a \<open>set[Arm]\<close> a duplicate-free list of arms.
  Exceptions are values of \<open>py_error\<close>, and a function that can raise returns a sum with
  \<open>Inl\<close> for the error.
\<close>

datatype py_error =
    ValueError_no_arms        \<comment> \<open>the \<open>raise ValueError\<close> of \<open>get_oracle_experiment_from_params\<close>\<close>
  | ValueError_unpack         \<comment> \<open>a one-element tuple pattern matched against another length\<close>
  | KeyError                  \<comment> \<open>\<open>experiment.trials[i]\<close> with \<open>i\<close> not a key\<close>
  | TypeError_not_a_runner    \<comment> \<open>\<open>assert_is_instance(experiment.runner, BenchmarkRunner)\<close>\<close>
  | IndexError                \<comment> \<open>\<open>optimization_trace[-1]\<close> on an empty trace\<close>

datatype TParamValue = PNone | PBool bool | PInt int | PFloat real | PStr string

type_synonym TParameterization = "(string \<times> TParamValue) list"

text \<open>Python's \<open>{**a, **b}\<close>: the keys of \<open>a\<close> keep their place, a key of \<open>b\<close> overrides
  the value or is appended.\<close>

definition dict_merge :: "('k \<times> 'v) list \<Rightarrow> ('k \<times> 'v) list \<Rightarrow> ('k \<times> 'v) list" where
  "dict_merge a b = fold (\<lambda>(k, v). AList.update k v) b a"

text \<open>Modelled from the spec: the enumeration \<open>TrialStatus\<close> of \<^verbatim>\<open>ax.core.trial_status\<close>,
  with the statuses that the spec's data model lists.\<close>

datatype TrialStatus = CANDIDATE | STAGED | FAILED | COMPLETED | RUNNING | ABANDONED | EARLY_STOPPED

record Arm =
  arm_name :: string
  arm_parameters :: TParameterization

type_synonym RunMetadata = "(string \<times> real) list"

record Trial =
  trial_arms :: "Arm list"
  trial_status :: TrialStatus
  trial_run_metadata :: RunMetadata

datatype SearchSpace = SearchSpace "string list"

datatype Objective = Objective (minimize: bool) | MultiObjective

record OptimizationConfig =
  objective :: Objective

record BenchmarkTestFunction =
  n_steps :: int

record BackendSimulator =
  sim_time :: real

record SimulatedBackendRunner =
  simulator :: BackendSimulator

type_synonym StepRuntimeFunction = "TParameterization \<Rightarrow> real"

record BenchmarkRunner =
  test_function :: BenchmarkTestFunction
  noise_std :: real
  step_runtime_function :: "StepRuntimeFunction option"
  max_concurrency :: int
  simulated_backend_runner :: "SimulatedBackendRunner option"

record Experiment =
  exp_search_space :: SearchSpace
  exp_optimization_config :: OptimizationConfig
  exp_runner :: "BenchmarkRunner option"
  exp_status_quo :: "Arm option"
  exp_trials :: "(int \<times> Trial) list"

datatype TrialType = TRIAL | BATCH_TRIAL

record BenchmarkProblem =
  problem_name :: string
  search_space :: SearchSpace
  optimization_config :: OptimizationConfig
  problem_test_function :: BenchmarkTestFunction
  problem_noise_std :: real
  problem_step_runtime_function :: "StepRuntimeFunction option"
  status_quo_params :: "TParameterization option"
  num_trials :: int
  target_fidelity_and_task :: TParameterization
  optimal_value :: real
  baseline_value :: real
  n_best_points :: int
  report_inference_value_as_trace :: bool

text \<open>The fields of a method that \<^verbatim>\<open>benchmark.py\<close> reads. \<open>get_best_parameters\<close> is the
  method's best-point query, a collaborator outside this module.\<close>

datatype GenerationStrategy = GenerationStrategy string

record BenchmarkMethod =
  method_name :: string
  generation_strategy :: GenerationStrategy
  batch_size :: "int option"
  max_pending_trials :: int
  run_trials_in_batches :: bool
  early_stopping_strategy :: "string option"
  timeout_hours :: "real option"
  get_best_parameters :: "Experiment \<Rightarrow> OptimizationConfig \<Rightarrow> int \<Rightarrow> TParameterization list"

record SchedulerOptions =
  so_max_pending_trials :: int
  so_init_seconds_between_polls :: int
  so_min_seconds_before_poll :: real
  so_trial_type :: TrialType
  so_batch_size :: "int option"
  so_run_trials_in_batches :: bool
  so_early_stopping_strategy :: "string option"
  so_status_quo_weight :: real
  so_logging_level :: int

section \<open>Score trace\<close>

text \<open>
  numpy evaluates \<open>100 * (optimization_trace - baseline_value) / (optimal_value - baseline_value)\<close>
  in IEEE 754 binary64. A double is a finite value, minus zero, an infinity with its sign,
  or NaN; \<open>Finite 0\<close> is plus zero. The constructor \<open>Finite\<close> takes any real, and
  \<open>representable\<close> says that the real is one a double can hold.
\<close>

datatype float64 = Finite real | NegZero | Infinite bool | NaN

abbreviation pow2 :: "int \<Rightarrow> real" where
  "pow2 e \<equiv> 2 powi e"

text \<open>Rounding to the nearest integer, a tie to the even one.\<close>

definition round_half_even :: "real \<Rightarrow> int" where
  "round_half_even x =
     (let n = \<lfloor>x\<rfloor>; f = x - of_int n
      in if f < 1 / 2 then n else if 1 / 2 < f then n + 1 else if even n then n else n + 1)"

text \<open>The exponent \<open>e\<close> of the spacing \<open>2 ^ e\<close> of the doubles around a magnitude \<open>r\<close>:
  \<open>k - 52\<close> when \<open>2 ^ k \<le> r < 2 ^ (k + 1)\<close>, and \<open>- 1074\<close>, the spacing of the subnormal
  numbers, below \<open>2 ^ (- 1022)\<close>.\<close>

definition ulp_exponent :: "real \<Rightarrow> int" where
  "ulp_exponent r = max (bitlen \<lfloor>r * pow2 1074\<rfloor> - 53) 0 - 1074"

text \<open>A magnitude rounded to the nearest multiple of its spacing, with no bound on the
  exponent.\<close>

definition round_value :: "real \<Rightarrow> real" where
  "round_value r =
     of_int (round_half_even (r / pow2 (ulp_exponent r))) * pow2 (ulp_exponent r)"

text \<open>The value of a finite double and the sign bit of a double that is not NaN.\<close>

fun finite_value :: "float64 \<Rightarrow> real" where
  "finite_value (Finite v) = v"
| "finite_value NegZero = 0"

fun sign_bit :: "float64 \<Rightarrow> bool" where
  "sign_bit (Finite v) = (v < 0)"
| "sign_bit NegZero = True"
| "sign_bit (Infinite s) = s"
| "sign_bit NaN = False"

fun is_finite :: "float64 \<Rightarrow> bool" where
  "is_finite (Finite v) = True"
| "is_finite NegZero = True"
| "is_finite (Infinite s) = False"
| "is_finite NaN = False"

text \<open>The finite double of a sign and a magnitude, and the result of an operation whose
  exact result has the sign \<open>s\<close> and the magnitude \<open>r\<close>: rounded to nearest, ties to even,
  and infinite from \<open>2 ^ 1024\<close> on.\<close>

definition signed :: "bool \<Rightarrow> real \<Rightarrow> float64" where
  "signed s r = (if r = 0 then (if s then NegZero else Finite 0)
                 else Finite (if s then - r else r))"

definition round_double :: "bool \<Rightarrow> real \<Rightarrow> float64" where
  "round_double s r =
     (if 2 ^ 1024 \<le> round_value r then Infinite s else signed s (round_value r))"

definition float64_of_real :: "real \<Rightarrow> float64" where
  "float64_of_real v = round_double (v < 0) \<bar>v\<bar>"

fun representable :: "float64 \<Rightarrow> bool" where
  "representable (Finite v) = (float64_of_real v = Finite v)"
| "representable x = True"

text \<open>Subtraction, multiplication and division of doubles. A difference that is exactly
  zero is plus zero, but for \<open>(-0) - (+0)\<close>; the sign of a product or quotient is the
  exclusive or of the signs; \<open>inf - inf\<close>, \<open>0 * inf\<close>, \<open>inf / inf\<close> and \<open>0 / 0\<close> are NaN; a
  nonzero value divided by zero is infinite (numpy warns and does not raise).\<close>

fun fsub :: "float64 \<Rightarrow> float64 \<Rightarrow> float64" where
  "fsub NaN y = NaN"
| "fsub x NaN = NaN"
| "fsub (Infinite s) (Infinite s') = (if s = s' then NaN else Infinite s)"
| "fsub (Infinite s) y = Infinite s"
| "fsub x (Infinite s') = Infinite (\<not> s')"
| "fsub x y =
     (let d = finite_value x - finite_value y
      in if d = 0 then (if x = NegZero \<and> y = Finite 0 then NegZero else Finite 0)
         else round_double (d < 0) \<bar>d\<bar>)"

fun fmul :: "float64 \<Rightarrow> float64 \<Rightarrow> float64" where
  "fmul NaN y = NaN"
| "fmul x NaN = NaN"
| "fmul (Infinite s) (Infinite s') = Infinite (s \<noteq> s')"
| "fmul (Infinite s) y = (if finite_value y = 0 then NaN else Infinite (s \<noteq> sign_bit y))"
| "fmul x (Infinite s') = (if finite_value x = 0 then NaN else Infinite (sign_bit x \<noteq> s'))"
| "fmul x y = round_double (sign_bit x \<noteq> sign_bit y) (\<bar>finite_value x\<bar> * \<bar>finite_value y\<bar>)"

fun fdiv :: "float64 \<Rightarrow> float64 \<Rightarrow> float64" where
  "fdiv NaN y = NaN"
| "fdiv x NaN = NaN"
| "fdiv (Infinite s) (Infinite s') = NaN"
| "fdiv (Infinite s) y = Infinite (s \<noteq> sign_bit y)"
| "fdiv x (Infinite s') = signed (sign_bit x \<noteq> s') 0"
| "fdiv x y =
     (if finite_value y = 0
      then (if finite_value x = 0 then NaN else Infinite (sign_bit x \<noteq> sign_bit y))
      else round_double (sign_bit x \<noteq> sign_bit y) (\<bar>finite_value x\<bar> / \<bar>finite_value y\<bar>))"

text \<open>Python's \<open><\<close>, \<open>==\<close> and \<open><=\<close> on doubles: NaN compares false with everything, and
  minus zero equals plus zero.\<close>

fun f64_less :: "float64 \<Rightarrow> float64 \<Rightarrow> bool" where
  "f64_less NaN y = False"
| "f64_less x NaN = False"
| "f64_less (Infinite s) (Infinite s') = (s \<and> \<not> s')"
| "f64_less (Infinite s) y = s"
| "f64_less x (Infinite s') = (\<not> s')"
| "f64_less x y = (finite_value x < finite_value y)"

fun f64_eq :: "float64 \<Rightarrow> float64 \<Rightarrow> bool" where
  "f64_eq NaN y = False"
| "f64_eq x NaN = False"
| "f64_eq (Infinite s) (Infinite s') = (s = s')"
| "f64_eq (Infinite s) y = False"
| "f64_eq x (Infinite s') = False"
| "f64_eq x y = (finite_value x = finite_value y)"

definition f64_le :: "float64 \<Rightarrow> float64 \<Rightarrow> bool" where
  "f64_le x y = (f64_less x y \<or> f64_eq x y)"

text \<open>\<open>100 * (optimization_trace - baseline_value) / (optimal_value - baseline_value)\<close>,
  numpy broadcasting the scalars over the array; the integer 100 becomes the double
  100.\<close>

definition compute_score_trace :: "float64 list \<Rightarrow> float64 \<Rightarrow> float64 \<Rightarrow> float64 list" where
  "compute_score_trace optimization_trace baseline optimal =
     map (\<lambda>x. fdiv (fmul (Finite 100) (fsub x baseline)) (fsub optimal baseline))
       optimization_trace"

text \<open>A finite double in the normal range whose hundredfold does not overflow.\<close>

definition ordinary_range :: "float64 \<Rightarrow> bool" where
  "ordinary_range x =
     (is_finite x \<and> pow2 (- 1022) \<le> \<bar>finite_value x\<bar> \<and> \<bar>finite_value x\<bar> \<le> pow2 1017)"

section \<open>Scheduler options\<close>

definition get_benchmark_scheduler_options ::
  "BenchmarkMethod \<Rightarrow> bool \<Rightarrow> int \<Rightarrow> SchedulerOptions" where
  "get_benchmark_scheduler_options method include_sq logging_level =
     (let trial_type =
        (if batch_size method = None \<or> (case batch_size method of Some b \<Rightarrow> b > 1 | None \<Rightarrow> False)
            \<or> include_sq
         then BATCH_TRIAL else TRIAL)
      in \<lparr> so_max_pending_trials = max_pending_trials method,
           so_init_seconds_between_polls = 0,
           so_min_seconds_before_poll = 0,
           so_trial_type = trial_type,
           so_batch_size = batch_size method,
           so_run_trials_in_batches = run_trials_in_batches method,
           so_early_stopping_strategy = early_stopping_strategy method,
           so_status_quo_weight = (if include_sq then 1 else 0),
           so_logging_level = logging_level \<rparr>)"

section \<open>Cost accumulator\<close>

text \<open>
  \<open>get_total_runtime\<close> of \<^verbatim>\<open>ax.benchmark.benchmark_runner\<close> is not part of this module;
  it is the parameter \<open>get_total_runtime\<close>, called with the trial, the runner's
  \<open>step_runtime_function\<close> and the test function's \<open>n_steps\<close>. \<open>experiment.trials[i]\<close>
  raises \<open>KeyError\<close> when \<open>i\<close> is not a key, and \<open>assert_is_instance\<close> raises when the
  experiment has no benchmark runner.
\<close>

type_synonym TotalRuntime = "Trial \<Rightarrow> StepRuntimeFunction option \<Rightarrow> int \<Rightarrow> real"

definition trials_lookup :: "Experiment \<Rightarrow> int \<Rightarrow> Trial option" where
  "trials_lookup experiment i = map_of (exp_trials experiment) i"

definition get_cumulative_cost ::
  "TotalRuntime \<Rightarrow> real \<Rightarrow> int set \<Rightarrow> Experiment \<Rightarrow> py_error + real" where
  "get_cumulative_cost get_total_runtime previous_cost new_trials experiment =
     (case exp_runner experiment of
        None \<Rightarrow> Inl TypeError_not_a_runner
      | Some runner \<Rightarrow>
          (case simulated_backend_runner runner of
             Some sbr \<Rightarrow> Inr (sim_time (simulator sbr))
           | None \<Rightarrow>
               if \<exists>i \<in> new_trials. trials_lookup experiment i = None then Inl KeyError
               else Inr (previous_cost +
                      (\<Sum>i \<in> new_trials.
                         get_total_runtime (the (trials_lookup experiment i))
                           (step_runtime_function runner) (n_steps (test_function runner))))))"

section \<open>Oracle evaluator\<close>

text \<open>
  Modelled from the spec: the constructor of \<open>BenchmarkRunner\<close>, which is not part of this
  module. It stores the arguments it is given; by the docstring of \<open>get_benchmark_runner\<close>
  a simulated backend runner is built when \<open>max_concurrency > 1\<close> or a step-runtime
  function is present, and its clock starts at 0. \<open>step_runtime_function\<close> defaults to
  \<open>None\<close> and \<open>max_concurrency\<close> to 1.
\<close>

definition BenchmarkRunner_init ::
  "BenchmarkTestFunction \<Rightarrow> real \<Rightarrow> StepRuntimeFunction option \<Rightarrow> int \<Rightarrow> BenchmarkRunner" where
  "BenchmarkRunner_init tf noise srf concurrency =
     \<lparr> test_function = tf, noise_std = noise, step_runtime_function = srf,
       max_concurrency = concurrency,
       simulated_backend_runner =
         (if concurrency > 1 \<or> srf \<noteq> None
          then Some \<lparr> simulator = \<lparr> sim_time = 0 \<rparr> \<rparr> else None) \<rparr>"

definition get_benchmark_runner :: "BenchmarkProblem \<Rightarrow> int \<Rightarrow> BenchmarkRunner" where
  "get_benchmark_runner problem concurrency =
     BenchmarkRunner_init (problem_test_function problem) (problem_noise_std problem)
       (problem_step_runtime_function problem) concurrency"

text \<open>
  Modelled from the spec: the trial that \<open>Experiment.attach_trial\<close> builds, with one arm
  for each name and parameterization. A trial is attached in status \<open>RUNNING\<close>; nothing
  proved below depends on the status a trial has between its attachment and its
  completion.
\<close>

definition new_trial :: "TParameterization list \<Rightarrow> string list \<Rightarrow> Trial" where
  "new_trial parameterizations arm_names =
     \<lparr> trial_arms = map (\<lambda>(n, p). \<lparr> arm_name = n, arm_parameters = p \<rparr>)
                      (zip arm_names parameterizations),
       trial_status = RUNNING, trial_run_metadata = [] \<rparr>"

text \<open>
  Modelled from the spec: \<open>Experiment.attach_trial\<close>, which is not part of this module.
  Trial indices are assigned monotonically and never reused: a new trial gets the number
  of trials attached so far. (Both callers of \<open>get_oracle_experiment_from_params\<close> in this
  module read \<open>experiment.trials[0]\<close> after the first attachment and
  \<open>experiment.trials[i]\<close> after the one numbered \<open>i\<close> from 0, so the indices of a fresh
  experiment are \<open>0, 1, 2, ...\<close>)
\<close>

definition attach_trial :: "Experiment \<Rightarrow> TParameterization list \<Rightarrow> string list \<Rightarrow> Experiment" where
  "attach_trial experiment parameterizations arm_names =
     experiment \<lparr> exp_trials := exp_trials experiment @
       [(int (length (exp_trials experiment)), new_trial parameterizations arm_names)] \<rparr>"

text \<open>Modelled from the spec: \<open>Trial.update_run_metadata\<close>, which attaches the metadata of
  a run to the trial.\<close>

definition update_run_metadata :: "Trial \<Rightarrow> RunMetadata \<Rightarrow> Trial" where
  "update_run_metadata trial metadata =
     trial \<lparr> trial_run_metadata := dict_merge (trial_run_metadata trial) metadata \<rparr>"

text \<open>Modelled from the spec: \<open>Trial.mark_completed\<close>.\<close>

definition mark_completed :: "Trial \<Rightarrow> Trial" where
  "mark_completed trial = trial \<lparr> trial_status := COMPLETED \<rparr>"

text \<open>\<open>runner.run(trial)\<close> is a parameter: it evaluates the test function, which is not
  part of this module.\<close>

type_synonym RunnerRun = "BenchmarkRunner \<Rightarrow> Trial \<Rightarrow> RunMetadata"

type_synonym DictOfDictOfParams = "(int \<times> (string \<times> TParameterization) list) list"

text \<open>The \<open>for\<close> loop of \<open>get_oracle_experiment_from_params\<close>. An error carries the
  experiment as it is when the exception is raised.\<close>

fun attach_and_run_trials ::
  "RunnerRun \<Rightarrow> BenchmarkProblem \<Rightarrow> BenchmarkRunner \<Rightarrow> Experiment \<Rightarrow> DictOfDictOfParams
     \<Rightarrow> (py_error \<times> Experiment) + Experiment" where
  "attach_and_run_trials run problem runner experiment [] = Inr experiment"
| "attach_and_run_trials run problem runner experiment ((trial_index, dict_of_params) # rest) =
     (if length dict_of_params = 0 then Inl (ValueError_no_arms, experiment)
      else
        let experiment1 = attach_trial experiment
              (map (\<lambda>(arm, parameters). dict_merge parameters (target_fidelity_and_task problem))
                 dict_of_params)
              (map fst dict_of_params)
        in case trials_lookup experiment1 trial_index of
             None \<Rightarrow> Inl (KeyError, experiment1)
           | Some trial \<Rightarrow>
               let metadata = run runner trial;
                   trial1 = mark_completed (update_run_metadata trial metadata)
               in attach_and_run_trials run problem runner
                    (experiment1 \<lparr> exp_trials :=
                       AList.update trial_index trial1 (exp_trials experiment1) \<rparr>)
                    rest)"

text \<open>What one iteration of the loop makes of a non-empty mapping: the trial as it is
  attached, run and completed.\<close>

definition oracle_trial ::
  "RunnerRun \<Rightarrow> BenchmarkProblem \<Rightarrow> BenchmarkRunner \<Rightarrow> (string \<times> TParameterization) list \<Rightarrow> Trial" where
  "oracle_trial run problem runner dict_of_params =
     (let trial = new_trial
            (map (\<lambda>(arm, parameters). dict_merge parameters (target_fidelity_and_task problem))
               dict_of_params)
            (map fst dict_of_params)
      in mark_completed (update_run_metadata trial (run runner trial)))"

definition WARNING :: int where
  "WARNING = 30"

text \<open>
  The state of the logger \<open>ax.core.experiment\<close> is its level: the function takes the level
  at the call and returns, beside its result, the level it leaves behind. When the loop
  raises, the statement after the loop is not reached. \<open>experiment.fetch_data()\<close> changes
  nothing that this model holds.
\<close>

definition get_oracle_experiment_from_params ::
  "RunnerRun \<Rightarrow> BenchmarkProblem \<Rightarrow> DictOfDictOfParams \<Rightarrow> int
     \<Rightarrow> ((py_error \<times> Experiment) + Experiment) \<times> int" where
  "get_oracle_experiment_from_params run problem dict_of_dict_of_params logger_level =
     (let experiment =
            \<lparr> exp_search_space = search_space problem,
              exp_optimization_config = optimization_config problem,
              exp_runner = None, exp_status_quo = None, exp_trials = [] \<rparr>;
          runner = BenchmarkRunner_init (problem_test_function problem) 0 None 1;
          original_log_level = logger_level;
          level_in_loop = WARNING
      in case attach_and_run_trials run problem runner experiment dict_of_dict_of_params of
           Inl err \<Rightarrow> (Inl err, level_in_loop)
         | Inr experiment1 \<Rightarrow> (Inr experiment1, original_log_level))"

section \<open>Replication driver\<close>

text \<open>
  The scheduler is a collaborator: \<open>run_trials_and_yield_results\<close> is a generator, and
  between two yields it changes the experiment. A run of it is the list of its yields,
  each with the experiment as the loop body finds it and the value \<open>monotonic()\<close> returns
  at the end of that body; \<open>run_start\<close> is the value \<open>monotonic()\<close> returns before the
  loop. The list is finite; the loop may leave it before its end. The generator is called
  once, with the method's \<open>timeout_hours\<close>; the budget that the loop recomputes only
  decides its own \<open>break\<close>.

  Not modelled, as no statement below is about them: the seed and warning-filter
  contexts around the loop, \<open>scheduler.poll_and_process_results()\<close> before it and
  \<open>scheduler.summarize_final_result()\<close> after it, the reset clone of the generation
  strategy, and what the scheduler does to the experiment after its last yield.
\<close>

record Step =
  step_experiment :: Experiment
  step_clock :: real

record SchedulerRun =
  run_start :: real
  run_steps :: "Step list"

type_synonym GetTrace = "Experiment \<Rightarrow> OptimizationConfig \<Rightarrow> real list"

text \<open>
  The collaborators of a replication: the scheduler (its run for an experiment, a
  generation strategy, options, the seed, \<open>max_trials\<close> and \<open>timeout_hours\<close>),
  \<open>get_total_runtime\<close>, \<open>runner.run\<close>, \<open>BestPointMixin._get_trace\<close> and
  \<open>get_model_times\<close>.
\<close>

record Collaborators =
  c_scheduler :: "Experiment \<Rightarrow> GenerationStrategy \<Rightarrow> SchedulerOptions \<Rightarrow> int \<Rightarrow> int
                    \<Rightarrow> real option \<Rightarrow> SchedulerRun"
  c_total_runtime :: TotalRuntime
  c_run :: RunnerRun
  c_get_trace :: GetTrace
  c_get_model_times :: "Experiment \<Rightarrow> real \<times> real"

text \<open>The effects of the loop on its collaborators, in the order they happen.\<close>

datatype Event = LogWarning string | GetBestParametersCall

text \<open>The local variables of \<open>benchmark_replication\<close> that the loop changes, the
  experiment as it is now, and the effects so far.\<close>

record LoopState =
  cost_trace :: "real list"
  best_params_list :: "TParameterization list"
  evaluated_arms_list :: "Arm list list"
  previously_completed_trial_idcs :: "int set"
  cost :: real
  remaining_hours :: "real option"
  experiment_now :: Experiment
  events :: "Event list"

text \<open>Modelled from the spec: \<open>problem.is_moo\<close>, the flag for whether the problem is
  multi-objective; it is the test \<open>isinstance(optimization_config.objective, MultiObjective)\<close>
  that \<open>compute_baseline_value_from_sobol\<close> writes out.\<close>

definition is_moo :: "BenchmarkProblem \<Rightarrow> bool" where
  "is_moo problem = (objective (optimization_config problem) = MultiObjective)"

definition is_mf_or_mt :: "BenchmarkProblem \<Rightarrow> bool" where
  "is_mf_or_mt problem = (length (target_fidelity_and_task problem) > 0)"

definition currently_completed_trials :: "Experiment \<Rightarrow> int set" where
  "currently_completed_trials experiment =
     set (map fst (filter (\<lambda>(i, t). trial_status t = COMPLETED \<or> trial_status t = EARLY_STOPPED)
                     (exp_trials experiment)))"

definition newly_completed_trials :: "LoopState \<Rightarrow> Experiment \<Rightarrow> int set" where
  "newly_completed_trials st experiment =
     currently_completed_trials experiment - previously_completed_trial_idcs st"

text \<open>\<open>{arm for i in newly_completed_trials for arm in experiment.trials[i].arms}\<close>: every
  index of the set is a key of \<open>experiment.trials\<close>; the arms are listed in the order of
  the trials, each once.\<close>

definition arms_of_trials :: "Experiment \<Rightarrow> int set \<Rightarrow> Arm list" where
  "arms_of_trials experiment idcs =
     remdups (concat (map (\<lambda>(i, t). trial_arms t)
                        (filter (\<lambda>(i, t). i \<in> idcs) (exp_trials experiment))))"

text \<open>The body of the loop up to the timeout check (lines 377 to 418).\<close>

definition bookkeeping ::
  "TotalRuntime \<Rightarrow> BenchmarkProblem \<Rightarrow> BenchmarkMethod \<Rightarrow> LoopState \<Rightarrow> Experiment
     \<Rightarrow> py_error + LoopState" where
  "bookkeeping total_runtime problem method st experiment =
     (let currently = currently_completed_trials experiment;
          newly = currently - previously_completed_trial_idcs st;
          st1 = st \<lparr> previously_completed_trial_idcs := currently, experiment_now := experiment \<rparr>
      in if newly \<noteq> {} then
           (case get_cumulative_cost total_runtime (cost st1) newly experiment of
              Inl err \<Rightarrow> Inl err
            | Inr c \<Rightarrow>
                let st2 = st1 \<lparr> cost := c, cost_trace := cost_trace st1 @ [c],
                                evaluated_arms_list :=
                                  evaluated_arms_list st1 @ [arms_of_trials experiment newly] \<rparr>
                in if \<not> (is_moo problem \<or> is_mf_or_mt problem) then
                     (case get_best_parameters method experiment (optimization_config problem)
                             (n_best_points problem) of
                        [best_params] \<Rightarrow>
                          Inr (st2 \<lparr> best_params_list := best_params_list st2 @ [best_params],
                                      events := events st2 @ [GetBestParametersCall] \<rparr>)
                      | _ \<Rightarrow> Inl ValueError_unpack)
                   else Inr st2)
         else Inr st1)"

text \<open>The timeout check that ends the body (lines 420 to 425); the flag is \<open>break\<close>.\<close>

definition check_timeout :: "BenchmarkMethod \<Rightarrow> real \<Rightarrow> LoopState \<Rightarrow> real \<Rightarrow> LoopState \<times> bool" where
  "check_timeout method start st now =
     (case timeout_hours method of
        None \<Rightarrow> (st, False)
      | Some timeout \<Rightarrow>
          let elapsed_hours = (now - start) / 3600;
              remaining = timeout - elapsed_hours;
              st1 = st \<lparr> remaining_hours := Some remaining \<rparr>
          in if remaining \<le> 0
             then (st1 \<lparr> events := events st1 @ [LogWarning ''The optimization loop timed out.''] \<rparr>,
                   True)
             else (st1, False))"

fun run_loop ::
  "TotalRuntime \<Rightarrow> BenchmarkProblem \<Rightarrow> BenchmarkMethod \<Rightarrow> real \<Rightarrow> LoopState \<Rightarrow> Step list
     \<Rightarrow> py_error + LoopState" where
  "run_loop total_runtime problem method start st [] = Inr st"
| "run_loop total_runtime problem method start st (s # rest) =
     (case bookkeeping total_runtime problem method st (step_experiment s) of
        Inl err \<Rightarrow> Inl err
      | Inr st1 \<Rightarrow>
          (case check_timeout method start st1 (step_clock s) of
             (st2, break) \<Rightarrow>
               if break then Inr st2
               else run_loop total_runtime problem method start st2 rest))"

text \<open>The sets \<open>newly_completed_trials\<close> that the iterations of the loop compute, one for
  each iteration the loop enters.\<close>

fun newly_completed_per_step ::
  "TotalRuntime \<Rightarrow> BenchmarkProblem \<Rightarrow> BenchmarkMethod \<Rightarrow> real \<Rightarrow> LoopState \<Rightarrow> Step list
     \<Rightarrow> int set list" where
  "newly_completed_per_step total_runtime problem method start st [] = []"
| "newly_completed_per_step total_runtime problem method start st (s # rest) =
     newly_completed_trials st (step_experiment s) #
     (case bookkeeping total_runtime problem method st (step_experiment s) of
        Inl err \<Rightarrow> []
      | Inr st1 \<Rightarrow>
          (case check_timeout method start st1 (step_clock s) of
             (st2, break) \<Rightarrow>
               if break then []
               else newly_completed_per_step total_runtime problem method start st2 rest))"

text \<open>The statuses \<open>COMPLETED\<close> and \<open>EARLY_STOPPED\<close> are absorbing along a run: a trial
  that is in one of them at a yield is in one of them at the next.\<close>

fun absorbing :: "Experiment list \<Rightarrow> bool" where
  "absorbing (e # e' # es) =
     (currently_completed_trials e \<subseteq> currently_completed_trials e' \<and> absorbing (e' # es))"
| "absorbing es = True"

definition initial_state :: "BenchmarkMethod \<Rightarrow> Experiment \<Rightarrow> LoopState" where
  "initial_state method experiment =
     \<lparr> cost_trace = [], best_params_list = [], evaluated_arms_list = [],
       previously_completed_trial_idcs = {}, cost = 0,
       remaining_hours = timeout_hours method, experiment_now = experiment, events = [] \<rparr>"

definition get_oracle_value_of_params ::
  "RunnerRun \<Rightarrow> GetTrace \<Rightarrow> int \<Rightarrow> TParameterization \<Rightarrow> BenchmarkProblem \<Rightarrow> py_error + real" where
  "get_oracle_value_of_params run get_trace logger_level params problem =
     (case fst (get_oracle_experiment_from_params run problem [(0, [(''0_0'', params)])]
                  logger_level) of
        Inl (err, experiment) \<Rightarrow> Inl err
      | Inr dummy_experiment \<Rightarrow>
          (case get_trace dummy_experiment (optimization_config problem) of
             [inference_value] \<Rightarrow> Inr inference_value
           | _ \<Rightarrow> Inl ValueError_unpack))"

text \<open>\<open>{arm.name: arm.parameters for arm in arms}\<close>: a later arm of the same name
  overrides.\<close>

definition dict_of_arms :: "Arm list \<Rightarrow> (string \<times> TParameterization) list" where
  "dict_of_arms arms = fold (\<lambda>arm. AList.update (arm_name arm) (arm_parameters arm)) arms []"

definition get_oracle_trace_from_arms ::
  "RunnerRun \<Rightarrow> GetTrace \<Rightarrow> int \<Rightarrow> Arm list list \<Rightarrow> BenchmarkProblem \<Rightarrow> py_error + real list" where
  "get_oracle_trace_from_arms run get_trace logger_level arms_list problem =
     (case fst (get_oracle_experiment_from_params run problem
                  (map (\<lambda>(i, arms). (int i, dict_of_arms arms)) (enumerate 0 arms_list))
                  logger_level) of
        Inl (err, experiment) \<Rightarrow> Inl err
      | Inr dummy_experiment \<Rightarrow> Inr (get_trace dummy_experiment (optimization_config problem)))"

text \<open>The list comprehension that builds the inference trace (lines 429 to 434).\<close>

fun oracle_values ::
  "RunnerRun \<Rightarrow> GetTrace \<Rightarrow> int \<Rightarrow> BenchmarkProblem \<Rightarrow> TParameterization list
     \<Rightarrow> py_error + real list" where
  "oracle_values run get_trace logger_level problem [] = Inr []"
| "oracle_values run get_trace logger_level problem (params # rest) =
     (case get_oracle_value_of_params run get_trace logger_level params problem of
        Inl err \<Rightarrow> Inl err
      | Inr v \<Rightarrow>
          (case oracle_values run get_trace logger_level problem rest of
             Inl err \<Rightarrow> Inl err
           | Inr vs \<Rightarrow> Inr (v # vs)))"

record BenchmarkResult =
  res_seed :: int
  res_experiment :: Experiment
  oracle_trace :: "real list"
  inference_trace :: "real list"
  optimization_trace :: "real list"
  score_trace :: "float64 list"
  res_cost_trace :: "real list"
  fit_time :: real
  gen_time :: real

text \<open>What follows the loop (lines 429 to 466). The names of the experiment and of the
  result are left out.\<close>

definition finalize ::
  "Collaborators \<Rightarrow> BenchmarkProblem \<Rightarrow> int \<Rightarrow> bool \<Rightarrow> int \<Rightarrow> LoopState
     \<Rightarrow> py_error + BenchmarkResult" where
  "finalize c problem seed strip_runner_before_saving logger_level st =
     (case oracle_values (c_run c) (c_get_trace c) logger_level problem (best_params_list st) of
        Inl err \<Rightarrow> Inl err
      | Inr inference \<Rightarrow>
          (case get_oracle_trace_from_arms (c_run c) (c_get_trace c) logger_level
                  (evaluated_arms_list st) problem of
             Inl err \<Rightarrow> Inl err
           | Inr oracle \<Rightarrow>
               let optimization =
                     (if report_inference_value_as_trace problem then inference else oracle);
                   score = compute_score_trace (map float64_of_real optimization)
                             (float64_of_real (baseline_value problem))
                             (float64_of_real (optimal_value problem));
                   times = c_get_model_times c (experiment_now st);
                   experiment =
                     (if strip_runner_before_saving
                      then (experiment_now st) \<lparr> exp_runner := None \<rparr>
                      else experiment_now st)
               in Inr \<lparr> res_seed = seed, res_experiment = experiment, oracle_trace = oracle,
                        inference_trace = inference, optimization_trace = optimization,
                        score_trace = score, res_cost_trace = cost_trace st,
                        fit_time = fst times, gen_time = snd times \<rparr>))"

text \<open>The experiment and the scheduler options that \<open>benchmark_replication\<close> sets up
  (lines 316 to 342).\<close>

definition replication_options :: "BenchmarkProblem \<Rightarrow> BenchmarkMethod \<Rightarrow> int \<Rightarrow> SchedulerOptions" where
  "replication_options problem method scheduler_logging_level =
     get_benchmark_scheduler_options method (status_quo_params problem \<noteq> None)
       scheduler_logging_level"

definition replication_experiment :: "BenchmarkProblem \<Rightarrow> BenchmarkMethod \<Rightarrow> int \<Rightarrow> Experiment" where
  "replication_experiment problem method scheduler_logging_level =
     (let sq_arm = map_option (\<lambda>p. \<lparr> arm_name = ''status_quo'', arm_parameters = p \<rparr>)
                     (status_quo_params problem);
          scheduler_options = replication_options problem method scheduler_logging_level;
          runner = get_benchmark_runner problem (so_max_pending_trials scheduler_options)
      in \<lparr> exp_search_space = search_space problem,
           exp_optimization_config = optimization_config problem,
           exp_runner = Some runner, exp_status_quo = sq_arm, exp_trials = [] \<rparr>)"

definition replication_run ::
  "Collaborators \<Rightarrow> BenchmarkProblem \<Rightarrow> BenchmarkMethod \<Rightarrow> int \<Rightarrow> int \<Rightarrow> SchedulerRun" where
  "replication_run c problem method seed scheduler_logging_level =
     c_scheduler c (replication_experiment problem method scheduler_logging_level)
       (generation_strategy method)
       (replication_options problem method scheduler_logging_level)
       seed (num_trials problem) (timeout_hours method)"

definition replication_loop ::
  "Collaborators \<Rightarrow> BenchmarkProblem \<Rightarrow> BenchmarkMethod \<Rightarrow> int \<Rightarrow> int \<Rightarrow> py_error + LoopState" where
  "replication_loop c problem method seed scheduler_logging_level =
     (let run = replication_run c problem method seed scheduler_logging_level
      in run_loop (c_total_runtime c) problem method (run_start run)
           (initial_state method (replication_experiment problem method scheduler_logging_level))
           (run_steps run))"

definition benchmark_replication ::
  "Collaborators \<Rightarrow> BenchmarkProblem \<Rightarrow> BenchmarkMethod \<Rightarrow> int \<Rightarrow> bool \<Rightarrow> int \<Rightarrow> int
     \<Rightarrow> py_error + BenchmarkResult" where
  "benchmark_replication c problem method seed strip_runner_before_saving
       scheduler_logging_level logger_level =
     (case replication_loop c problem method seed scheduler_logging_level of
        Inl err \<Rightarrow> Inl err
      | Inr st \<Rightarrow> finalize c problem seed strip_runner_before_saving logger_level st)"

section \<open>Baseline value from Sobol replications\<close>

text \<open>
  \<open>BenchmarkMethod(generation_strategy=get_sobol_generation_strategy())\<close> is the parameter
  \<open>sobol_method\<close>; the fields of the dummy problem that the call of \<open>BenchmarkProblem\<close> does
  not name are those of the parameter \<open>defaults\<close>; \<open>float("inf")\<close> is the parameter \<open>infinity\<close>
  (it reaches only the score trace of a replication, which this function does not read).
\<close>

definition sobol_dummy_problem ::
  "BenchmarkProblem \<Rightarrow> real \<Rightarrow> OptimizationConfig \<Rightarrow> SearchSpace \<Rightarrow> BenchmarkTestFunction
     \<Rightarrow> TParameterization option \<Rightarrow> BenchmarkProblem" where
  "sobol_dummy_problem defaults infinity config space tf target_arg =
     (let target = (case target_arg of None \<Rightarrow> [] | Some given \<Rightarrow> []);
          higher_is_better =
            (case objective config of MultiObjective \<Rightarrow> True | Objective m \<Rightarrow> \<not> m);
          dummy_optimal_value = (if higher_is_better then infinity else - infinity)
      in defaults \<lparr> problem_name := ''dummy'', optimization_config := config,
                    search_space := space, num_trials := 5, problem_test_function := tf,
                    optimal_value := dummy_optimal_value, baseline_value := - dummy_optimal_value,
                    target_fidelity_and_task := target \<rparr>)"

text \<open>The loop over \<open>range(n_repeats)\<close>; \<open>optimization_trace[-1]\<close> raises \<open>IndexError\<close> on an
  empty trace.\<close>

fun sobol_values ::
  "Collaborators \<Rightarrow> BenchmarkMethod \<Rightarrow> BenchmarkProblem \<Rightarrow> int \<Rightarrow> int list \<Rightarrow> py_error + real list" where
  "sobol_values c method dummy_problem logger_level [] = Inr []"
| "sobol_values c method dummy_problem logger_level (i # seeds) =
     (case benchmark_replication c dummy_problem method i True WARNING logger_level of
        Inl err \<Rightarrow> Inl err
      | Inr result \<Rightarrow>
          if optimization_trace result = [] then Inl IndexError
          else (case sobol_values c method dummy_problem logger_level seeds of
                  Inl err \<Rightarrow> Inl err
                | Inr vs \<Rightarrow> Inr (last (optimization_trace result) # vs)))"

definition compute_baseline_value_from_sobol ::
  "Collaborators \<Rightarrow> BenchmarkMethod \<Rightarrow> BenchmarkProblem \<Rightarrow> real \<Rightarrow> int
     \<Rightarrow> OptimizationConfig \<Rightarrow> SearchSpace \<Rightarrow> BenchmarkTestFunction
     \<Rightarrow> TParameterization option \<Rightarrow> nat \<Rightarrow> py_error + real" where
  "compute_baseline_value_from_sobol c sobol_method defaults infinity logger_level
       config space tf target_arg n_repeats =
     (let dummy_problem = sobol_dummy_problem defaults infinity config space tf target_arg
      in case sobol_values c sobol_method dummy_problem logger_level (map int [0..<n_repeats]) of
           Inl err \<Rightarrow> Inl err
         | Inr vs \<Rightarrow> Inr (sum_list vs / real (length vs)))"

text \<open>The runtime that \<open>_get_cumulative_cost\<close> adds for the trial \<open>i\<close> of an experiment
  whose runner has no simulator.\<close>

definition trial_total_runtime :: "TotalRuntime \<Rightarrow> Experiment \<Rightarrow> int \<Rightarrow> real" where
  "trial_total_runtime total_runtime experiment i =
     (case (exp_runner experiment, trials_lookup experiment i) of
        (Some runner, Some trial) \<Rightarrow>
          total_runtime trial (step_runtime_function runner) (n_steps (test_function runner))
      | _ \<Rightarrow> 0)"

section \<open>Concrete inputs\<close>

definition unbatched_method :: BenchmarkMethod where
  "unbatched_method =
     \<lparr> method_name = ''sobol'', generation_strategy = GenerationStrategy ''Sobol'',
       batch_size = None, max_pending_trials = 1, run_trials_in_batches = False,
       early_stopping_strategy = None, timeout_hours = None,
       get_best_parameters = (\<lambda>experiment config n. []) \<rparr>"

definition sequential_method :: BenchmarkMethod where
  "sequential_method = unbatched_method \<lparr> batch_size := Some 1 \<rparr>"

definition unit_runtime :: TotalRuntime where
  "unit_runtime trial f n = real_of_int n * real (length (trial_arms trial))"

definition plain_runner :: BenchmarkRunner where
  "plain_runner =
     \<lparr> test_function = \<lparr> n_steps = 3 \<rparr>, noise_std = 1, step_runtime_function = None,
       max_concurrency = 1, simulated_backend_runner = None \<rparr>"


definition arm_a :: Arm where
  "arm_a = \<lparr> arm_name = ''0_0'', arm_parameters = [(''x'', PFloat 0)] \<rparr>"

definition arm_b :: Arm where
  "arm_b = \<lparr> arm_name = ''1_0'', arm_parameters = [(''x'', PFloat 1)] \<rparr>"

definition two_trials :: "(int \<times> Trial) list" where
  "two_trials =
     [(0, \<lparr> trial_arms = [arm_a], trial_status = COMPLETED, trial_run_metadata = [] \<rparr>),
      (1, \<lparr> trial_arms = [arm_b, arm_a], trial_status = RUNNING, trial_run_metadata = [] \<rparr>)]"

definition plain_experiment :: Experiment where
  "plain_experiment =
     \<lparr> exp_search_space = SearchSpace [''x''],
       exp_optimization_config = \<lparr> objective = Objective True \<rparr>,
       exp_runner = Some plain_runner, exp_status_quo = None, exp_trials = two_trials \<rparr>"


definition sample_problem :: BenchmarkProblem where
  "sample_problem =
     \<lparr> problem_name = ''branin'', search_space = SearchSpace [''x''],
       optimization_config = \<lparr> objective = Objective True \<rparr>,
       problem_test_function = \<lparr> n_steps = 3 \<rparr>, problem_noise_std = 1,
       problem_step_runtime_function = None, status_quo_params = None, num_trials = 2,
       target_fidelity_and_task = [], optimal_value = 0, baseline_value = 10,
       n_best_points = 1, report_inference_value_as_trace = False \<rparr>"

definition fidelity_problem :: BenchmarkProblem where
  "fidelity_problem = sample_problem \<lparr> target_fidelity_and_task := [(''fidelity'', PFloat 1)] \<rparr>"

definition count_arms_run :: RunnerRun where
  "count_arms_run runner trial =
     [(''n_arms'', real (length (trial_arms trial))), (''noise_std'', noise_std runner)]"

definition request_with_empty_trial :: DictOfDictOfParams where
  "request_with_empty_trial =
     [(0, [(''0_0'', [(''x'', PFloat 0), (''fidelity'', PFloat (1/2))])]), (1, [])]"

definition request_two_trials :: DictOfDictOfParams where
  "request_two_trials =
     [(0, [(''0_0'', [(''x'', PFloat 0)]), (''0_1'', [(''x'', PFloat 1)])]),
      (1, [(''1_0'', [(''x'', PFloat 2)])])]"

definition request_shifted_keys :: DictOfDictOfParams where
  "request_shifted_keys = [(1, [(''1_0'', [(''x'', PFloat 0)])]), (0, [])]"

definition trial_of :: "Arm list \<Rightarrow> TrialStatus \<Rightarrow> Trial" where
  "trial_of arms status = \<lparr> trial_arms = arms, trial_status = status, trial_run_metadata = [] \<rparr>"

definition experiment_with :: "(int \<times> Trial) list \<Rightarrow> Experiment" where
  "experiment_with trials = plain_experiment \<lparr> exp_trials := trials \<rparr>"

text \<open>A run of three yields: nothing completed after 6 minutes, trial 0 completed after
  an hour, trials 0 and 1 after two hours.\<close>

definition first_step :: Step where
  "first_step =
     \<lparr> step_experiment = experiment_with [(0, trial_of [arm_a] RUNNING)], step_clock = 360 \<rparr>"

definition second_step :: Step where
  "second_step =
     \<lparr> step_experiment = experiment_with [(0, trial_of [arm_a] COMPLETED),
                                           (1, trial_of [arm_b] RUNNING)],
       step_clock = 3600 \<rparr>"

definition third_step :: Step where
  "third_step =
     \<lparr> step_experiment = experiment_with [(0, trial_of [arm_a] COMPLETED),
                                           (1, trial_of [arm_b] EARLY_STOPPED)],
       step_clock = 7200 \<rparr>"

definition three_steps :: "Step list" where
  "three_steps = [first_step, second_step, third_step]"

definition arms_trace :: GetTrace where
  "arms_trace experiment config = map (\<lambda>(i, t). real (length (trial_arms t))) (exp_trials experiment)"

definition sample_collaborators :: Collaborators where
  "sample_collaborators =
     \<lparr> c_scheduler = (\<lambda>experiment gs options seed max_trials timeout.
                        \<lparr> run_start = 0, run_steps = three_steps \<rparr>),
       c_total_runtime = unit_runtime, c_run = count_arms_run, c_get_trace = arms_trace,
       c_get_model_times = (\<lambda>experiment. (0, 0)) \<rparr>"

definition first_parameters :: "Experiment \<Rightarrow> OptimizationConfig \<Rightarrow> int \<Rightarrow> TParameterization list" where
  "first_parameters experiment config n = [[(''x'', PFloat 0)]]"

definition hour_method :: BenchmarkMethod where
  "hour_method = sequential_method \<lparr> timeout_hours := Some 1, get_best_parameters := first_parameters \<rparr>"

definition patient_method :: BenchmarkMethod where
  "patient_method = hour_method \<lparr> timeout_hours := None \<rparr>"

definition moo_problem :: BenchmarkProblem where
  "moo_problem = sample_problem \<lparr> optimization_config := \<lparr> objective = MultiObjective \<rparr> \<rparr>"

text \<open>The double of the literal \<open>6.81\<close>, and the double next to \<open>-2\<close> towards zero.\<close>

definition double_6_81 :: float64 where
  "double_6_81 = Finite (7667378365598269 / 1125899906842624)"

definition below_minus_2 :: float64 where
  "below_minus_2 = Finite (- 9007199254740991 / 4503599627370496)"

section \<open>Theorems\<close>

subsection \<open>Score trace\<close>

text \<open>Powers of two, rounding to an integer, and the spacing of the doubles.\<close>

lemma p2_pos: "0 < pow2 e"
  by simp

lemma p2_add: "pow2 (a + b) = pow2 a * pow2 b"
  by (simp add: power_int_add)

lemma p2_mono: "a \<le> b \<Longrightarrow> pow2 a \<le> pow2 b"
  by (rule power_int_increasing) simp_all

lemma p2_less_D: "pow2 a < pow2 b \<Longrightarrow> a < b"
  using p2_mono [of b a] by (cases "a < b") simp_all

lemma p2_nat: "0 \<le> e \<Longrightarrow> pow2 e = 2 ^ nat e"
  by (simp add: power_int_def)

lemma rhe_cases: "round_half_even x = \<lfloor>x\<rfloor> \<or> round_half_even x = \<lfloor>x\<rfloor> + 1"
  by (simp add: round_half_even_def Let_def)

lemma rhe_error: "\<bar>of_int (round_half_even x) - x\<bar> \<le> 1 / 2"
  unfolding round_half_even_def Let_def by (simp; linarith)

lemma rhe_int: "round_half_even (of_int n) = n"
  by (simp add: round_half_even_def)

lemma rhe_mono:
  assumes "x \<le> y"
  shows "round_half_even x \<le> round_half_even y"
proof (cases "\<lfloor>x\<rfloor> = \<lfloor>y\<rfloor>")
  case True
  then show ?thesis using assms unfolding round_half_even_def Let_def by (simp; linarith)
next
  case False
  with assms have "\<lfloor>x\<rfloor> + 1 \<le> \<lfloor>y\<rfloor>" using floor_mono [OF assms] by linarith
  moreover have "round_half_even x \<le> \<lfloor>x\<rfloor> + 1" using rhe_cases [of x] by linarith
  moreover have "\<lfloor>y\<rfloor> \<le> round_half_even y" using rhe_cases [of y] by linarith
  ultimately show ?thesis by linarith
qed

lemma rhe_ge: "of_int n \<le> x \<Longrightarrow> n \<le> round_half_even x"
  using rhe_mono [of "of_int n" x] by (simp add: rhe_int)

lemma rhe_le: "x \<le> of_int n \<Longrightarrow> round_half_even x \<le> n"
  using rhe_mono [of x "of_int n"] by (simp add: rhe_int)

lemma ulp_exponent_ge: "- 1074 \<le> ulp_exponent r"
  by (simp add: ulp_exponent_def)

lemma ulp_exponent_upper:
  assumes "0 \<le> r"
  shows "r < pow2 (ulp_exponent r + 53)"
proof -
  define S where "S = pow2 1074"
  define N where "N = \<lfloor>r * S\<rfloor>"
  define L where "L = bitlen N"
  have S: "0 < S" by (simp add: S_def)
  have N0: "0 \<le> N" unfolding N_def using assms S by simp
  have L0: "0 \<le> L" unfolding L_def by (rule bitlen_nonneg)
  have NL: "N < 2 ^ nat L"
  proof (cases "0 < N")
    case True
    then show ?thesis unfolding L_def using bitlen_bounds [of N] by simp
  next
    case False
    with N0 have "N = 0" by simp
    then show ?thesis by simp
  qed
  have u: "ulp_exponent r = max (L - 53) 0 - 1074"
    by (simp add: ulp_exponent_def L_def N_def S_def)
  then have Lu: "L \<le> ulp_exponent r + 1127" by simp
  have "r * S < of_int N + 1" unfolding N_def by linarith
  also have "\<dots> = of_int (N + 1)" by simp
  also have "\<dots> \<le> of_int (2 ^ nat L)" using NL by (simp only: of_int_le_iff)
  also have "\<dots> = pow2 L" using L0 by (simp add: p2_nat)
  also have "\<dots> \<le> pow2 (ulp_exponent r + 1127)" using Lu by (rule p2_mono)
  also have "\<dots> = pow2 (ulp_exponent r + 53) * S"
    unfolding S_def p2_add [symmetric] by (simp add: add.commute)
  finally show ?thesis using S by simp
qed

lemma ulp_exponent_lower:
  assumes "- 1074 < ulp_exponent r"
  shows "pow2 (ulp_exponent r + 52) \<le> r"
proof -
  define S where "S = pow2 1074"
  define N where "N = \<lfloor>r * S\<rfloor>"
  define L where "L = bitlen N"
  have S: "0 < S" by (simp add: S_def)
  have u: "ulp_exponent r = max (L - 53) 0 - 1074"
    by (simp add: ulp_exponent_def L_def N_def S_def)
  with assms have L: "L = ulp_exponent r + 1127" by simp
  then have L1: "1 \<le> L" using ulp_exponent_ge [of r] by simp
  then have "0 < N" unfolding L_def using bitlen_eq_zero_iff [of N] by (cases "0 < N") simp_all
  then have "2 ^ nat (L - 1) \<le> N" unfolding L_def using bitlen_bounds [of N] by simp
  then have "(of_int (2 ^ nat (L - 1)) :: real) \<le> of_int N" by (simp only: of_int_le_iff)
  then have "pow2 (L - 1) \<le> of_int N" using L1 by (simp add: p2_nat)
  also have "\<dots> \<le> r * S" unfolding N_def by simp
  finally have "pow2 (ulp_exponent r + 52 + 1074) \<le> r * S" using L by (simp add: algebra_simps)
  then have "pow2 (ulp_exponent r + 52) * S \<le> r * S" unfolding S_def p2_add by simp
  then show ?thesis using S by simp
qed

lemma ulp_exponent_normal:
  assumes "pow2 k \<le> r" and "r < pow2 (k + 1)" and "- 1022 \<le> k"
  shows "ulp_exponent r = k - 52"
proof -
  have r0: "0 \<le> r" using assms(1) p2_pos [of k] by linarith
  have "pow2 k < pow2 (ulp_exponent r + 53)"
    using assms(1) ulp_exponent_upper [OF r0] by linarith
  then have a: "k - 52 \<le> ulp_exponent r" using p2_less_D by fastforce
  have b: "ulp_exponent r \<le> k - 52"
  proof (rule ccontr)
    assume "\<not> ulp_exponent r \<le> k - 52"
    then have c: "k - 52 < ulp_exponent r" by simp
    with assms(3) have "- 1074 < ulp_exponent r" by simp
    then have "pow2 (ulp_exponent r + 52) \<le> r" by (rule ulp_exponent_lower)
    with assms(2) have "pow2 (ulp_exponent r + 52) < pow2 (k + 1)" by linarith
    then have "ulp_exponent r + 52 < k + 1" by (rule p2_less_D)
    with c show False by simp
  qed
  from a b show ?thesis by simp
qed

lemma ulp_exponent_subnormal:
  assumes "r < pow2 (- 1022)"
  shows "ulp_exponent r = - 1074"
proof (rule ccontr)
  assume "ulp_exponent r \<noteq> - 1074"
  with ulp_exponent_ge [of r] have c: "- 1074 < ulp_exponent r" by simp
  then have "pow2 (ulp_exponent r + 52) \<le> r" by (rule ulp_exponent_lower)
  with assms have "pow2 (ulp_exponent r + 52) < pow2 (- 1022)" by linarith
  then have "ulp_exponent r + 52 < - 1022" by (rule p2_less_D)
  with c show False by simp
qed

lemma ulp_exponent_mono:
  assumes "0 \<le> r" and "r \<le> r'"
  shows "ulp_exponent r \<le> ulp_exponent r'"
proof (cases "- 1074 < ulp_exponent r")
  case True
  then have "pow2 (ulp_exponent r + 52) \<le> r" by (rule ulp_exponent_lower)
  moreover have "r' < pow2 (ulp_exponent r' + 53)"
    using assms by (intro ulp_exponent_upper) simp
  ultimately have "pow2 (ulp_exponent r + 52) < pow2 (ulp_exponent r' + 53)"
    using assms(2) by linarith
  then have "ulp_exponent r + 52 < ulp_exponent r' + 53" by (rule p2_less_D)
  then show ?thesis by simp
next
  case False
  then show ?thesis using ulp_exponent_ge [of r] ulp_exponent_ge [of r'] by simp
qed

text \<open>Rounding a magnitude: monotone, exact on the doubles, and off by at most a relative
  \<open>2 ^ (- 53)\<close> in the normal range.\<close>

lemma scale_int_le: "n \<le> m \<Longrightarrow> of_int n * pow2 e \<le> of_int m * pow2 e"
  by (rule mult_right_mono) simp_all

lemma p2_shift: "of_int (2 ^ n) * pow2 e = pow2 (e + int n)"
  by (simp add: p2_add power_int_of_nat mult.commute del: power_int_numeral)

lemma p2_int: "pow2 (int n) = of_int (2 ^ n)"
  by (simp add: power_int_of_nat)

lemma round_value_zero: "round_value 0 = 0"
  using rhe_int [of 0] by (simp add: round_value_def)

lemma round_value_nonneg:
  assumes "0 \<le> r"
  shows "0 \<le> round_value r"
proof -
  have "of_int 0 \<le> r / pow2 (ulp_exponent r)" using assms by simp
  then have "0 \<le> round_half_even (r / pow2 (ulp_exponent r))" by (rule rhe_ge)
  then show ?thesis by (simp add: round_value_def)
qed

lemma round_value_le_top:
  assumes "0 \<le> r"
  shows "round_value r \<le> pow2 (ulp_exponent r + 53)"
proof -
  let ?e = "ulp_exponent r"
  have "r < pow2 (?e + int 53)" using ulp_exponent_upper [OF assms] by simp
  then have "r \<le> pow2 (int 53) * pow2 ?e" by (simp only: p2_add mult.commute)
  then have "r / pow2 ?e \<le> pow2 (int 53)" by (simp add: pos_divide_le_eq del: power_int_numeral)
  then have "r / pow2 ?e \<le> of_int (2 ^ 53)" by (simp only: p2_int)
  then have "round_half_even (r / pow2 ?e) \<le> 2 ^ 53" by (rule rhe_le)
  then have "of_int (round_half_even (r / pow2 ?e)) * pow2 ?e \<le> of_int (2 ^ 53) * pow2 ?e"
    by (rule scale_int_le)
  also have "of_int (2 ^ 53) * pow2 ?e = pow2 (?e + int 53)" by (rule p2_shift)
  finally show ?thesis by (simp add: round_value_def)
qed

lemma round_value_ge_bottom:
  assumes "- 1074 < ulp_exponent r"
  shows "pow2 (ulp_exponent r + 52) \<le> round_value r"
proof -
  let ?e = "ulp_exponent r"
  have "pow2 (?e + int 52) \<le> r" using ulp_exponent_lower [OF assms] by simp
  then have "pow2 (int 52) * pow2 ?e \<le> r" by (simp only: p2_add mult.commute)
  then have "pow2 (int 52) \<le> r / pow2 ?e" by (simp add: pos_le_divide_eq del: power_int_numeral)
  then have "of_int (2 ^ 52) \<le> r / pow2 ?e" by (simp only: p2_int)
  then have "2 ^ 52 \<le> round_half_even (r / pow2 ?e)" by (rule rhe_ge)
  then have "of_int (2 ^ 52) * pow2 ?e \<le> of_int (round_half_even (r / pow2 ?e)) * pow2 ?e"
    by (rule scale_int_le)
  moreover have "of_int (2 ^ 52) * pow2 ?e = pow2 (?e + int 52)" by (rule p2_shift)
  ultimately have "pow2 (?e + int 52) \<le> round_value r" by (simp only: round_value_def)
  then show ?thesis by simp
qed

lemma round_value_mono:
  assumes "0 \<le> r" and "r \<le> r'"
  shows "round_value r \<le> round_value r'"
proof (cases "ulp_exponent r = ulp_exponent r'")
  case True
  have "r / pow2 (ulp_exponent r') \<le> r' / pow2 (ulp_exponent r')"
    using assms(2) by (simp add: divide_right_mono)
  then have "round_half_even (r / pow2 (ulp_exponent r'))
      \<le> round_half_even (r' / pow2 (ulp_exponent r'))" by (rule rhe_mono)
  then have "of_int (round_half_even (r / pow2 (ulp_exponent r'))) * pow2 (ulp_exponent r')
      \<le> of_int (round_half_even (r' / pow2 (ulp_exponent r'))) * pow2 (ulp_exponent r')"
    by (rule scale_int_le)
  then show ?thesis by (simp add: round_value_def True)
next
  case False
  with ulp_exponent_mono [OF assms] have lt: "ulp_exponent r < ulp_exponent r'" by simp
  then have "- 1074 < ulp_exponent r'" using ulp_exponent_ge [of r] by simp
  then have "pow2 (ulp_exponent r' + 52) \<le> round_value r'" by (rule round_value_ge_bottom)
  moreover have "round_value r \<le> pow2 (ulp_exponent r + 53)"
    using assms(1) by (rule round_value_le_top)
  moreover have "pow2 (ulp_exponent r + 53) \<le> pow2 (ulp_exponent r' + 52)"
    using lt by (intro p2_mono) simp
  ultimately show ?thesis by linarith
qed

lemma round_value_error:
  assumes "pow2 (- 1022) \<le> r"
  shows "\<bar>round_value r - r\<bar> \<le> r * pow2 (- 53)"
proof -
  let ?e = "ulp_exponent r"
  let ?y = "r / pow2 ?e"
  have low: "pow2 (?e + 52) \<le> r"
  proof (cases "- 1074 < ?e")
    case True
    then show ?thesis by (rule ulp_exponent_lower)
  next
    case False
    with ulp_exponent_ge [of r] have "?e = - 1074" by simp
    then show ?thesis using assms by simp
  qed
  have "round_value r - r = (of_int (round_half_even ?y) - ?y) * pow2 ?e"
    by (simp add: round_value_def algebra_simps)
  then have "\<bar>round_value r - r\<bar> = \<bar>of_int (round_half_even ?y) - ?y\<bar> * pow2 ?e"
    by (simp add: abs_mult)
  also have "\<dots> \<le> (1 / 2) * pow2 ?e"
    by (rule mult_right_mono [OF rhe_error]) simp
  also have "\<dots> = pow2 (?e + 52) * pow2 (- 53)"
  proof -
    have "pow2 (?e + 52 + (- 53)) = pow2 (- 1 + ?e)" by (rule arg_cong [where f = pow2]) simp
    then have "pow2 (?e + 52) * pow2 (- 53) = pow2 (- 1) * pow2 ?e" by (simp only: p2_add)
    then show ?thesis by simp
  qed
  also have "\<dots> \<le> r * pow2 (- 53)" by (rule mult_right_mono [OF low]) simp
  finally show ?thesis .
qed

lemma round_value_exact:
  assumes "r = of_int m * pow2 e" and "0 \<le> m" and "m < 2 ^ 53" and "- 1074 \<le> e"
  shows "round_value r = r"
proof -
  let ?u = "ulp_exponent r"
  have r0: "0 \<le> r" using assms(1,2) by simp
  have "m + 1 \<le> 2 ^ 53" using assms(3) by simp
  then have "of_int (m + 1) * pow2 e \<le> of_int (2 ^ 53) * pow2 e" by (rule scale_int_le)
  also have "of_int (2 ^ 53) * pow2 e = pow2 (e + int 53)" by (rule p2_shift)
  finally have "of_int m * pow2 e + pow2 e \<le> pow2 (e + 53)" by (simp add: algebra_simps)
  then have top: "r < pow2 (e + 53)" using assms(1) p2_pos [of e] by linarith
  have ue: "?u \<le> e"
  proof (cases "- 1074 < ?u")
    case True
    then have "pow2 (?u + 52) \<le> r" by (rule ulp_exponent_lower)
    with top have "pow2 (?u + 52) < pow2 (e + 53)" by linarith
    then have "?u + 52 < e + 53" by (rule p2_less_D)
    then show ?thesis by simp
  next
    case False
    with ulp_exponent_ge [of r] assms(4) show ?thesis by simp
  qed
  define k where "k = nat (e - ?u)"
  have e: "e = ?u + int k" using ue by (simp add: k_def)
  have "pow2 e = of_int (2 ^ k) * pow2 ?u" by (subst e) (simp only: p2_shift)
  then have "r = of_int m * (of_int (2 ^ k) * pow2 ?u)" using assms(1) by simp
  then have y: "r / pow2 ?u = of_int (m * 2 ^ k)" by (simp add: field_simps)
  then have "round_half_even (r / pow2 ?u) = m * 2 ^ k" by (simp only: rhe_int)
  then have "round_value r = of_int (m * 2 ^ k) * pow2 ?u" by (simp only: round_value_def)
  also have "\<dots> = r" by (simp only: y [symmetric]) simp
  finally show ?thesis .
qed

lemma round_value_int:
  assumes "0 \<le> n" and "n < 2 ^ 53"
  shows "round_value (of_int n) = of_int n"
  by (rule round_value_exact [where m = n and e = 0]) (use assms in simp_all)

lemma round_value_grid: "\<exists>n. round_value r * pow2 1074 = of_int n"
proof -
  let ?e = "ulp_exponent r"
  have "pow2 ?e * pow2 1074 = pow2 (?e + 1074)" by (simp only: p2_add)
  also have "\<dots> = of_int (2 ^ nat (?e + 1074))"
    using ulp_exponent_ge [of r] by (simp add: p2_nat)
  finally have "round_value r * pow2 1074
      = of_int (round_half_even (r / pow2 ?e) * 2 ^ nat (?e + 1074))"
    by (simp add: round_value_def mult.assoc del: power_int_numeral)
  then show ?thesis by (rule exI)
qed

lemma round_value_pos:
  assumes "0 < r" and "r * pow2 1074 = of_int n"
  shows "0 < round_value r"
proof -
  let ?e = "ulp_exponent r"
  have one: "1 \<le> r / pow2 ?e"
  proof (cases "- 1074 < ?e")
    case True
    then have "pow2 (?e + 52) \<le> r" by (rule ulp_exponent_lower)
    moreover have "pow2 ?e \<le> pow2 (?e + 52)" by (rule p2_mono) simp
    ultimately show ?thesis by (simp add: pos_le_divide_eq)
  next
    case False
    with ulp_exponent_ge [of r] have e: "?e = - 1074" by simp
    have "0 < (of_int n :: real)" using assms by (simp flip: assms(2))
    then have "1 \<le> n" by simp
    then have "(1::real) \<le> of_int n" by simp
    then have "1 \<le> r * pow2 1074" by (simp only: assms(2))
    then show ?thesis unfolding e by (simp add: power_int_minus field_simps del: power_int_numeral)
  qed
  then have "of_int 1 \<le> r / pow2 ?e" by simp
  then have "1 \<le> round_half_even (r / pow2 ?e)" by (rule rhe_ge)
  then have "0 < (of_int (round_half_even (r / pow2 ?e)) :: real)" by simp
  then show ?thesis by (simp add: round_value_def)
qed

lemma round_double_normal:
  assumes "pow2 k \<le> r" and "r < pow2 (k + 1)" and "- 1022 \<le> k"
  shows "round_double s r =
     (let v = of_int (round_half_even (r / pow2 (k - 52))) * pow2 (k - 52)
      in if 2 ^ 1024 \<le> v then Infinite s else signed s v)"
  by (simp add: round_double_def round_value_def ulp_exponent_normal [OF assms] Let_def
        del: power_int_numeral)

lemma round_double_subnormal:
  assumes "r < pow2 (- 1022)"
  shows "round_double s r =
     (let v = of_int (round_half_even (r / pow2 (- 1074))) * pow2 (- 1074)
      in if 2 ^ 1024 \<le> v then Infinite s else signed s v)"
  by (simp add: round_double_def round_value_def ulp_exponent_subnormal [OF assms] Let_def
        del: power_int_numeral)

lemma round_double_int:
  assumes "0 \<le> n" and "n < 2 ^ 53"
  shows "round_double s (of_int n) = signed s (of_int n)"
proof -
  have "n < 2 ^ 1024" using assms(2) by simp
  then have "(of_int n :: real) < of_int (2 ^ 1024)" by (simp only: of_int_less_iff)
  then have "\<not> 2 ^ 1024 \<le> (of_int n :: real)" by simp
  then show ?thesis by (simp add: round_double_def round_value_int [OF assms])
qed

text \<open>The operations on signs and magnitudes.\<close>

lemma sign_bit_signed: "0 \<le> m \<Longrightarrow> sign_bit (signed s m) = s"
  by (simp add: signed_def)

lemma abs_value_signed: "0 \<le> m \<Longrightarrow> \<bar>finite_value (signed s m)\<bar> = m"
  by (simp add: signed_def)

lemma value_signed: "finite_value (signed s m) = (if s then - m else m)"
  by (simp add: signed_def)

lemma is_finite_signed: "is_finite (signed s m)"
  by (simp add: signed_def)

lemma finite_as_signed: "is_finite x \<Longrightarrow> x = signed (sign_bit x) \<bar>finite_value x\<bar>"
  by (cases x) (simp_all add: signed_def)

lemma round_double_cases:
  "round_double s r = Infinite s
   \<or> (round_double s r = signed s (round_value r) \<and> round_value r < 2 ^ 1024)"
  by (simp add: round_double_def)

lemma fmul_signed:
  assumes "0 \<le> m" and "0 \<le> m'"
  shows "fmul (signed s m) (signed s' m') = round_double (s \<noteq> s') (m * m')"
  using assms by (simp add: signed_def)

lemma fdiv_signed:
  assumes "0 \<le> m" and "0 < m'"
  shows "fdiv (signed s m) (signed s' m') = round_double (s \<noteq> s') (m / m')"
  using assms by (simp add: signed_def)

lemma fdiv_infinite_signed: "fdiv (Infinite s) (signed s' m') = Infinite (s \<noteq> sign_bit (signed s' m'))"
  by (simp add: signed_def)

lemma fsub_finite:
  assumes "is_finite x" and "is_finite y" and "finite_value x \<noteq> finite_value y"
  shows "fsub x y = round_double (finite_value x < finite_value y) \<bar>finite_value x - finite_value y\<bar>"
  using assms by (cases x; cases y) (simp_all add: Let_def)

lemma fsub_equal:
  assumes "is_finite x" and "is_finite y" and "finite_value x = finite_value y"
  shows "fsub x y = Finite 0 \<or> fsub x y = NegZero"
  using assms by (cases x; cases y) (simp_all add: Let_def)

lemma hundred: "Finite 100 = signed False 100"
  by (simp add: signed_def)

text \<open>The score of the optimum itself: \<open>100 * D\<close> rounded, divided by \<open>D\<close>, rounded.\<close>

lemma score_at_optimal:
  assumes "pow2 (- 1022) \<le> D" and "D \<le> pow2 1017"
  shows "0 < round_value (100 * D)
     \<and> round_value (100 * D) < 2 ^ 1024
     \<and> \<bar>round_value (round_value (100 * D) / D) - 100\<bar> \<le> pow2 (- 45)
     \<and> round_value (round_value (100 * D) / D) < 2 ^ 1024"
proof -
  define u where "u = pow2 (- 53)"
  define A where "A = round_value (100 * D)"
  define y where "y = A / D"
  define Q where "Q = round_value y"
  have u0: "0 < u" and u1: "u \<le> 1 / 100" and u2: "201 * u \<le> pow2 (- 45)"
    by (simp_all add: u_def)
  have small: "pow2 (- 1022) \<le> 1" by simp
  have big: "101 * pow2 1017 < 2 ^ 1024" by simp
  have D0: "0 < D" using assms(1) p2_pos [of "- 1022"] by linarith
  have "pow2 (- 1022) \<le> 100 * D" using assms(1) D0 by linarith
  then have "\<bar>A - 100 * D\<bar> \<le> 100 * D * u" unfolding A_def u_def by (rule round_value_error)
  then have e1: "\<bar>A - 100 * D\<bar> \<le> D * (100 * u)" by (simp add: mult_ac)
  have "D * (100 * u) \<le> D * 1" using u1 D0 by (intro mult_left_mono) simp_all
  with e1 have A1: "99 * D \<le> A" and A2: "A \<le> 101 * D" by linarith+
  have A0: "0 < A" using A1 D0 by linarith
  have Abig: "A < 2 ^ 1024" using A2 assms(2) big by linarith
  have "y - 100 = (A - 100 * D) / D" using D0 by (simp add: y_def field_simps)
  then have "\<bar>y - 100\<bar> = \<bar>A - 100 * D\<bar> / D" using D0 by (simp add: abs_divide)
  also have "\<dots> \<le> 100 * u" using e1 D0 by (simp add: pos_divide_le_eq mult.commute)
  finally have y1: "\<bar>y - 100\<bar> \<le> 100 * u" .
  then have y2: "99 \<le> y" and y3: "y \<le> 101" using u1 by linarith+
  have "pow2 (- 1022) \<le> y" using small y2 by linarith
  then have "\<bar>Q - y\<bar> \<le> y * u" unfolding Q_def u_def by (rule round_value_error)
  also have "\<dots> \<le> 101 * u" using y3 u0 by (intro mult_right_mono) simp_all
  finally have "\<bar>Q - 100\<bar> \<le> 201 * u" using y1 by linarith
  then have Q1: "\<bar>Q - 100\<bar> \<le> pow2 (- 45)" using u2 by linarith
  have "pow2 (- 45) \<le> 1" by simp
  with Q1 have "Q \<le> 101" by linarith
  moreover have "(101::real) < 2 ^ 1024" by simp
  ultimately have Qbig: "Q < 2 ^ 1024" by linarith
  from A0 Abig Q1 Qbig show ?thesis unfolding Q_def y_def A_def by simp
qed

lemma f64_le_infinite: "f64_le (Finite c) (Infinite False)"
  by (simp add: f64_le_def)

lemma f64_le_signed_pos: "c \<le> m \<Longrightarrow> 0 < m \<Longrightarrow> f64_le (Finite c) (signed False m)"
  by (auto simp add: f64_le_def signed_def)

lemma f64_le_signed_upper: "m \<le> c \<Longrightarrow> f64_le (signed False m) (Finite c)"
  by (auto simp add: f64_le_def signed_def)

lemma f64_le_signed_neg: "0 \<le> m \<Longrightarrow> f64_le (signed True m) (Finite 0)"
  by (auto simp add: f64_le_def signed_def)

lemma f64_le_neg_infinite: "f64_le (Infinite True) (Finite c)"
  by (simp add: f64_le_def)

text \<open>The score of a value whose distance \<open>dx\<close> from the baseline is at least the distance \<open>dD\<close>
  of the optimum, on the same side.\<close>

lemma score_beyond:
  assumes D: "D = round_value dD" "pow2 (- 1022) \<le> D" "D \<le> pow2 1017"
    and dx: "0 \<le> dD" "dD \<le> dx"
  shows "f64_le (Finite (100 - pow2 (- 45)))
           (fdiv (fmul (Finite 100) (round_double s dx)) (signed s D))"
proof -
  note b = score_at_optimal [OF D(2,3)]
  have D0: "0 < D" using D(2) p2_pos [of "- 1022"] by linarith
  have sD: "sign_bit (signed s D) = s" using D0 by (simp add: sign_bit_signed)
  define X where "X = round_value dx"
  define A where "A = round_value (100 * X)"
  define Q where "Q = round_value (A / D)"
  have X: "D \<le> X" unfolding X_def D(1) using dx by (rule round_value_mono)
  then have X0: "0 < X" using D0 by linarith
  have "round_value (100 * D) \<le> A" unfolding A_def using D0 X
    by (intro round_value_mono) simp_all
  then have A: "round_value (100 * D) / D \<le> A / D" using D0 by (simp add: divide_right_mono)
  have A0: "0 < A" using b \<open>round_value (100 * D) \<le> A\<close> by linarith
  have "0 \<le> round_value (100 * D) / D" using b D0 by simp
  then have "round_value (round_value (100 * D) / D) \<le> Q" unfolding Q_def using A
    by (rule round_value_mono)
  with b have Q: "100 - pow2 (- 45) \<le> Q" by linarith
  have "pow2 (- 45) \<le> 1" by simp
  with Q have Q0: "0 < Q" by linarith
  have inf: "fdiv (Infinite s) (signed s D) = Infinite False"
    by (simp add: fdiv_infinite_signed sD)
  consider (a) "round_double s dx = Infinite s"
    | (b) "round_double s dx = signed s X"
    using round_double_cases [of s dx] by (auto simp add: X_def)
  then show ?thesis
  proof cases
    case a
    then show ?thesis by (simp add: inf f64_le_infinite)
  next
    case b
    have m: "fmul (Finite 100) (signed s X) = round_double s (100 * X)"
      unfolding hundred using X0 by (simp add: fmul_signed)
    consider (c) "round_double s (100 * X) = Infinite s"
      | (d) "round_double s (100 * X) = signed s A"
      using round_double_cases [of s "100 * X"] by (auto simp add: A_def)
    then show ?thesis
    proof cases
      case c
      then show ?thesis by (simp add: b m inf f64_le_infinite)
    next
      case d
      have q: "fdiv (signed s A) (signed s D) = round_double False (A / D)"
        using A0 D0 by (simp add: fdiv_signed)
      consider (e) "round_double False (A / D) = Infinite False"
        | (f) "round_double False (A / D) = signed False Q"
        using round_double_cases [of False "A / D"] by (auto simp add: Q_def)
      then show ?thesis
      proof cases
        case e
        then show ?thesis by (simp add: b m d q f64_le_infinite)
      next
        case f
        then show ?thesis using f64_le_signed_pos [OF Q Q0] by (simp add: b m d q)
      qed
    qed
  qed
qed

lemma score_equal:
  assumes D: "pow2 (- 1022) \<le> D" "D \<le> pow2 1017"
  shows "f64_le (Finite (100 - pow2 (- 45)))
           (fdiv (fmul (Finite 100) (signed s D)) (signed s D))
       \<and> f64_le (fdiv (fmul (Finite 100) (signed s D)) (signed s D))
           (Finite (100 + pow2 (- 45)))"
proof -
  note b = score_at_optimal [OF D]
  define A where "A = round_value (100 * D)"
  define Q where "Q = round_value (A / D)"
  have D0: "0 < D" using D(1) p2_pos [of "- 1022"] by linarith
  have A0: "0 < A" and A1: "A < 2 ^ 1024" using b by (simp_all add: A_def)
  have Q1: "Q < 2 ^ 1024" and Q2: "\<bar>Q - 100\<bar> \<le> pow2 (- 45)" using b by (simp_all add: Q_def A_def)
  have "pow2 (- 45) \<le> 1" by simp
  with Q2 have Q0: "0 < Q" by linarith
  have "fmul (Finite 100) (signed s D) = round_double s (100 * D)"
    unfolding hundred using D0 by (simp add: fmul_signed)
  also have "\<dots> = signed s A" using A1 by (simp add: round_double_def A_def)
  finally have m: "fmul (Finite 100) (signed s D) = signed s A" .
  have "fdiv (signed s A) (signed s D) = round_double False (A / D)"
    using A0 D0 by (simp add: fdiv_signed)
  also have "\<dots> = signed False Q" using Q1 by (simp add: round_double_def Q_def)
  finally have q: "fdiv (fmul (Finite 100) (signed s D)) (signed s D) = signed False Q"
    by (simp only: m)
  have lo: "100 - pow2 (- 45) \<le> Q" and hi: "Q \<le> 100 + pow2 (- 45)" using Q2 by linarith+
  show ?thesis unfolding q using f64_le_signed_pos [OF lo Q0] f64_le_signed_upper [OF hi] by simp
qed

lemma score_worse:
  assumes "0 < D" and "0 \<le> dx"
  shows "f64_le (fdiv (fmul (Finite 100) (round_double (\<not> s) dx)) (signed s D)) (Finite 0)"
proof -
  define X where "X = round_value dx"
  define A where "A = round_value (100 * X)"
  define Q where "Q = round_value (A / D)"
  have X0: "0 \<le> X" unfolding X_def using assms(2) by (rule round_value_nonneg)
  then have A0: "0 \<le> A" unfolding A_def by (intro round_value_nonneg) simp
  then have Q0: "0 \<le> Q" unfolding Q_def using assms(1) by (intro round_value_nonneg) simp
  have sD: "sign_bit (signed s D) = s" using assms(1) by (simp add: sign_bit_signed)
  have inf: "fdiv (Infinite (\<not> s)) (signed s D) = Infinite True"
    by (simp add: fdiv_infinite_signed sD)
  consider (a) "round_double (\<not> s) dx = Infinite (\<not> s)"
    | (b) "round_double (\<not> s) dx = signed (\<not> s) X"
    using round_double_cases [of "\<not> s" dx] by (auto simp add: X_def)
  then show ?thesis
  proof cases
    case a
    then show ?thesis by (simp add: inf f64_le_neg_infinite)
  next
    case b
    have m: "fmul (Finite 100) (signed (\<not> s) X) = round_double (\<not> s) (100 * X)"
      unfolding hundred using X0 by (simp add: fmul_signed)
    consider (c) "round_double (\<not> s) (100 * X) = Infinite (\<not> s)"
      | (d) "round_double (\<not> s) (100 * X) = signed (\<not> s) A"
      using round_double_cases [of "\<not> s" "100 * X"] by (auto simp add: A_def)
    then show ?thesis
    proof cases
      case c
      then show ?thesis by (simp add: b m inf f64_le_neg_infinite)
    next
      case d
      have q: "fdiv (signed (\<not> s) A) (signed s D) = round_double True (A / D)"
        using A0 assms(1) by (simp add: fdiv_signed)
      consider (e) "round_double True (A / D) = Infinite True"
        | (f) "round_double True (A / D) = signed True Q"
        using round_double_cases [of True "A / D"] by (auto simp add: Q_def)
      then show ?thesis
      proof cases
        case e
        then show ?thesis by (simp add: b m d q f64_le_neg_infinite)
      next
        case f
        then show ?thesis using f64_le_signed_neg [OF Q0] by (simp add: b m d q)
      qed
    qed
  qed
qed

lemma score_infinite:
  assumes "0 < D"
  shows "fdiv (fmul (Finite 100) (Infinite s)) (signed s' D) = Infinite (s \<noteq> s')"
  using assms by (simp add: signed_def)

lemma grid_sign:
  fixes P :: real
  assumes "m * P = of_int n" and "v = m \<or> v = - m"
  shows "\<exists>k. v * P = of_int k"
proof (cases "v = m")
  case True
  then show ?thesis using assms(1) by blast
next
  case False
  with assms(2) have "v * P = - (m * P)" by simp
  then have "v * P = of_int (- n)" by (simp only: assms(1) of_int_minus)
  then show ?thesis by (rule exI)
qed

lemma grid_diff:
  fixes P :: real
  assumes "0 < P" and "a * P = of_int n" and "b * P = of_int k"
  shows "\<bar>a - b\<bar> * P = of_int \<bar>n - k\<bar>"
proof -
  have "\<bar>a - b\<bar> * P = \<bar>(a - b) * P\<bar>" using assms(1) by (simp add: abs_mult)
  also have "(a - b) * P = a * P - b * P" by (simp add: algebra_simps)
  also have "\<dots> = of_int (n - k)" by (simp only: assms(2,3) of_int_diff)
  finally show ?thesis by simp
qed

lemma representable_grid:
  assumes "is_finite x" and "representable x"
  shows "\<exists>n. finite_value x * pow2 1074 = of_int n"
proof (cases x)
  case (Finite v)
  with assms(2) have r: "round_double (v < 0) \<bar>v\<bar> = Finite v" by (simp add: float64_of_real_def)
  then have s: "signed (v < 0) (round_value \<bar>v\<bar>) = Finite v"
    using round_double_cases [of "v < 0" "\<bar>v\<bar>"] by auto
  obtain n where n: "round_value \<bar>v\<bar> * pow2 1074 = of_int n"
    using round_value_grid [of "\<bar>v\<bar>"] by blast
  have "v = round_value \<bar>v\<bar> \<or> v = - round_value \<bar>v\<bar>"
    using s by (auto simp add: signed_def split: if_splits)
  with n have "\<exists>k. v * pow2 1074 = of_int k" by (rule grid_sign)
  then show ?thesis unfolding Finite by (simp only: finite_value.simps)
next
  case NegZero
  have "finite_value NegZero * pow2 1074 = of_int 0" by simp
  then show ?thesis unfolding NegZero by (rule exI)
next
  case (Infinite s)
  with assms(1) show ?thesis by simp
next
  case NaN
  with assms(1) show ?thesis by simp
qed

lemma fsub_nonzero:
  assumes "is_finite x" and "is_finite y" and "representable x" and "representable y"
    and "finite_value x \<noteq> finite_value y"
  shows "fsub x y = Infinite (finite_value x < finite_value y)
       \<or> (\<exists>m. 0 < m \<and> fsub x y = signed (finite_value x < finite_value y) m)"
proof -
  let ?d = "\<bar>finite_value x - finite_value y\<bar>"
  obtain n where n: "finite_value x * pow2 1074 = of_int n"
    using representable_grid [OF assms(1,3)] by blast
  obtain k where k: "finite_value y * pow2 1074 = of_int k"
    using representable_grid [OF assms(2,4)] by blast
  have g: "?d * pow2 1074 = of_int \<bar>n - k\<bar>"
    using p2_pos n k by (rule grid_diff)
  have "0 < ?d" using assms(5) by simp
  then have "0 < round_value ?d" using g by (rule round_value_pos)
  then show ?thesis
    unfolding fsub_finite [OF assms(1,2,5)]
    using round_double_cases [of "finite_value x < finite_value y" ?d] by auto
qed

lemma zero_cases: "signed s 0 = Finite 0 \<or> signed s 0 = NegZero"
  by (simp add: signed_def)

lemma round_double_zero: "round_double s 0 = signed s 0"
  by (simp add: round_double_def round_value_zero)

lemma score_of_baseline:
  assumes "z = Finite 0 \<or> z = NegZero"
    and "d = Infinite s \<or> (\<exists>m. 0 < m \<and> d = signed s m)"
  shows "f64_eq (fdiv (fmul (Finite 100) z) d) (Finite 0)"
proof -
  have "fmul (Finite 100) z = round_double (sign_bit z) 0" using assms(1) by auto
  then have m: "fmul (Finite 100) z = signed (sign_bit z) 0" by (simp only: round_double_zero)
  have "fdiv (signed (sign_bit z) 0) d = signed (sign_bit z \<noteq> s) 0"
  proof (cases "d = Infinite s")
    case True
    then show ?thesis by (simp add: signed_def)
  next
    case False
    with assms(2) obtain m where m: "0 < m" "d = signed s m" by blast
    have "fdiv (signed (sign_bit z) 0) (signed s m) = round_double (sign_bit z \<noteq> s) (0 / m)"
      using m(1) by (intro fdiv_signed) simp_all
    then show ?thesis by (simp add: m(2) round_double_zero)
  qed
  then show ?thesis unfolding m by (simp add: signed_def)
qed

lemma fsub_side:
  assumes "is_finite b" and "if s then f64_less x b else f64_less b x"
  shows "fsub x b = Infinite s
       \<or> (is_finite x \<and> fsub x b = round_double s \<bar>finite_value x - finite_value b\<bar>
          \<and> (if s then finite_value x < finite_value b else finite_value b < finite_value x))"
  using assms by (cases x; cases b; cases s) (simp_all add: Let_def)

lemma f64_eq_finite:
  assumes "is_finite b" and "f64_eq x b"
  shows "is_finite x \<and> finite_value x = finite_value b"
  using assms by (cases x; cases b) simp_all

lemma f64_less_finite:
  assumes "is_finite b" and "is_finite x"
  shows "f64_less b x = (finite_value b < finite_value x)"
  using assms by (cases x; cases b) simp_all

lemma round_double_numeral:
  assumes "numeral w < (2 ^ 53 :: int)"
  shows "round_double s (numeral w) = signed s (numeral w)"
  using round_double_int [of "numeral w" s] assms by simp

lemma beyond_side:
  assumes "is_finite b" and "is_finite opt"
    and "if s then finite_value opt < finite_value b else finite_value b < finite_value opt"
    and "if s then f64_less x opt else f64_less opt x"
  shows "fsub x b = Infinite s
       \<or> (\<exists>dx. fsub x b = round_double s dx \<and> \<bar>finite_value opt - finite_value b\<bar> \<le> dx)"
proof (cases "is_finite x")
  case True
  have o: "if s then finite_value x < finite_value opt else finite_value opt < finite_value x"
    using assms(4) f64_less_finite [OF assms(2) True] f64_less_finite [OF True assms(2)]
    by (simp split: if_splits)
  with assms(3) have ne: "finite_value x \<noteq> finite_value b" by (auto split: if_splits)
  have sg: "(finite_value x < finite_value b) = s" using o assms(3) by (auto split: if_splits)
  have "\<bar>finite_value opt - finite_value b\<bar> \<le> \<bar>finite_value x - finite_value b\<bar>"
    using o assms(3) by (auto split: if_splits)
  then show ?thesis using fsub_finite [OF True assms(1) ne] sg by auto
next
  case False
  then show ?thesis using assms(1,2,4) by (cases x; cases b; cases opt; cases s) simp_all
qed

lemma score_examples:
  "compute_score_trace [Finite 0, Finite 50, Finite 100, Finite 150] (Finite 0) (Finite 100)
     = [Finite 0, Finite 50, Finite 100, Finite 150]
   \<and> compute_score_trace [Finite 100, Finite 50, Finite 0] (Finite 100) (Finite 0)
     = [NegZero, Finite 50, Finite 100]"
  by (simp add: compute_score_trace_def round_double_numeral round_double_zero signed_def)

lemmas float_defs = compute_score_trace_def float64_of_real_def round_half_even_def signed_def
  double_6_81_def below_minus_2_def

text \<open>
  C5, as stated: a value equal to the optimum scores 100, one beyond the optimum scores
  above 100, one worse than the baseline scores below 0. In binary64 each fails. With
  baseline \<open>-5.75\<close> and optimum \<open>6.81\<close> the optimum itself scores
  \<open>7036874417766399 / 2 ^ 46\<close>, the double below 100, printed \<open>99.99999999999999\<close>. With
  baseline \<open>-5\<close> and optimum \<open>-2\<close>, the double next to \<open>-2\<close> towards zero is beyond the optimum
  and scores 100 exactly. With baseline 0 and optimum \<open>2 ^ 600\<close>, the value \<open>- 2 ^ (- 600)\<close>
  is worse than the baseline and scores minus zero, which is not below 0. With baseline
  \<open>-inf\<close> and optimum \<open>inf\<close>, the references that \<open>compute_baseline_value_from_sobol\<close>
  gives its dummy problem, every score is NaN, that of a value equal to the baseline too.
\<close>

theorem C5_compute_score_trace_counterexample:
  "float64_of_real (681 / 100) = double_6_81
   \<and> is_finite (Finite (- 23 / 4)) \<and> representable (Finite (- 23 / 4))
   \<and> is_finite double_6_81 \<and> representable double_6_81
   \<and> \<not> f64_eq double_6_81 (Finite (- 23 / 4))
   \<and> compute_score_trace [double_6_81] (Finite (- 23 / 4)) double_6_81
       = [Finite (7036874417766399 / 70368744177664)]
   \<and> \<not> f64_eq (Finite (7036874417766399 / 70368744177664)) (Finite 100)
   \<and> representable (Finite (- 5)) \<and> representable (Finite (- 2)) \<and> representable below_minus_2
   \<and> f64_less (Finite (- 5)) (Finite (- 2)) \<and> f64_less (Finite (- 2)) below_minus_2
   \<and> compute_score_trace [below_minus_2] (Finite (- 5)) (Finite (- 2)) = [Finite 100]
   \<and> \<not> f64_less (Finite 100) (Finite 100)
   \<and> representable (Finite 0) \<and> representable (Finite (2 ^ 600))
   \<and> representable (Finite (- 1 / 2 ^ 600))
   \<and> f64_less (Finite 0) (Finite (2 ^ 600)) \<and> f64_less (Finite (- 1 / 2 ^ 600)) (Finite 0)
   \<and> compute_score_trace [Finite (- 1 / 2 ^ 600)] (Finite 0) (Finite (2 ^ 600)) = [NegZero]
   \<and> \<not> f64_less NegZero (Finite 0)
   \<and> \<not> f64_eq (Infinite False) (Infinite True) \<and> f64_eq (Infinite True) (Infinite True)
   \<and> compute_score_trace [Infinite True, Finite 1] (Infinite True) (Infinite False) = [NaN, NaN]
   \<and> \<not> f64_eq NaN (Finite 0)"
proof -
  have a1: "float64_of_real (681 / 100) = double_6_81"
    by (simp add: float_defs round_double_normal [where k = 2])
  have a2: "representable (Finite (- 23 / 4))"
    by (simp add: float_defs round_double_normal [where k = 2])
  have a3: "representable double_6_81"
    by (simp add: float_defs round_double_normal [where k = 2])
  have a4: "compute_score_trace [double_6_81] (Finite (- 23 / 4)) double_6_81
       = [Finite (7036874417766399 / 70368744177664)]"
    by (simp add: float_defs round_double_normal [where k = 3] round_double_normal [where k = 10]
          round_double_normal [where k = 6])
  have b1: "representable (Finite (- 5))" "representable (Finite (- 2))"
    by (simp_all add: float_defs round_double_numeral)
  have b2: "representable below_minus_2"
    by (simp add: float_defs round_double_normal [where k = 0])
  have b3: "compute_score_trace [below_minus_2] (Finite (- 5)) (Finite (- 2)) = [Finite 100]"
    by (simp add: float_defs round_double_normal [where k = 1] round_double_numeral)
  have c1: "representable (Finite 0)" "representable (Finite (2 ^ 600))"
    by (simp_all add: float_defs round_double_zero round_double_normal [where k = 600])
  have c2: "representable (Finite (- 1 / 2 ^ 600))"
    by (simp add: float_defs round_double_normal [where k = "- 600"])
  have c3: "compute_score_trace [Finite (- 1 / 2 ^ 600)] (Finite 0) (Finite (2 ^ 600)) = [NegZero]"
    by (simp add: float_defs round_double_normal [where k = "- 600"]
          round_double_normal [where k = "- 594"] round_double_normal [where k = 600]
          round_double_subnormal)
  have rest: "is_finite (Finite (- 23 / 4))" "is_finite double_6_81"
    "\<not> f64_eq double_6_81 (Finite (- 23 / 4))"
    "\<not> f64_eq (Finite (7036874417766399 / 70368744177664)) (Finite 100)"
    "f64_less (Finite (- 5)) (Finite (- 2))" "f64_less (Finite (- 2)) below_minus_2"
    "\<not> f64_less (Finite 100) (Finite 100)"
    "f64_less (Finite 0) (Finite (2 ^ 600))" "f64_less (Finite (- 1 / 2 ^ 600)) (Finite 0)"
    "\<not> f64_less NegZero (Finite 0)"
    "\<not> f64_eq (Infinite False) (Infinite True)" "f64_eq (Infinite True) (Infinite True)"
    "compute_score_trace [Infinite True, Finite 1] (Infinite True) (Infinite False) = [NaN, NaN]"
    "\<not> f64_eq NaN (Finite 0)"
    by (simp_all add: float_defs)
  from a1 a2 a3 a4 b1 b2 b3 c1 c2 c3 rest show ?thesis by blast
qed

text \<open>
  C5, amended: for finite doubles \<open>baseline\<close> and \<open>optimal\<close> that differ,
  \<open>compute_score_trace\<close> returns a sequence of the length of its input whose element \<open>i\<close>
  is \<open>100 * (trace[i] - baseline) / (optimal - baseline)\<close> evaluated in binary64, each
  operation rounded; for baseline 0 and optimal 100 the trace \<open>[0, 50, 100, 150]\<close> maps to
  itself, for baseline 100 and optimal 0 the trace \<open>[100, 50, 0]\<close> maps to
  \<open>[-0.0, 50, 100]\<close>, which compares equal to \<open>[0, 50, 100]\<close>; a value equal to the
  baseline scores zero. When \<open>optimal - baseline\<close> rounds to a normal double of magnitude
  at most \<open>2 ^ 1017\<close>: a value equal to the optimum scores within \<open>2 ^ (- 45)\<close> of 100, a
  value beyond the optimum (on the side away from the baseline, \<open>inf\<close> included) scores at
  least \<open>100 - 2 ^ (- 45)\<close>, and a value worse than the baseline (on the side away from
  the optimum) scores at most 0.
\<close>

theorem C5_compute_score_trace:
  assumes "is_finite baseline" and "is_finite optimal"
    and "representable baseline" and "representable optimal"
    and "\<not> f64_eq optimal baseline"
  shows "length (compute_score_trace tr baseline optimal) = length tr
    \<and> (\<forall>i<length tr.
          compute_score_trace tr baseline optimal ! i
          = fdiv (fmul (Finite 100) (fsub (tr ! i) baseline)) (fsub optimal baseline))
    \<and> compute_score_trace [Finite 0, Finite 50, Finite 100, Finite 150] (Finite 0) (Finite 100)
        = [Finite 0, Finite 50, Finite 100, Finite 150]
    \<and> compute_score_trace [Finite 100, Finite 50, Finite 0] (Finite 100) (Finite 0)
        = [NegZero, Finite 50, Finite 100]
    \<and> (\<forall>i<length tr. f64_eq (tr ! i) baseline \<longrightarrow>
          f64_eq (compute_score_trace tr baseline optimal ! i) (Finite 0))
    \<and> (ordinary_range (fsub optimal baseline) \<longrightarrow>
         (\<forall>i<length tr. f64_eq (tr ! i) optimal \<longrightarrow>
            f64_le (Finite (100 - pow2 (- 45))) (compute_score_trace tr baseline optimal ! i)
            \<and> f64_le (compute_score_trace tr baseline optimal ! i) (Finite (100 + pow2 (- 45))))
       \<and> (\<forall>i<length tr.
            (if f64_less baseline optimal then f64_less optimal (tr ! i)
             else f64_less (tr ! i) optimal) \<longrightarrow>
            f64_le (Finite (100 - pow2 (- 45))) (compute_score_trace tr baseline optimal ! i))
       \<and> (\<forall>i<length tr.
            (if f64_less baseline optimal then f64_less (tr ! i) baseline
             else f64_less baseline (tr ! i)) \<longrightarrow>
            f64_le (compute_score_trace tr baseline optimal ! i) (Finite 0)))"
proof -
  let ?s = "finite_value optimal < finite_value baseline"
  let ?d = "\<bar>finite_value optimal - finite_value baseline\<bar>"
  let ?D = "round_value ?d"
  have len: "length (compute_score_trace tr baseline optimal) = length tr"
    by (simp add: compute_score_trace_def)
  have nth: "compute_score_trace tr baseline optimal ! i
      = fdiv (fmul (Finite 100) (fsub (tr ! i) baseline)) (fsub optimal baseline)"
    if "i < length tr" for i
    using that by (simp add: compute_score_trace_def)
  have ne: "finite_value optimal \<noteq> finite_value baseline"
    using assms(1,2,5) by (cases optimal; cases baseline) simp_all
  have less: "f64_less baseline optimal = (\<not> ?s)"
    using ne f64_less_finite [OF assms(1,2)] by auto
  have sub: "fsub optimal baseline = round_double ?s ?d"
    using assms(2,1) ne by (rule fsub_finite)
  have base: "f64_eq (compute_score_trace tr baseline optimal ! i) (Finite 0)"
    if "i < length tr" and "f64_eq (tr ! i) baseline" for i
  proof -
    have "is_finite (tr ! i) \<and> finite_value (tr ! i) = finite_value baseline"
      using assms(1) that(2) by (rule f64_eq_finite)
    then have "fsub (tr ! i) baseline = Finite 0 \<or> fsub (tr ! i) baseline = NegZero"
      using assms(1) by (intro fsub_equal) simp_all
    then show ?thesis unfolding nth [OF that(1)]
      using fsub_nonzero [OF assms(2,1,4,3) ne] by (rule score_of_baseline)
  qed
  have ord: "(f64_eq (tr ! i) optimal \<longrightarrow>
            f64_le (Finite (100 - pow2 (- 45))) (compute_score_trace tr baseline optimal ! i)
            \<and> f64_le (compute_score_trace tr baseline optimal ! i) (Finite (100 + pow2 (- 45))))
       \<and> ((if f64_less baseline optimal then f64_less optimal (tr ! i)
             else f64_less (tr ! i) optimal) \<longrightarrow>
            f64_le (Finite (100 - pow2 (- 45))) (compute_score_trace tr baseline optimal ! i))
       \<and> ((if f64_less baseline optimal then f64_less (tr ! i) baseline
             else f64_less baseline (tr ! i)) \<longrightarrow>
            f64_le (compute_score_trace tr baseline optimal ! i) (Finite 0))"
    if i: "i < length tr" and o: "ordinary_range (fsub optimal baseline)" for i
  proof -
    have D0: "0 \<le> ?D" by (intro round_value_nonneg) simp
    have "is_finite (round_double ?s ?d)" using o by (simp add: ordinary_range_def sub)
    then have rd: "round_double ?s ?d = signed ?s ?D"
      using round_double_cases [of ?s ?d] by auto
    have "\<bar>finite_value (signed ?s ?D)\<bar> = ?D" using D0 by (rule abs_value_signed)
    then have lo: "pow2 (- 1022) \<le> ?D" and hi: "?D \<le> pow2 1017"
      using o by (simp_all add: ordinary_range_def sub rd del: power_int_numeral)
    have Dpos: "0 < ?D" using lo p2_pos [of "- 1022"] by linarith
    have eq: "f64_le (Finite (100 - pow2 (- 45))) (compute_score_trace tr baseline optimal ! i)
            \<and> f64_le (compute_score_trace tr baseline optimal ! i) (Finite (100 + pow2 (- 45)))"
      if "f64_eq (tr ! i) optimal"
    proof -
      have f: "is_finite (tr ! i)" and v: "finite_value (tr ! i) = finite_value optimal"
        using f64_eq_finite [OF assms(2) that] by simp_all
      have "fsub (tr ! i) baseline = round_double ?s ?d"
        using fsub_finite [OF f assms(1)] ne by (simp add: v)
      then show ?thesis unfolding nth [OF i] sub rd using score_equal [OF lo hi] by simp
    qed
    have beyond: "f64_le (Finite (100 - pow2 (- 45))) (compute_score_trace tr baseline optimal ! i)"
      if "if f64_less baseline optimal then f64_less optimal (tr ! i)
          else f64_less (tr ! i) optimal"
    proof -
      have a: "if ?s then finite_value optimal < finite_value baseline
               else finite_value baseline < finite_value optimal"
        using ne by auto
      have b: "if ?s then f64_less (tr ! i) optimal else f64_less optimal (tr ! i)"
        using that by (simp add: less)
      from beyond_side [OF assms(1,2) a b]
      consider (inf) "fsub (tr ! i) baseline = Infinite ?s"
        | (fin) dx where "fsub (tr ! i) baseline = round_double ?s dx" "?d \<le> dx"
        by blast
      then show ?thesis
      proof cases
        case inf
        have "compute_score_trace tr baseline optimal ! i
            = fdiv (fmul (Finite 100) (Infinite ?s)) (signed ?s ?D)"
          by (simp only: nth [OF i] sub rd inf)
        also have "\<dots> = Infinite (?s \<noteq> ?s)" by (rule score_infinite [OF Dpos])
        finally show ?thesis by (simp add: f64_le_infinite)
      next
        case fin
        have "0 \<le> ?d" by simp
        from score_beyond [OF refl lo hi this fin(2)]
        show ?thesis unfolding nth [OF i] sub rd fin(1) .
      qed
    qed
    have worse: "f64_le (compute_score_trace tr baseline optimal ! i) (Finite 0)"
      if "if f64_less baseline optimal then f64_less (tr ! i) baseline
          else f64_less baseline (tr ! i)"
    proof -
      have "if \<not> ?s then f64_less (tr ! i) baseline else f64_less baseline (tr ! i)"
        using that by (simp add: less)
      from fsub_side [OF assms(1) this]
      consider (inf) "fsub (tr ! i) baseline = Infinite (\<not> ?s)"
        | (fin) "fsub (tr ! i) baseline
                 = round_double (\<not> ?s) \<bar>finite_value (tr ! i) - finite_value baseline\<bar>"
        by blast
      then show ?thesis
      proof cases
        case inf
        have "compute_score_trace tr baseline optimal ! i
            = fdiv (fmul (Finite 100) (Infinite (\<not> ?s))) (signed ?s ?D)"
          by (simp only: nth [OF i] sub rd inf)
        also have "\<dots> = Infinite ((\<not> ?s) \<noteq> ?s)" by (rule score_infinite [OF Dpos])
        finally show ?thesis by (simp add: f64_le_neg_infinite)
      next
        case fin
        have "0 \<le> \<bar>finite_value (tr ! i) - finite_value baseline\<bar>" by simp
        from score_worse [OF Dpos this]
        show ?thesis unfolding nth [OF i] sub rd fin .
      qed
    qed
    from eq beyond worse show ?thesis by blast
  qed
  from len nth score_examples base ord show ?thesis by blast
qed

theorem C5_compute_score_trace_witness:
  "is_finite (Finite 0) \<and> is_finite (Finite 100)
   \<and> representable (Finite 0) \<and> representable (Finite 100)
   \<and> \<not> f64_eq (Finite 100) (Finite 0)
   \<and> ordinary_range (fsub (Finite 100) (Finite 0))
   \<and> length (compute_score_trace [Finite 0, Finite 50, Finite 100, Finite 150, Finite (- 20)]
               (Finite 0) (Finite 100)) = 5
   \<and> compute_score_trace [Finite 0, Finite 50, Finite 100, Finite 150, Finite (- 20)]
        (Finite 0) (Finite 100) ! 1
      = fdiv (fmul (Finite 100) (fsub (Finite 50) (Finite 0))) (fsub (Finite 100) (Finite 0))
   \<and> f64_eq (compute_score_trace [Finite 0, Finite 50, Finite 100, Finite 150, Finite (- 20)]
               (Finite 0) (Finite 100) ! 0) (Finite 0)
   \<and> f64_le (Finite (100 - pow2 (- 45)))
        (compute_score_trace [Finite 0, Finite 50, Finite 100, Finite 150, Finite (- 20)]
           (Finite 0) (Finite 100) ! 2)
   \<and> f64_le (compute_score_trace [Finite 0, Finite 50, Finite 100, Finite 150, Finite (- 20)]
               (Finite 0) (Finite 100) ! 2) (Finite (100 + pow2 (- 45)))
   \<and> f64_le (Finite (100 - pow2 (- 45)))
        (compute_score_trace [Finite 0, Finite 50, Finite 100, Finite 150, Finite (- 20)]
           (Finite 0) (Finite 100) ! 3)
   \<and> f64_le (compute_score_trace [Finite 0, Finite 50, Finite 100, Finite 150, Finite (- 20)]
               (Finite 0) (Finite 100) ! 4) (Finite 0)"
proof -
  let ?tr = "[Finite 0, Finite 50, Finite 100, Finite 150, Finite (- 20)]"
  have h1: "is_finite (Finite 0)" and h2: "is_finite (Finite 100)" by simp_all
  have h3: "representable (Finite 0)" and h4: "representable (Finite 100)"
    by (simp_all add: float64_of_real_def round_double_zero round_double_numeral signed_def)
  have h5: "\<not> f64_eq (Finite 100) (Finite 0)" by simp
  have "fsub (Finite 100) (Finite 0) = Finite 100"
    by (simp add: round_double_numeral signed_def)
  then have h6: "ordinary_range (fsub (Finite 100) (Finite 0))"
    by (simp add: ordinary_range_def)
  note t = C5_compute_score_trace [OF h1 h2 h3 h4 h5, of ?tr]
  have i0: "0 < length ?tr \<and> f64_eq (?tr ! 0) (Finite 0)" by simp
  have i1: "1 < length ?tr \<and> ?tr ! 1 = Finite 50" by simp
  have i2: "2 < length ?tr \<and> f64_eq (?tr ! 2) (Finite 100)" by simp
  have i3: "3 < length ?tr
     \<and> (if f64_less (Finite 0) (Finite 100) then f64_less (Finite 100) (?tr ! 3)
         else f64_less (?tr ! 3) (Finite 100))" by simp
  have i4: "4 < length ?tr
     \<and> (if f64_less (Finite 0) (Finite 100) then f64_less (?tr ! 4) (Finite 0)
         else f64_less (Finite 0) (?tr ! 4))" by simp
  have len: "length (compute_score_trace ?tr (Finite 0) (Finite 100)) = 5" using t by simp
  have n1: "compute_score_trace ?tr (Finite 0) (Finite 100) ! 1
      = fdiv (fmul (Finite 100) (fsub (Finite 50) (Finite 0))) (fsub (Finite 100) (Finite 0))"
    using t i1 by metis
  have n0: "f64_eq (compute_score_trace ?tr (Finite 0) (Finite 100) ! 0) (Finite 0)"
    using t i0 by blast
  have n2: "f64_le (Finite (100 - pow2 (- 45))) (compute_score_trace ?tr (Finite 0) (Finite 100) ! 2)
     \<and> f64_le (compute_score_trace ?tr (Finite 0) (Finite 100) ! 2) (Finite (100 + pow2 (- 45)))"
    using t h6 i2 by blast
  have n3: "f64_le (Finite (100 - pow2 (- 45))) (compute_score_trace ?tr (Finite 0) (Finite 100) ! 3)"
    using t h6 i3 by blast
  have n4: "f64_le (compute_score_trace ?tr (Finite 0) (Finite 100) ! 4) (Finite 0)"
    using t h6 i4 by blast
  from h1 h2 h3 h4 h5 h6 len n1 n0 n2 n3 n4 show ?thesis by blast
qed

subsection \<open>Scheduler options\<close>

text \<open>
  C8, as stated: the batched trial type is chosen if and only if the batch size is greater
  than 1 or the status quo is included. It fails for a method whose batch size is unset:
  the guard \<open>method.batch_size is None\<close> selects the batched type too.
\<close>

theorem C8_trial_type_counterexample:
  "\<not> (so_trial_type (get_benchmark_scheduler_options unbatched_method False 20) = BATCH_TRIAL
        \<longleftrightarrow> (case batch_size unbatched_method of Some b \<Rightarrow> 1 < b | None \<Rightarrow> False) \<or> False)"
  by (simp add: get_benchmark_scheduler_options_def unbatched_method_def)

text \<open>
  C8, amended: for every method and every include-status-quo flag, the scheduler options
  use the batched trial type if and only if the method's batch size is unset, or greater
  than 1, or the status quo is included, and the sequential trial type otherwise.
\<close>

theorem C8_trial_type:
  "(so_trial_type (get_benchmark_scheduler_options method include_sq logging_level) = BATCH_TRIAL
      \<longleftrightarrow> batch_size method = None \<or> (\<exists>b. batch_size method = Some b \<and> 1 < b) \<or> include_sq)
   \<and> (so_trial_type (get_benchmark_scheduler_options method include_sq logging_level) = TRIAL
      \<longleftrightarrow> (\<exists>b. batch_size method = Some b \<and> b \<le> 1) \<and> include_sq = False)"
  by (cases "batch_size method") (auto simp: get_benchmark_scheduler_options_def)

theorem C8_trial_type_witness:
  "so_trial_type (get_benchmark_scheduler_options sequential_method False 20) = TRIAL
   \<and> so_trial_type (get_benchmark_scheduler_options sequential_method True 20) = BATCH_TRIAL
   \<and> so_trial_type (get_benchmark_scheduler_options unbatched_method False 20) = BATCH_TRIAL"
  using C8_trial_type [of sequential_method False 20] C8_trial_type [of sequential_method True 20]
    C8_trial_type [of unbatched_method False 20]
  by (simp add: sequential_method_def unbatched_method_def)

subsection \<open>Cost accumulator\<close>



subsection \<open>Oracle evaluator\<close>

lemma map_of_fold_update:
  "map_of (fold (\<lambda>(k, v). AList.update k v) b a) k =
     (case map_of (rev b) k of Some v \<Rightarrow> Some v | None \<Rightarrow> map_of a k)"
proof (induction b arbitrary: a)
  case Nil
  then show ?case by simp
next
  case (Cons kv b)
  obtain k' v' where kv: "kv = (k', v')" by (cases kv)
  show ?case
    by (simp add: kv Cons.IH update_conv' map_add_def split: option.splits)
qed

lemma map_of_rev_distinct:
  "distinct (map fst b) \<Longrightarrow> map_of (rev b) k = map_of b k"
proof (induction b)
  case Nil
  then show ?case by simp
next
  case (Cons kv b)
  obtain k' v' where kv: "kv = (k', v')" by (cases kv)
  from Cons.prems have fresh: "map_of b k' = None"
    by (simp add: kv map_of_eq_None_iff)
  from Cons.prems have "distinct (map fst b)" by simp
  then have ih: "map_of (rev b) k = map_of b k" by (rule Cons.IH)
  show ?case
    using fresh ih by (simp add: kv map_add_def split: option.splits)
qed

lemma map_of_dict_merge:
  assumes "distinct (map fst b)"
  shows "map_of (dict_merge a b) k = (case map_of b k of Some v \<Rightarrow> Some v | None \<Rightarrow> map_of a k)"
  using assms by (simp add: dict_merge_def map_of_fold_update map_of_rev_distinct)

lemma update_snoc:
  "k \<notin> fst ` set xs \<Longrightarrow> AList.update k v' (xs @ [(k, v)]) = xs @ [(k, v')]"
  by (induction xs) auto

lemma map_of_snoc:
  "k \<notin> fst ` set xs \<Longrightarrow> map_of (xs @ [(k, v)]) k = Some v"
  by (induction xs) auto

lemma keys_upto_fresh:
  assumes a: "map fst xs = map int [0..<n]"
  shows "int n \<notin> fst ` set xs \<and> length xs = n"
proof -
  from a have "length (map fst xs) = length (map int [0..<n])" by simp
  then have l: "length xs = n" by simp
  have "fst ` set xs = set (map fst xs)" by simp
  also have "\<dots> = int ` {0..<n}" using a by simp
  finally show ?thesis using l by auto
qed
lemma loop_step_nonempty:
  assumes keys: "map fst (exp_trials e) = map int [0..<n]" and ne: "m \<noteq> []"
  shows "attach_and_run_trials run problem rn e ((int n, m) # rest) =
           attach_and_run_trials run problem rn
             (e \<lparr> exp_trials := exp_trials e @ [(int n, oracle_trial run problem rn m)] \<rparr>) rest"
proof -
  from keys_upto_fresh [OF keys] have fresh: "int n \<notin> fst ` set (exp_trials e)"
    and len: "length (exp_trials e) = n" by simp_all
  show ?thesis
    using ne fresh
    by (simp add: attach_trial_def trials_lookup_def len map_of_snoc update_snoc
        oracle_trial_def Let_def del: map_of_append)
qed

lemma loop_closed_form:
  assumes "map fst (exp_trials e) = map int [0..<n]"
      and "map fst d = map int [n..<n + length d]"
  shows "attach_and_run_trials run problem rn e d =
     (let pre = takeWhile (\<lambda>(i, m). m \<noteq> []) d;
          e' = e \<lparr> exp_trials := exp_trials e @ map (\<lambda>(i, m). (i, oracle_trial run problem rn m)) pre \<rparr>
      in if pre = d then Inr e' else Inl (ValueError_no_arms, e'))"
  using assms
proof (induction d arbitrary: e n)
  case Nil
  then show ?case by simp
next
  case (Cons im rest)
  obtain i m where im: "im = (i, m)" by (cases im)
  have "[n..<n + length (im # rest)] = n # [Suc n..<Suc n + length rest]"
    by (simp add: upt_conv_Cons del: upt_Suc)
  with Cons.prems(2) have i: "i = int n" and rest: "map fst rest = map int [Suc n..<Suc n + length rest]"
    by (simp_all add: im del: upt_Suc)
  show ?case
  proof (cases "m = []")
    case True
    then show ?thesis by (simp add: im)
  next
    case False
    let ?e2 = "e \<lparr> exp_trials := exp_trials e @ [(int n, oracle_trial run problem rn m)] \<rparr>"
    have k2: "map fst (exp_trials ?e2) = map int [0..<Suc n]"
      using Cons.prems(1) by simp
    have "attach_and_run_trials run problem rn e (im # rest)
            = attach_and_run_trials run problem rn ?e2 rest"
      unfolding im i by (rule loop_step_nonempty [OF Cons.prems(1) False])
    also note Cons.IH [OF k2 rest]
    finally show ?thesis
      using False by (simp add: im i Let_def)
  qed
qed

lemma oracle_trial_props:
  "trial_status (oracle_trial run problem rn m) = COMPLETED"
  "map arm_name (trial_arms (oracle_trial run problem rn m)) = map fst m"
  "map arm_parameters (trial_arms (oracle_trial run problem rn m))
     = map (\<lambda>(arm, p). dict_merge p (target_fidelity_and_task problem)) m"
  "trial_run_metadata (oracle_trial run problem rn m)
     = dict_merge [] (run rn (new_trial
          (map (\<lambda>(arm, p). dict_merge p (target_fidelity_and_task problem)) m) (map fst m)))"
  by (simp_all add: oracle_trial_def Let_def mark_completed_def update_run_metadata_def
      new_trial_def zip_map_fst_snd map_idI split_def comp_def zip_map1 zip_map2 zip_same_conv_map)

text \<open>
  C7, as stated, for every call. It fails for a request whose keys are not the indices the
  experiment assigns: the first mapping is attached as trial 0, \<open>experiment.trials[1]\<close>
  raises \<open>KeyError\<close>, the attached trial is neither run nor completed, and the empty
  mapping behind it is never reached, so the call does not fail with the invalid-input
  error.
\<close>

theorem C7_oracle_experiment_counterexample:
  "(0, []) \<in> set request_shifted_keys
   \<and> map_sum fst id
         (fst (get_oracle_experiment_from_params count_arms_run sample_problem
                 request_shifted_keys 20))
       = Inl KeyError
   \<and> map_sum (\<lambda>(err, experiment). map (\<lambda>(i, trial). (i, trial_status trial = COMPLETED))
                                        (exp_trials experiment)) id
         (fst (get_oracle_experiment_from_params count_arms_run sample_problem
                 request_shifted_keys 20))
       = Inl [(0, False)]"
  by (simp add: request_shifted_keys_def get_oracle_experiment_from_params_def sample_problem_def
      attach_trial_def new_trial_def trials_lookup_def dict_merge_def Let_def)

text \<open>
  C7, amended: for every call whose keys are the trial indices \<open>0, 1, 2, ...\<close> in order (as
  both callers in the module pass them; the target parameters, the items of a \<open>dict\<close>,
  have distinct names): if some mapping is empty, the call fails with the invalid-input error,
  raised at the first empty mapping, and the experiment then holds exactly the trials of
  the mappings before it; otherwise it returns the experiment with one trial for each
  mapping. Every trial it holds is completed, has one arm for each arm name whose
  parameters are the arm's merged with, and overridden by, the target fidelity and task
  parameters, and carries the metadata of a run with a runner whose noise is zero.
\<close>

theorem C7_oracle_experiment:
  assumes keys: "map fst d = map int [0..<length d]"
      and target: "distinct (map fst (target_fidelity_and_task problem))"
  shows "\<exists>e. fst (get_oracle_experiment_from_params run problem d logger_level)
               = (if \<exists>(i, m) \<in> set d. m = [] then Inl (ValueError_no_arms, e) else Inr e)
           \<and> map fst (exp_trials e) = map fst (takeWhile (\<lambda>(i, m). m \<noteq> []) d)
           \<and> (\<forall>j < length (exp_trials e).
                 trial_status (snd (exp_trials e ! j)) = COMPLETED
               \<and> map arm_name (trial_arms (snd (exp_trials e ! j))) = map fst (snd (d ! j))
               \<and> map arm_parameters (trial_arms (snd (exp_trials e ! j)))
                   = map (\<lambda>(arm, p). dict_merge p (target_fidelity_and_task problem)) (snd (d ! j))
               \<and> trial_run_metadata (snd (exp_trials e ! j))
                   = dict_merge []
                       (run (BenchmarkRunner_init (problem_test_function problem) 0 None 1)
                          (new_trial (map (\<lambda>(arm, p). dict_merge p (target_fidelity_and_task problem))
                                        (snd (d ! j)))
                             (map fst (snd (d ! j))))))
           \<and> noise_std (BenchmarkRunner_init (problem_test_function problem) 0 None 1) = 0
           \<and> (\<forall>p k. map_of (dict_merge p (target_fidelity_and_task problem)) k
                  = (case map_of (target_fidelity_and_task problem) k of
                       Some v \<Rightarrow> Some v | None \<Rightarrow> map_of p k))"
proof -
  let ?rn = "BenchmarkRunner_init (problem_test_function problem) 0 None 1"
  let ?init = "\<lparr> exp_search_space = search_space problem,
               exp_optimization_config = optimization_config problem,
               exp_runner = None, exp_status_quo = None, exp_trials = [] \<rparr>"
  let ?pre = "takeWhile (\<lambda>(i, m). m \<noteq> []) d"
  let ?e = "?init \<lparr> exp_trials := map (\<lambda>(i, m). (i, oracle_trial run problem ?rn m)) ?pre \<rparr>"
  have k0: "map fst (exp_trials ?init) = map int [0..<0]" by simp
  have kd: "map fst d = map int [0..<0 + length d]" using keys by simp
  have all: "(?pre = d) = (\<not> (\<exists>(i, m) \<in> set d. m = []))"
    unfolding takeWhile_eq_all_conv by (simp add: split_def)
  have loop: "attach_and_run_trials run problem ?rn ?init d
                = (if ?pre = d then Inr ?e else Inl (ValueError_no_arms, ?e))"
    using loop_closed_form [OF k0 kd, of run problem ?rn] by (simp add: Let_def)
  have res: "fst (get_oracle_experiment_from_params run problem d logger_level)
               = (if \<exists>(i, m) \<in> set d. m = [] then Inl (ValueError_no_arms, ?e) else Inr ?e)"
    unfolding get_oracle_experiment_from_params_def Let_def loop all
    by (simp del: split_paired_Ex)
  have ks: "map fst (exp_trials ?e) = map fst ?pre"
    by (simp add: split_def comp_def)
  have tr: "snd (exp_trials ?e ! j) = oracle_trial run problem ?rn (snd (d ! j))"
    if "j < length (exp_trials ?e)" for j
  proof -
    have et: "exp_trials ?e = map (\<lambda>(i, m). (i, oracle_trial run problem ?rn m)) ?pre"
      by simp
    from that have j: "j < length ?pre"
      unfolding et length_map .
    then have nth: "?pre ! j = d ! j" by (rule takeWhile_nth)
    have "exp_trials ?e ! j = (\<lambda>(i, m). (i, oracle_trial run problem ?rn m)) (?pre ! j)"
      unfolding et using j by (rule nth_map)
    then show ?thesis
      unfolding nth by (simp only: split_def snd_conv)
  qed
  have props: "trial_status (snd (exp_trials ?e ! j)) = COMPLETED
               \<and> map arm_name (trial_arms (snd (exp_trials ?e ! j))) = map fst (snd (d ! j))
               \<and> map arm_parameters (trial_arms (snd (exp_trials ?e ! j)))
                   = map (\<lambda>(arm, p). dict_merge p (target_fidelity_and_task problem)) (snd (d ! j))
               \<and> trial_run_metadata (snd (exp_trials ?e ! j))
                   = dict_merge []
                       (run ?rn
                          (new_trial (map (\<lambda>(arm, p). dict_merge p (target_fidelity_and_task problem))
                                        (snd (d ! j)))
                             (map fst (snd (d ! j)))))"
    if "j < length (exp_trials ?e)" for j
    unfolding tr [OF that] by (intro conjI oracle_trial_props)
  have noise: "noise_std ?rn = 0" by (simp add: BenchmarkRunner_init_def)
  have merge: "map_of (dict_merge p (target_fidelity_and_task problem)) k
                  = (case map_of (target_fidelity_and_task problem) k of
                       Some v \<Rightarrow> Some v | None \<Rightarrow> map_of p k)" for p k
    by (rule map_of_dict_merge [OF target])
  show ?thesis
    apply (rule exI [of _ ?e])
    apply (intro conjI allI impI)
    apply (rule res)
    apply (rule ks)
    apply (simp_all only: props noise merge)
    done
qed

theorem C7_oracle_experiment_witness:
  "map fst request_with_empty_trial = map int [0..<length request_with_empty_trial]
   \<and> distinct (map fst (target_fidelity_and_task fidelity_problem))
   \<and> (\<exists>e. fst (get_oracle_experiment_from_params count_arms_run fidelity_problem
                  request_with_empty_trial 20) = Inl (ValueError_no_arms, e)
          \<and> map fst (exp_trials e) = [0]
          \<and> trial_status (snd (exp_trials e ! 0)) = COMPLETED
          \<and> map arm_name (trial_arms (snd (exp_trials e ! 0))) = [''0_0'']
          \<and> map arm_parameters (trial_arms (snd (exp_trials e ! 0)))
              = [[(''x'', PFloat 0), (''fidelity'', PFloat 1)]])
   \<and> map fst request_two_trials = map int [0..<length request_two_trials]
   \<and> distinct (map fst (target_fidelity_and_task sample_problem))
   \<and> (\<exists>e. fst (get_oracle_experiment_from_params count_arms_run sample_problem
                  request_two_trials 20) = Inr e
          \<and> map fst (exp_trials e) = [0, 1]
          \<and> trial_status (snd (exp_trials e ! 1)) = COMPLETED
          \<and> trial_run_metadata (snd (exp_trials e ! 0)) = [(''n_arms'', 2), (''noise_std'', 0)])"
proof -
  have k1: "map fst request_with_empty_trial = map int [0..<length request_with_empty_trial]"
    by (simp add: request_with_empty_trial_def upt_rec)
  have t1: "distinct (map fst (target_fidelity_and_task fidelity_problem))"
    by (simp add: fidelity_problem_def sample_problem_def)
  have k2: "map fst request_two_trials = map int [0..<length request_two_trials]"
    by (simp add: request_two_trials_def upt_rec)
  have t2: "distinct (map fst (target_fidelity_and_task sample_problem))"
    by (simp add: sample_problem_def)
  from C7_oracle_experiment [OF k1 t1, of count_arms_run 20]
  obtain e1 where e1:
    "fst (get_oracle_experiment_from_params count_arms_run fidelity_problem
            request_with_empty_trial 20)
       = (if \<exists>(i, m) \<in> set request_with_empty_trial. m = []
          then Inl (ValueError_no_arms, e1) else Inr e1)"
    "map fst (exp_trials e1)
       = map fst (takeWhile (\<lambda>(i, m). m \<noteq> []) request_with_empty_trial)"
    "\<forall>j < length (exp_trials e1).
        trial_status (snd (exp_trials e1 ! j)) = COMPLETED
      \<and> map arm_name (trial_arms (snd (exp_trials e1 ! j)))
          = map fst (snd (request_with_empty_trial ! j))
      \<and> map arm_parameters (trial_arms (snd (exp_trials e1 ! j)))
          = map (\<lambda>(arm, p). dict_merge p (target_fidelity_and_task fidelity_problem))
              (snd (request_with_empty_trial ! j))
      \<and> trial_run_metadata (snd (exp_trials e1 ! j))
          = dict_merge []
              (count_arms_run (BenchmarkRunner_init (problem_test_function fidelity_problem) 0 None 1)
                 (new_trial (map (\<lambda>(arm, p). dict_merge p (target_fidelity_and_task fidelity_problem))
                               (snd (request_with_empty_trial ! j)))
                    (map fst (snd (request_with_empty_trial ! j)))))"
    by blast
  from e1(2) have l1: "length (exp_trials e1) = 1"
    by (simp add: request_with_empty_trial_def flip: length_map [where f = fst])
  have w1: "fst (get_oracle_experiment_from_params count_arms_run fidelity_problem
                  request_with_empty_trial 20) = Inl (ValueError_no_arms, e1)
          \<and> map fst (exp_trials e1) = [0]
          \<and> trial_status (snd (exp_trials e1 ! 0)) = COMPLETED
          \<and> map arm_name (trial_arms (snd (exp_trials e1 ! 0))) = [''0_0'']
          \<and> map arm_parameters (trial_arms (snd (exp_trials e1 ! 0)))
              = [[(''x'', PFloat 0), (''fidelity'', PFloat 1)]]"
    using e1(1,2) e1(3) [rule_format, of 0] l1
    by (simp add: request_with_empty_trial_def fidelity_problem_def sample_problem_def
        dict_merge_def)
  from C7_oracle_experiment [OF k2 t2, of count_arms_run 20]
  obtain e2 where e2:
    "fst (get_oracle_experiment_from_params count_arms_run sample_problem request_two_trials 20)
       = (if \<exists>(i, m) \<in> set request_two_trials. m = []
          then Inl (ValueError_no_arms, e2) else Inr e2)"
    "map fst (exp_trials e2) = map fst (takeWhile (\<lambda>(i, m). m \<noteq> []) request_two_trials)"
    "\<forall>j < length (exp_trials e2).
        trial_status (snd (exp_trials e2 ! j)) = COMPLETED
      \<and> map arm_name (trial_arms (snd (exp_trials e2 ! j)))
          = map fst (snd (request_two_trials ! j))
      \<and> map arm_parameters (trial_arms (snd (exp_trials e2 ! j)))
          = map (\<lambda>(arm, p). dict_merge p (target_fidelity_and_task sample_problem))
              (snd (request_two_trials ! j))
      \<and> trial_run_metadata (snd (exp_trials e2 ! j))
          = dict_merge []
              (count_arms_run (BenchmarkRunner_init (problem_test_function sample_problem) 0 None 1)
                 (new_trial (map (\<lambda>(arm, p). dict_merge p (target_fidelity_and_task sample_problem))
                               (snd (request_two_trials ! j)))
                    (map fst (snd (request_two_trials ! j)))))"
    by blast
  from e2(2) have l2: "length (exp_trials e2) = 2"
    by (simp add: request_two_trials_def flip: length_map [where f = fst])
  have w2: "fst (get_oracle_experiment_from_params count_arms_run sample_problem
                  request_two_trials 20) = Inr e2
          \<and> map fst (exp_trials e2) = [0, 1]
          \<and> trial_status (snd (exp_trials e2 ! 1)) = COMPLETED
          \<and> trial_run_metadata (snd (exp_trials e2 ! 0)) = [(''n_arms'', 2), (''noise_std'', 0)]"
    using e2(1,2) e2(3) [rule_format, of 0] e2(3) [rule_format, of 1] l2
    by (simp add: request_two_trials_def sample_problem_def dict_merge_def count_arms_run_def
        new_trial_def BenchmarkRunner_init_def)
  have x1: "\<exists>e. fst (get_oracle_experiment_from_params count_arms_run fidelity_problem
                  request_with_empty_trial 20) = Inl (ValueError_no_arms, e)
          \<and> map fst (exp_trials e) = [0]
          \<and> trial_status (snd (exp_trials e ! 0)) = COMPLETED
          \<and> map arm_name (trial_arms (snd (exp_trials e ! 0))) = [''0_0'']
          \<and> map arm_parameters (trial_arms (snd (exp_trials e ! 0)))
              = [[(''x'', PFloat 0), (''fidelity'', PFloat 1)]]"
    by (rule exI [where x = e1]) (rule w1)
  have x2: "\<exists>e. fst (get_oracle_experiment_from_params count_arms_run sample_problem
                  request_two_trials 20) = Inr e
          \<and> map fst (exp_trials e) = [0, 1]
          \<and> trial_status (snd (exp_trials e ! 1)) = COMPLETED
          \<and> trial_run_metadata (snd (exp_trials e ! 0)) = [(''n_arms'', 2), (''noise_std'', 0)]"
    by (rule exI [where x = e2]) (rule w2)
  from k1 t1 x1 k2 t2 x2 show ?thesis by (intro conjI)
qed

text \<open>
  C9. The level of the logger is restored only by the statement after the loop: a call
  that returns leaves the level it found, but the call below, whose only trial has no
  arms, raises and leaves the level at \<open>WARNING\<close> (30) where it was 20 before.
\<close>

theorem C9_logger_level_not_restored:
  "get_oracle_experiment_from_params count_arms_run sample_problem [(0, [])] 20
     = (Inl (ValueError_no_arms,
             \<lparr> exp_search_space = SearchSpace [''x''],
               exp_optimization_config = \<lparr> objective = Objective True \<rparr>,
               exp_runner = None, exp_status_quo = None, exp_trials = [] \<rparr>), 30)"
  by (simp add: get_oracle_experiment_from_params_def sample_problem_def WARNING_def)

subsection \<open>Replication driver\<close>

lemma bookkeeping_Inr:
  assumes "bookkeeping tr problem method st e = Inr st1"
  shows "previously_completed_trial_idcs st1 = currently_completed_trials e"
    and "experiment_now st1 = e"
    and "remaining_hours st1 = remaining_hours st"
    and "newly_completed_trials st e = {} \<Longrightarrow>
           cost_trace st1 = cost_trace st \<and> evaluated_arms_list st1 = evaluated_arms_list st
           \<and> best_params_list st1 = best_params_list st \<and> events st1 = events st
           \<and> cost st1 = cost st"
    and "newly_completed_trials st e \<noteq> {} \<Longrightarrow>
           cost_trace st1 = cost_trace st @ [cost st1]
           \<and> evaluated_arms_list st1
               = evaluated_arms_list st @ [arms_of_trials e (newly_completed_trials st e)]
           \<and> get_cumulative_cost tr (cost st) (newly_completed_trials st e) e = Inr (cost st1)"
    and "newly_completed_trials st e \<noteq> {} \<Longrightarrow> is_moo problem \<or> is_mf_or_mt problem \<Longrightarrow>
           best_params_list st1 = best_params_list st \<and> events st1 = events st"
    and "newly_completed_trials st e \<noteq> {} \<Longrightarrow> \<not> (is_moo problem \<or> is_mf_or_mt problem) \<Longrightarrow>
           get_best_parameters method e (optimization_config problem) (n_best_points problem)
             = [last (best_params_list st1)]
           \<and> best_params_list st1 = best_params_list st @ [last (best_params_list st1)]
           \<and> events st1 = events st @ [GetBestParametersCall]"
  using assms
  by (auto simp: bookkeeping_def newly_completed_trials_def Let_def
      split: if_splits sum.splits list.splits)

lemma check_timeout_fields:
  assumes "check_timeout method start st now = (st2, brk)"
  shows "cost_trace st2 = cost_trace st" and "best_params_list st2 = best_params_list st"
    and "evaluated_arms_list st2 = evaluated_arms_list st"
    and "previously_completed_trial_idcs st2 = previously_completed_trial_idcs st"
    and "cost st2 = cost st" and "experiment_now st2 = experiment_now st"
    and "events st2 = (if brk then events st @ [LogWarning ''The optimization loop timed out.'']
                       else events st)"
    and "brk = (\<exists>t. timeout_hours method = Some t \<and> t - (now - start) / 3600 \<le> 0)"
    and "timeout_hours method = Some t \<Longrightarrow> remaining_hours st2 = Some (t - (now - start) / 3600)"
    and "timeout_hours method = None \<Longrightarrow> remaining_hours st2 = remaining_hours st"
  using assms
  by (auto simp: check_timeout_def Let_def split: option.splits if_splits)

lemma absorbing_tail: "absorbing (e # es) \<Longrightarrow> absorbing es"
  by (cases es) simp_all

lemma absorbing_head:
  "absorbing (e # es) \<Longrightarrow> es \<noteq> [] \<Longrightarrow> currently_completed_trials e \<subseteq> currently_completed_trials (hd es)"
  by (cases es) simp_all

lemma newly_disjoint_aux:
  assumes "absorbing (map step_experiment steps)"
      and "steps \<noteq> [] \<Longrightarrow>
             previously_completed_trial_idcs st
               \<subseteq> currently_completed_trials (step_experiment (hd steps))"
  shows "(\<forall>S \<in> set (newly_completed_per_step tr problem method start st steps).
            S \<inter> previously_completed_trial_idcs st = {})
       \<and> sorted_wrt (\<lambda>A B. A \<inter> B = {}) (newly_completed_per_step tr problem method start st steps)"
  using assms
proof (induction steps arbitrary: st)
  case Nil
  then show ?case by simp
next
  case (Cons s rest)
  let ?cur = "currently_completed_trials (step_experiment s)"
  let ?head = "newly_completed_trials st (step_experiment s)"
  from Cons.prems(2) have sub: "previously_completed_trial_idcs st \<subseteq> ?cur" by simp
  have head: "?head \<inter> previously_completed_trial_idcs st = {}" "?head \<subseteq> ?cur"
    by (auto simp: newly_completed_trials_def)
  show ?case
  proof (cases "bookkeeping tr problem method st (step_experiment s)")
    case (Inl err)
    then show ?thesis using head by simp
  next
    case (Inr st1)
    obtain st2 brk where ct: "check_timeout method start st1 (step_clock s) = (st2, brk)"
      by (cases "check_timeout method start st1 (step_clock s)")
    show ?thesis
    proof (cases brk)
      case True
      then show ?thesis using Inr ct head by simp
    next
      case False
      have prev2: "previously_completed_trial_idcs st2 = ?cur"
        using check_timeout_fields(4) [OF ct] bookkeeping_Inr(1) [OF Inr] by simp
      have abs: "absorbing (map step_experiment rest)"
        using Cons.prems(1) by (auto dest: absorbing_tail)
      have hd: "rest \<noteq> [] \<Longrightarrow>
                  previously_completed_trial_idcs st2
                    \<subseteq> currently_completed_trials (step_experiment (hd rest))"
        using Cons.prems(1) prev2 by (cases rest) simp_all
      from Cons.IH [OF abs hd]
      have ih: "\<forall>S \<in> set (newly_completed_per_step tr problem method start st2 rest). S \<inter> ?cur = {}"
        "sorted_wrt (\<lambda>A B. A \<inter> B = {}) (newly_completed_per_step tr problem method start st2 rest)"
        by (simp_all add: prev2)
      have eq: "newly_completed_per_step tr problem method start st (s # rest)
                  = ?head # newly_completed_per_step tr problem method start st2 rest"
        using Inr ct False by simp
      have t1: "\<forall>S \<in> set (newly_completed_per_step tr problem method start st2 rest).
                  S \<inter> previously_completed_trial_idcs st = {}"
        using ih(1) sub by blast
      have t2: "\<forall>S \<in> set (newly_completed_per_step tr problem method start st2 rest).
                  ?head \<inter> S = {}"
        using ih(1) head(2) by blast
      show ?thesis
        unfolding eq using t1 t2 head(1) ih(2) by simp
    qed
  qed
qed

lemma disjoint_count:
  "sorted_wrt (\<lambda>A B. A \<inter> B = {}) xs \<Longrightarrow> length (filter (\<lambda>S. k \<in> S) xs) \<le> 1"
proof (induction xs)
  case Nil
  then show ?case by simp
next
  case (Cons x xs)
  show ?case
  proof (cases "k \<in> x")
    case True
    with Cons.prems have "\<forall>S \<in> set xs. k \<notin> S" by auto
    then have "filter (\<lambda>S. k \<in> S) xs = []" by (simp add: filter_empty_conv)
    with True show ?thesis by simp
  next
    case False
    with Cons show ?thesis by simp
  qed
qed

lemma run_loop_Cons_Inr:
  assumes "run_loop tr problem method start st (s # rest) = Inr st'"
  obtains st1 st2 brk where
    "bookkeeping tr problem method st (step_experiment s) = Inr st1"
    "check_timeout method start st1 (step_clock s) = (st2, brk)"
    "brk \<Longrightarrow> st' = st2"
    "\<not> brk \<Longrightarrow> run_loop tr problem method start st2 rest = Inr st'"
    "newly_completed_per_step tr problem method start st (s # rest)
       = newly_completed_trials st (step_experiment s)
         # (if brk then [] else newly_completed_per_step tr problem method start st2 rest)"
proof (cases "bookkeeping tr problem method st (step_experiment s)")
  case (Inl err)
  with assms show ?thesis by simp
next
  case (Inr st1)
  obtain st2 brk where ct: "check_timeout method start st1 (step_clock s) = (st2, brk)"
    by (cases "check_timeout method start st1 (step_clock s)")
  show ?thesis
  proof (rule that [OF Inr ct])
    show "brk \<Longrightarrow> st' = st2" using assms Inr ct by simp
    show "\<not> brk \<Longrightarrow> run_loop tr problem method start st2 rest = Inr st'"
      using assms Inr ct by simp
    show "newly_completed_per_step tr problem method start st (s # rest)
       = newly_completed_trials st (step_experiment s)
         # (if brk then [] else newly_completed_per_step tr problem method start st2 rest)"
      using Inr ct by simp
  qed
qed

lemma loop_cost_trace_length:
  assumes "run_loop tr problem method start st steps = Inr st'"
  shows "length (cost_trace st') = length (cost_trace st)
           + length (filter (\<lambda>S. S \<noteq> {}) (newly_completed_per_step tr problem method start st steps))"
  using assms
proof (induction steps arbitrary: st)
  case Nil
  then show ?case by simp
next
  case (Cons s rest)
  from Cons.prems obtain st1 st2 brk where
    bk: "bookkeeping tr problem method st (step_experiment s) = Inr st1"
    and ct: "check_timeout method start st1 (step_clock s) = (st2, brk)"
    and fin: "brk \<Longrightarrow> st' = st2"
    and go: "\<not> brk \<Longrightarrow> run_loop tr problem method start st2 rest = Inr st'"
    and nw: "newly_completed_per_step tr problem method start st (s # rest)
       = newly_completed_trials st (step_experiment s)
         # (if brk then [] else newly_completed_per_step tr problem method start st2 rest)"
    by (rule run_loop_Cons_Inr) blast
  have step: "length (cost_trace st2) = length (cost_trace st)
                + (if newly_completed_trials st (step_experiment s) \<noteq> {} then 1 else 0)"
    using bookkeeping_Inr(4,5) [OF bk] check_timeout_fields(1) [OF ct]
    by (cases "newly_completed_trials st (step_experiment s) = {}") simp_all
  show ?case
  proof (cases brk)
    case True
    with fin step nw show ?thesis by simp
  next
    case False
    from Cons.IH [OF go [OF False]] step nw False show ?thesis by simp
  qed
qed

lemma loop_evaluated_arms:
  assumes "run_loop tr problem method start st steps = Inr st'"
  shows "evaluated_arms_list st' = evaluated_arms_list st
           @ map (\<lambda>(s, S). arms_of_trials (step_experiment s) S)
               (filter (\<lambda>(s, S). S \<noteq> {})
                  (zip steps (newly_completed_per_step tr problem method start st steps)))"
  using assms
proof (induction steps arbitrary: st)
  case Nil
  then show ?case by simp
next
  case (Cons s rest)
  from Cons.prems obtain st1 st2 brk where
    bk: "bookkeeping tr problem method st (step_experiment s) = Inr st1"
    and ct: "check_timeout method start st1 (step_clock s) = (st2, brk)"
    and fin: "brk \<Longrightarrow> st' = st2"
    and go: "\<not> brk \<Longrightarrow> run_loop tr problem method start st2 rest = Inr st'"
    and nw: "newly_completed_per_step tr problem method start st (s # rest)
       = newly_completed_trials st (step_experiment s)
         # (if brk then [] else newly_completed_per_step tr problem method start st2 rest)"
    by (rule run_loop_Cons_Inr) blast
  have step: "evaluated_arms_list st2 = evaluated_arms_list st
                @ (if newly_completed_trials st (step_experiment s) \<noteq> {}
                   then [arms_of_trials (step_experiment s) (newly_completed_trials st (step_experiment s))]
                   else [])"
    using bookkeeping_Inr(4,5) [OF bk] check_timeout_fields(3) [OF ct]
    by (cases "newly_completed_trials st (step_experiment s) = {}") simp_all
  show ?case
  proof (cases brk)
    case True
    with fin step nw show ?thesis by simp
  next
    case False
    from Cons.IH [OF go [OF False]] step nw False show ?thesis by simp
  qed
qed

lemma loop_no_inference:
  assumes "run_loop tr problem method start st steps = Inr st'"
      and "is_moo problem \<or> is_mf_or_mt problem"
  shows "best_params_list st' = best_params_list st
       \<and> filter (\<lambda>ev. ev = GetBestParametersCall) (events st')
           = filter (\<lambda>ev. ev = GetBestParametersCall) (events st)"
  using assms(1)
proof (induction steps arbitrary: st)
  case Nil
  then show ?case by simp
next
  case (Cons s rest)
  from Cons.prems obtain st1 st2 brk where
    bk: "bookkeeping tr problem method st (step_experiment s) = Inr st1"
    and ct: "check_timeout method start st1 (step_clock s) = (st2, brk)"
    and fin: "brk \<Longrightarrow> st' = st2"
    and go: "\<not> brk \<Longrightarrow> run_loop tr problem method start st2 rest = Inr st'"
    by (rule run_loop_Cons_Inr) blast
  have b1: "best_params_list st1 = best_params_list st \<and> events st1 = events st"
    using bookkeeping_Inr(4) [OF bk] bookkeeping_Inr(6) [OF bk _ assms(2)]
    by (cases "newly_completed_trials st (step_experiment s) = {}") simp_all
  have step: "best_params_list st2 = best_params_list st
       \<and> filter (\<lambda>ev. ev = GetBestParametersCall) (events st2)
           = filter (\<lambda>ev. ev = GetBestParametersCall) (events st)"
    using b1 check_timeout_fields(2,7) [OF ct] by simp
  show ?case
  proof (cases brk)
    case True
    with fin step show ?thesis by simp
  next
    case False
    from Cons.IH [OF go [OF False]] step show ?thesis by simp
  qed
qed

lemma loop_inference:
  assumes "run_loop tr problem method start st steps = Inr st'"
      and "\<not> (is_moo problem \<or> is_mf_or_mt problem)"
  shows "best_params_list st' = best_params_list st
           @ concat (map (\<lambda>(s, S). get_best_parameters method (step_experiment s)
                                     (optimization_config problem) (n_best_points problem))
               (filter (\<lambda>(s, S). S \<noteq> {})
                  (zip steps (newly_completed_per_step tr problem method start st steps))))
       \<and> length (best_params_list st') = length (best_params_list st)
           + length (filter (\<lambda>S. S \<noteq> {}) (newly_completed_per_step tr problem method start st steps))
       \<and> length (filter (\<lambda>ev. ev = GetBestParametersCall) (events st'))
           = length (filter (\<lambda>ev. ev = GetBestParametersCall) (events st))
             + length (filter (\<lambda>S. S \<noteq> {}) (newly_completed_per_step tr problem method start st steps))"
  using assms(1)
proof (induction steps arbitrary: st)
  case Nil
  then show ?case by simp
next
  case (Cons s rest)
  let ?e = "step_experiment s"
  let ?g = "get_best_parameters method ?e (optimization_config problem) (n_best_points problem)"
  from Cons.prems obtain st1 st2 brk where
    bk: "bookkeeping tr problem method st ?e = Inr st1"
    and ct: "check_timeout method start st1 (step_clock s) = (st2, brk)"
    and fin: "brk \<Longrightarrow> st' = st2"
    and go: "\<not> brk \<Longrightarrow> run_loop tr problem method start st2 rest = Inr st'"
    and nw: "newly_completed_per_step tr problem method start st (s # rest)
       = newly_completed_trials st ?e
         # (if brk then [] else newly_completed_per_step tr problem method start st2 rest)"
    by (rule run_loop_Cons_Inr) blast
  have b1: "best_params_list st1 = best_params_list st
              @ (if newly_completed_trials st ?e \<noteq> {} then ?g else [])
          \<and> length (if newly_completed_trials st ?e \<noteq> {} then ?g else [])
              = (if newly_completed_trials st ?e \<noteq> {} then 1 else 0)
          \<and> events st1 = events st
              @ (if newly_completed_trials st ?e \<noteq> {} then [GetBestParametersCall] else [])"
  proof (cases "newly_completed_trials st ?e = {}")
    case True
    with bookkeeping_Inr(4) [OF bk] show ?thesis by simp
  next
    case False
    from bookkeeping_Inr(7) [OF bk False assms(2)] False show ?thesis by simp
  qed
  have step: "best_params_list st2 = best_params_list st
              @ (if newly_completed_trials st ?e \<noteq> {} then ?g else [])
          \<and> length (if newly_completed_trials st ?e \<noteq> {} then ?g else [])
              = (if newly_completed_trials st ?e \<noteq> {} then 1 else 0)
          \<and> length (best_params_list st2) = length (best_params_list st)
              + (if newly_completed_trials st ?e \<noteq> {} then 1 else 0)
          \<and> length (filter (\<lambda>ev. ev = GetBestParametersCall) (events st2))
              = length (filter (\<lambda>ev. ev = GetBestParametersCall) (events st))
                + (if newly_completed_trials st ?e \<noteq> {} then 1 else 0)"
    using b1 check_timeout_fields(2,7) [OF ct] by (simp split: if_splits)
  have s1: "best_params_list st2 = best_params_list st
              @ (if newly_completed_trials st ?e \<noteq> {} then ?g else [])"
    and s2: "length (best_params_list st2) = length (best_params_list st)
              + (if newly_completed_trials st ?e \<noteq> {} then 1 else 0)"
    and s3: "length (filter (\<lambda>ev. ev = GetBestParametersCall) (events st2))
              = length (filter (\<lambda>ev. ev = GetBestParametersCall) (events st))
                + (if newly_completed_trials st ?e \<noteq> {} then 1 else 0)"
    using step by blast+
  show ?case
  proof (cases brk)
    case True
    have "st' = st2" using fin True by simp
    then show ?thesis
      using s1 s2 s3 nw True by simp
  next
    case False
    note ih = Cons.IH [OF go [OF False]]
    from ih have i1: "best_params_list st' = best_params_list st2
           @ concat (map (\<lambda>(s, S). get_best_parameters method (step_experiment s)
                                     (optimization_config problem) (n_best_points problem))
               (filter (\<lambda>(s, S). S \<noteq> {})
                  (zip rest (newly_completed_per_step tr problem method start st2 rest))))"
      by blast
    from ih have i2: "length (best_params_list st') = length (best_params_list st2)
           + length (filter (\<lambda>S. S \<noteq> {}) (newly_completed_per_step tr problem method start st2 rest))"
      by blast
    from ih have i3: "length (filter (\<lambda>ev. ev = GetBestParametersCall) (events st'))
           = length (filter (\<lambda>ev. ev = GetBestParametersCall) (events st2))
             + length (filter (\<lambda>S. S \<noteq> {}) (newly_completed_per_step tr problem method start st2 rest))"
      by blast
    have c1: "best_params_list st' = best_params_list st
           @ concat (map (\<lambda>(s, S). get_best_parameters method (step_experiment s)
                                     (optimization_config problem) (n_best_points problem))
               (filter (\<lambda>(s, S). S \<noteq> {})
                  (zip (s # rest) (newly_completed_per_step tr problem method start st (s # rest)))))"
      unfolding nw i1 s1 using False by simp
    have c2: "length (best_params_list st') = length (best_params_list st)
           + length (filter (\<lambda>S. S \<noteq> {})
                (newly_completed_per_step tr problem method start st (s # rest)))"
      unfolding nw i2 s2 using False by simp
    have c3: "length (filter (\<lambda>ev. ev = GetBestParametersCall) (events st'))
           = length (filter (\<lambda>ev. ev = GetBestParametersCall) (events st))
             + length (filter (\<lambda>S. S \<noteq> {})
                (newly_completed_per_step tr problem method start st (s # rest)))"
      unfolding nw i3 s3 using False by simp
    from c1 c2 c3 show ?thesis by (intro conjI)
  qed
qed




lemma oracle_experiment_aligned:
  assumes keys: "map fst d = map int [0..<length d]"
  shows "fst (get_oracle_experiment_from_params run problem d lvl) = Inr e \<Longrightarrow>
           length (exp_trials e) = length d"
    and "\<forall>(i, m) \<in> set d. m \<noteq> [] \<Longrightarrow>
           \<exists>e. fst (get_oracle_experiment_from_params run problem d lvl) = Inr e"
proof -
  let ?rn = "BenchmarkRunner_init (problem_test_function problem) 0 None 1"
  let ?init = "\<lparr> exp_search_space = search_space problem,
               exp_optimization_config = optimization_config problem,
               exp_runner = None, exp_status_quo = None, exp_trials = [] \<rparr>"
  let ?pre = "takeWhile (\<lambda>(i, m). m \<noteq> []) d"
  let ?e = "?init \<lparr> exp_trials := map (\<lambda>(i, m). (i, oracle_trial run problem ?rn m)) ?pre \<rparr>"
  have k0: "map fst (exp_trials ?init) = map int [0..<0]" by simp
  have kd: "map fst d = map int [0..<0 + length d]" using keys by simp
  have loop: "attach_and_run_trials run problem ?rn ?init d
                = (if ?pre = d then Inr ?e else Inl (ValueError_no_arms, ?e))"
    using loop_closed_form [OF k0 kd, of run problem ?rn] by (simp add: Let_def)
  have res: "fst (get_oracle_experiment_from_params run problem d lvl)
               = (if ?pre = d then Inr ?e else Inl (ValueError_no_arms, ?e))"
    unfolding get_oracle_experiment_from_params_def Let_def loop by simp
  have resT: "?pre = d \<Longrightarrow> fst (get_oracle_experiment_from_params run problem d lvl) = Inr ?e"
    using res by simp
  have resF: "?pre \<noteq> d \<Longrightarrow>
      fst (get_oracle_experiment_from_params run problem d lvl) = Inl (ValueError_no_arms, ?e)"
    using res by simp
  show "fst (get_oracle_experiment_from_params run problem d lvl) = Inr e \<Longrightarrow>
           length (exp_trials e) = length d"
  proof -
    assume a: "fst (get_oracle_experiment_from_params run problem d lvl) = Inr e"
    show ?thesis
    proof (cases "?pre = d")
      case True
      from resT [OF True] a have "e = ?e" by (metis Inr_inject)
      then have "exp_trials e = map (\<lambda>(i, m). (i, oracle_trial run problem ?rn m)) ?pre"
        by simp
      then have "length (exp_trials e) = length ?pre"
        by (simp only: length_map)
      with True show ?thesis by (simp only:)
    next
      case False
      from resF [OF False] a show ?thesis by simp
    qed
  qed
  show "\<forall>(i, m) \<in> set d. m \<noteq> [] \<Longrightarrow>
           \<exists>e. fst (get_oracle_experiment_from_params run problem d lvl) = Inr e"
  proof -
    assume "\<forall>(i, m) \<in> set d. m \<noteq> []"
    then have "?pre = d" unfolding takeWhile_eq_all_conv by (simp add: split_def)
    from resT [OF this] show ?thesis by (rule exI)
  qed
qed

lemma enumerate_keys:
  "map fst (map (\<lambda>(i, arms). (int i, dict_of_arms arms)) (enumerate 0 xs))
     = map int [0..<length (map (\<lambda>(i, arms). (int i, dict_of_arms arms)) (enumerate 0 xs))]"
proof -
  have l: "length (map (\<lambda>(i, arms). (int i, dict_of_arms arms)) (enumerate 0 xs)) = length xs"
    by simp
  have "map fst (map (\<lambda>(i, arms). (int i, dict_of_arms arms)) (enumerate 0 xs))
          = map (int \<circ> fst) (enumerate 0 xs)"
    by (simp add: split_def comp_def)
  also have "\<dots> = map int (map fst (enumerate 0 xs))"
    by (simp only: map_map)
  also have "\<dots> = map int [0..<length xs]"
    by (simp only: map_fst_enumerate add_0)
  finally show ?thesis unfolding l .
qed

lemma oracle_trace_Inr:
  assumes "get_oracle_trace_from_arms run get_trace lvl arms_list problem = Inr tr"
  shows "\<exists>dummy. tr = get_trace dummy (optimization_config problem)
           \<and> length (exp_trials dummy) = length arms_list"
proof -
  let ?d = "map (\<lambda>(i, arms). (int i, dict_of_arms arms)) (enumerate 0 arms_list)"
  from assms obtain dummy where
    d: "fst (get_oracle_experiment_from_params run problem ?d lvl) = Inr dummy"
    and tr: "tr = get_trace dummy (optimization_config problem)"
    by (auto simp: get_oracle_trace_from_arms_def split: sum.splits)
  from oracle_experiment_aligned(1) [OF enumerate_keys d]
  have "length (exp_trials dummy) = length arms_list" by simp
  with tr show ?thesis by blast
qed



lemma oracle_values_length:
  "oracle_values run get_trace lvl problem ps = Inr vs \<Longrightarrow> length vs = length ps"
  by (induction ps arbitrary: vs) (auto split: sum.splits)


lemma finalize_Inr:
  assumes "finalize c problem seed strip lvl st = Inr res"
  shows "res_cost_trace res = cost_trace st"
    and "length (inference_trace res) = length (best_params_list st)"
    and "\<exists>dummy. oracle_trace res = c_get_trace c dummy (optimization_config problem)
           \<and> length (exp_trials dummy) = length (evaluated_arms_list st)"
    and "optimization_trace res
           = (if report_inference_value_as_trace problem then inference_trace res else oracle_trace res)"
    and "score_trace res = compute_score_trace (map float64_of_real (optimization_trace res))
           (float64_of_real (baseline_value problem)) (float64_of_real (optimal_value problem))"
    and "res_seed res = seed"
proof -
  from assms obtain itr otr where
    i: "oracle_values (c_run c) (c_get_trace c) lvl problem (best_params_list st) = Inr itr"
    and o: "get_oracle_trace_from_arms (c_run c) (c_get_trace c) lvl (evaluated_arms_list st) problem
              = Inr otr"
    by (auto simp: finalize_def split: sum.splits)
  from assms i o have r: "oracle_trace res = otr" "inference_trace res = itr"
    "res_cost_trace res = cost_trace st"
    "optimization_trace res = (if report_inference_value_as_trace problem then itr else otr)"
    "score_trace res = compute_score_trace (map float64_of_real (optimization_trace res))
           (float64_of_real (baseline_value problem)) (float64_of_real (optimal_value problem))"
    "res_seed res = seed"
    by (auto simp: finalize_def Let_def)
  show "res_cost_trace res = cost_trace st" by (rule r(3))
  show "length (inference_trace res) = length (best_params_list st)"
    using oracle_values_length [OF i] r(2) by simp
  show "\<exists>dummy. oracle_trace res = c_get_trace c dummy (optimization_config problem)
           \<and> length (exp_trials dummy) = length (evaluated_arms_list st)"
    using oracle_trace_Inr [OF o] r(1) by simp
  show "optimization_trace res
           = (if report_inference_value_as_trace problem then inference_trace res else oracle_trace res)"
    using r by simp
  show "score_trace res = compute_score_trace (map float64_of_real (optimization_trace res))
           (float64_of_real (baseline_value problem)) (float64_of_real (optimal_value problem))" by (rule r(5))
  show "res_seed res = seed" by (rule r(6))
qed


text \<open>The oracle experiment that the oracle trace is read from.\<close>

lemma update_fresh: "k \<notin> fst ` set xs \<Longrightarrow> AList.update k v xs = xs @ [(k, v)]"
  by (induction xs) auto

lemma set_update_subset: "set (AList.update k v xs) \<subseteq> insert (k, v) (set xs)"
  by (induction xs) auto

lemma fold_arms_keys:
  "fst ` set (fold (\<lambda>arm. AList.update (arm_name arm) (arm_parameters arm)) arms acc)
     = fst ` set acc \<union> arm_name ` set arms"
  by (induction arms arbitrary: acc) (auto simp add: dom_update)

lemma fold_arms_entries:
  "(n, p) \<in> set (fold (\<lambda>arm. AList.update (arm_name arm) (arm_parameters arm)) arms acc) \<Longrightarrow>
     (n, p) \<in> set acc \<or> (\<exists>a \<in> set arms. arm_name a = n \<and> arm_parameters a = p)"
proof (induction arms arbitrary: acc)
  case Nil
  then show ?case by simp
next
  case (Cons a arms)
  from Cons.prems have "(n, p) \<in> set (fold (\<lambda>arm. AList.update (arm_name arm) (arm_parameters arm))
      arms (AList.update (arm_name a) (arm_parameters a) acc))" by simp
  from Cons.IH [OF this] show ?case
    using set_update_subset [of "arm_name a" "arm_parameters a" acc] by auto
qed

lemma fold_arms_distinct:
  assumes "distinct (map arm_name arms)" and "arm_name ` set arms \<inter> fst ` set acc = {}"
  shows "fold (\<lambda>arm. AList.update (arm_name arm) (arm_parameters arm)) arms acc
     = acc @ map (\<lambda>a. (arm_name a, arm_parameters a)) arms"
  using assms
proof (induction arms arbitrary: acc)
  case Nil
  then show ?case by simp
next
  case (Cons a arms)
  from Cons.prems(2) have fresh: "arm_name a \<notin> fst ` set acc" by auto
  have d: "distinct (map arm_name arms)" using Cons.prems(1) by simp
  have "arm_name ` set arms \<inter> fst ` set (acc @ [(arm_name a, arm_parameters a)]) = {}"
    using Cons.prems by auto
  from Cons.IH [OF d this] show ?case by (simp add: update_fresh [OF fresh])
qed

lemma dict_of_arms_keys: "fst ` set (dict_of_arms arms) = arm_name ` set arms"
  by (simp add: dict_of_arms_def fold_arms_keys)

lemma dict_of_arms_entries:
  "(n, p) \<in> set (dict_of_arms arms) \<Longrightarrow> \<exists>a \<in> set arms. arm_name a = n \<and> arm_parameters a = p"
  using fold_arms_entries [of n p arms "[]"] by (simp add: dict_of_arms_def)

lemma dict_of_arms_distinct:
  "distinct (map arm_name arms) \<Longrightarrow>
     dict_of_arms arms = map (\<lambda>a. (arm_name a, arm_parameters a)) arms"
  using fold_arms_distinct [of arms "[]"] by (simp add: dict_of_arms_def)

lemma oracle_trial_arms:
  "trial_arms (oracle_trial run problem rn m)
     = map (\<lambda>(n, p). \<lparr> arm_name = n,
                       arm_parameters = dict_merge p (target_fidelity_and_task problem) \<rparr>) m"
  by (simp add: oracle_trial_def Let_def mark_completed_def update_run_metadata_def
      new_trial_def zip_map_fst_snd split_def comp_def zip_map1 zip_map2 zip_same_conv_map)

text \<open>The arms of the oracle trial built for a group of evaluated arms.\<close>

lemma oracle_trial_of_arms:
  "trial_status (oracle_trial run problem rn (dict_of_arms arms)) = COMPLETED
   \<and> arm_name ` set (trial_arms (oracle_trial run problem rn (dict_of_arms arms)))
       = arm_name ` set arms
   \<and> (\<forall>a \<in> set (trial_arms (oracle_trial run problem rn (dict_of_arms arms))).
         \<exists>a' \<in> set arms. arm_name a' = arm_name a
           \<and> arm_parameters a = dict_merge (arm_parameters a') (target_fidelity_and_task problem))
   \<and> (distinct (map arm_name arms) \<longrightarrow>
         trial_arms (oracle_trial run problem rn (dict_of_arms arms))
         = map (\<lambda>a. \<lparr> arm_name = arm_name a,
                  arm_parameters = dict_merge (arm_parameters a) (target_fidelity_and_task problem) \<rparr>)
             arms)"
proof -
  let ?t = "oracle_trial run problem rn (dict_of_arms arms)"
  have s: "trial_status ?t = COMPLETED" by (simp add: oracle_trial_props(1))
  have "arm_name ` set (trial_arms ?t) = fst ` set (dict_of_arms arms)"
    unfolding oracle_trial_arms by (force simp add: image_iff)
  then have n: "arm_name ` set (trial_arms ?t) = arm_name ` set arms"
    by (simp only: dict_of_arms_keys)
  have p: "\<forall>a \<in> set (trial_arms ?t). \<exists>a' \<in> set arms. arm_name a' = arm_name a
           \<and> arm_parameters a = dict_merge (arm_parameters a') (target_fidelity_and_task problem)"
  proof
    fix a assume "a \<in> set (trial_arms ?t)"
    then obtain n p where np: "(n, p) \<in> set (dict_of_arms arms)"
      and a: "a = \<lparr> arm_name = n,
                    arm_parameters = dict_merge p (target_fidelity_and_task problem) \<rparr>"
      unfolding oracle_trial_arms by auto
    from dict_of_arms_entries [OF np] obtain a' where
      "a' \<in> set arms" "arm_name a' = n" "arm_parameters a' = p" by blast
    then show "\<exists>a' \<in> set arms. arm_name a' = arm_name a
           \<and> arm_parameters a = dict_merge (arm_parameters a') (target_fidelity_and_task problem)"
      using a by auto
  qed
  have d: "distinct (map arm_name arms) \<longrightarrow>
           trial_arms ?t = map (\<lambda>a. \<lparr> arm_name = arm_name a,
                  arm_parameters = dict_merge (arm_parameters a) (target_fidelity_and_task problem) \<rparr>)
                arms"
    by (simp add: oracle_trial_arms dict_of_arms_distinct comp_def)
  from s n p d show ?thesis by (intro conjI)
qed

lemma oracle_experiment_trials:
  assumes keys: "map fst d = map int [0..<length d]"
    and r: "fst (get_oracle_experiment_from_params run problem d lvl) = Inr e"
  shows "exp_trials e
     = map (\<lambda>(i, m). (i, oracle_trial run problem
                            (BenchmarkRunner_init (problem_test_function problem) 0 None 1) m)) d"
proof -
  let ?rn = "BenchmarkRunner_init (problem_test_function problem) 0 None 1"
  let ?init = "\<lparr> exp_search_space = search_space problem,
               exp_optimization_config = optimization_config problem,
               exp_runner = None, exp_status_quo = None, exp_trials = [] \<rparr>"
  let ?pre = "takeWhile (\<lambda>(i, m). m \<noteq> []) d"
  let ?e = "?init \<lparr> exp_trials := map (\<lambda>(i, m). (i, oracle_trial run problem ?rn m)) ?pre \<rparr>"
  have k0: "map fst (exp_trials ?init) = map int [0..<0]" by simp
  have kd: "map fst d = map int [0..<0 + length d]" using keys by simp
  have loop: "attach_and_run_trials run problem ?rn ?init d
                = (if ?pre = d then Inr ?e else Inl (ValueError_no_arms, ?e))"
    using loop_closed_form [OF k0 kd, of run problem ?rn] by (simp add: Let_def)
  have res: "fst (get_oracle_experiment_from_params run problem d lvl)
               = (if ?pre = d then Inr ?e else Inl (ValueError_no_arms, ?e))"
    unfolding get_oracle_experiment_from_params_def Let_def loop by simp
  have resT: "?pre = d \<Longrightarrow> fst (get_oracle_experiment_from_params run problem d lvl) = Inr ?e"
    using res by simp
  have resF: "?pre \<noteq> d \<Longrightarrow>
      fst (get_oracle_experiment_from_params run problem d lvl) = Inl (ValueError_no_arms, ?e)"
    using res by simp
  show ?thesis
  proof (cases "?pre = d")
    case True
    from resT [OF True] r have "e = ?e" by (metis Inr_inject)
    then have "exp_trials e = map (\<lambda>(i, m). (i, oracle_trial run problem ?rn m)) ?pre" by simp
    with True show ?thesis by (simp only:)
  next
    case False
    from resF [OF False] r show ?thesis by simp
  qed
qed

lemma oracle_trace_trials:
  assumes "get_oracle_trace_from_arms run get_trace lvl arms_list problem = Inr tr"
  shows "\<exists>dummy. tr = get_trace dummy (optimization_config problem)
           \<and> exp_trials dummy
               = map (\<lambda>(i, arms). (int i, oracle_trial run problem
                        (BenchmarkRunner_init (problem_test_function problem) 0 None 1)
                        (dict_of_arms arms)))
                   (enumerate 0 arms_list)"
proof -
  let ?d = "map (\<lambda>(i, arms). (int i, dict_of_arms arms)) (enumerate 0 arms_list)"
  from assms obtain dummy where
    d: "fst (get_oracle_experiment_from_params run problem ?d lvl) = Inr dummy"
    and tr: "tr = get_trace dummy (optimization_config problem)"
    by (auto simp: get_oracle_trace_from_arms_def split: sum.splits)
  from oracle_experiment_trials [OF enumerate_keys d]
  have "exp_trials dummy
               = map (\<lambda>(i, arms). (int i, oracle_trial run problem
                        (BenchmarkRunner_init (problem_test_function problem) 0 None 1)
                        (dict_of_arms arms)))
                   (enumerate 0 arms_list)"
    by (simp add: split_def comp_def)
  with tr show ?thesis by blast
qed

lemma finalize_oracle_trials:
  assumes "finalize c problem seed strip lvl st = Inr res"
  shows "\<exists>dummy. oracle_trace res = c_get_trace c dummy (optimization_config problem)
           \<and> exp_trials dummy
               = map (\<lambda>(i, arms). (int i, oracle_trial (c_run c) problem
                        (BenchmarkRunner_init (problem_test_function problem) 0 None 1)
                        (dict_of_arms arms)))
                   (enumerate 0 (evaluated_arms_list st))"
proof -
  from assms obtain itr otr where
    i: "oracle_values (c_run c) (c_get_trace c) lvl problem (best_params_list st) = Inr itr"
    and o: "get_oracle_trace_from_arms (c_run c) (c_get_trace c) lvl (evaluated_arms_list st) problem
              = Inr otr"
    by (auto simp: finalize_def split: sum.splits)
  from assms i o have "oracle_trace res = otr" by (auto simp: finalize_def Let_def)
  with oracle_trace_trials [OF o] show ?thesis by simp
qed

lemma loop_evaluated_arms_length:
  assumes "run_loop tr problem method start st steps = Inr st'"
  shows "length (evaluated_arms_list st') = length (evaluated_arms_list st)
           + length (filter (\<lambda>S. S \<noteq> {}) (newly_completed_per_step tr problem method start st steps))"
  using assms
proof (induction steps arbitrary: st)
  case Nil
  then show ?case by simp
next
  case (Cons s rest)
  from Cons.prems obtain st1 st2 brk where
    bk: "bookkeeping tr problem method st (step_experiment s) = Inr st1"
    and ct: "check_timeout method start st1 (step_clock s) = (st2, brk)"
    and fin: "brk \<Longrightarrow> st' = st2"
    and go: "\<not> brk \<Longrightarrow> run_loop tr problem method start st2 rest = Inr st'"
    and nw: "newly_completed_per_step tr problem method start st (s # rest)
       = newly_completed_trials st (step_experiment s)
         # (if brk then [] else newly_completed_per_step tr problem method start st2 rest)"
    by (rule run_loop_Cons_Inr) blast
  have step: "length (evaluated_arms_list st2) = length (evaluated_arms_list st)
                + (if newly_completed_trials st (step_experiment s) \<noteq> {} then 1 else 0)"
    using bookkeeping_Inr(4,5) [OF bk] check_timeout_fields(3) [OF ct]
    by (cases "newly_completed_trials st (step_experiment s) = {}") simp_all
  show ?case
  proof (cases brk)
    case True
    with fin step nw show ?thesis by simp
  next
    case False
    from Cons.IH [OF go [OF False]] step nw False show ?thesis by simp
  qed
qed



lemma bookkeeping_ignores_best_point_query:
  assumes "is_moo problem \<or> is_mf_or_mt problem"
  shows "bookkeeping tr problem (method \<lparr> get_best_parameters := g \<rparr>) st e
           = bookkeeping tr problem method st e"
proof -
  from assms have c: "(\<not> (is_moo problem \<or> is_mf_or_mt problem)) = False" by simp
  show ?thesis
    unfolding bookkeeping_def Let_def c if_False by simp
qed

lemma check_timeout_ignores_best_point_query:
  "check_timeout (method \<lparr> get_best_parameters := g \<rparr>) start st now
     = check_timeout method start st now"
  by (simp add: check_timeout_def)

lemma run_loop_ignores_best_point_query:
  assumes "is_moo problem \<or> is_mf_or_mt problem"
  shows "run_loop tr problem (method \<lparr> get_best_parameters := g \<rparr>) start st steps
           = run_loop tr problem method start st steps"
  by (induction steps arbitrary: st)
     (auto simp: bookkeeping_ignores_best_point_query [OF assms]
        check_timeout_ignores_best_point_query split: sum.splits prod.splits)

lemma replication_ignores_best_point_query:
  assumes "is_moo problem \<or> is_mf_or_mt problem"
  shows "benchmark_replication c problem (method \<lparr> get_best_parameters := g \<rparr>) seed strip slvl lvl
           = benchmark_replication c problem method seed strip slvl lvl"
  by (simp add: benchmark_replication_def replication_loop_def replication_run_def
      replication_experiment_def replication_options_def get_benchmark_scheduler_options_def
      initial_state_def run_loop_ignores_best_point_query [OF assms])

lemma replication_Inr:
  assumes "benchmark_replication c problem method seed strip slvl lvl = Inr res"
  obtains st where "replication_loop c problem method seed slvl = Inr st"
    and "finalize c problem seed strip lvl st = Inr res"
  using assms by (auto simp: benchmark_replication_def split: sum.splits)


lemma replication_trace_lengths:
  assumes "benchmark_replication c problem method seed strip slvl lvl = Inr res"
  shows "\<exists>st. replication_loop c problem method seed slvl = Inr st
          \<and> res_cost_trace res = cost_trace st
          \<and> length (res_cost_trace res)
              = length (filter (\<lambda>S. S \<noteq> {})
                  (newly_completed_per_step (c_total_runtime c) problem method
                     (run_start (replication_run c problem method seed slvl))
                     (initial_state method (replication_experiment problem method slvl))
                     (run_steps (replication_run c problem method seed slvl))))
          \<and> length (evaluated_arms_list st) = length (res_cost_trace res)
          \<and> (\<exists>dummy. oracle_trace res = c_get_trace c dummy (optimization_config problem)
                \<and> length (exp_trials dummy) = length (res_cost_trace res))
          \<and> ((\<forall>e oc. length (c_get_trace c e oc) = length (exp_trials e)) \<longrightarrow>
                length (oracle_trace res) = length (res_cost_trace res))
          \<and> (\<not> (is_moo problem \<or> is_mf_or_mt problem) \<longrightarrow>
                length (best_params_list st) = length (res_cost_trace res)
              \<and> length (inference_trace res) = length (res_cost_trace res))
          \<and> (\<not> (is_moo problem \<or> is_mf_or_mt problem)
                \<and> (\<forall>e oc. length (c_get_trace c e oc) = length (exp_trials e)) \<longrightarrow>
                length (inference_trace res) = length (oracle_trace res))"
proof -
  let ?run = "replication_run c problem method seed slvl"
  let ?init = "initial_state method (replication_experiment problem method slvl)"
  let ?n = "length (filter (\<lambda>S. S \<noteq> {})
              (newly_completed_per_step (c_total_runtime c) problem method (run_start ?run)
                 ?init (run_steps ?run)))"
  from assms obtain st where loop: "replication_loop c problem method seed slvl = Inr st"
    and fin: "finalize c problem seed strip lvl st = Inr res"
    by (rule replication_Inr)
  from loop have rl: "run_loop (c_total_runtime c) problem method (run_start ?run) ?init
                        (run_steps ?run) = Inr st"
    by (simp add: replication_loop_def Let_def)
  have i0: "cost_trace ?init = []" "evaluated_arms_list ?init = []" "best_params_list ?init = []"
    by (simp_all add: initial_state_def)
  have ct: "length (cost_trace st) = ?n"
    using loop_cost_trace_length [OF rl] i0 by simp
  have ea: "length (evaluated_arms_list st) = ?n"
    using loop_evaluated_arms_length [OF rl] i0 by simp
  have bp: "length (best_params_list st) = ?n" if "\<not> (is_moo problem \<or> is_mf_or_mt problem)"
    using loop_inference [OF rl that, THEN conjunct2, THEN conjunct1] i0 by simp
  note f = finalize_Inr [OF fin]
  have cost: "res_cost_trace res = cost_trace st" by (rule f(1))
  from f(3) obtain dummy where
    d: "oracle_trace res = c_get_trace c dummy (optimization_config problem)"
       "length (exp_trials dummy) = length (evaluated_arms_list st)"
    by blast
  have a3: "length (res_cost_trace res) = ?n" using cost ct by simp
  have a4: "length (evaluated_arms_list st) = length (res_cost_trace res)" using ea a3 by simp
  have a5: "\<exists>dummy. oracle_trace res = c_get_trace c dummy (optimization_config problem)
                \<and> length (exp_trials dummy) = length (res_cost_trace res)"
    using d a4 by auto
  have a6: "length (oracle_trace res) = length (res_cost_trace res)"
    if "\<forall>e oc. length (c_get_trace c e oc) = length (exp_trials e)"
    using that d a4 by simp
  have a7: "length (best_params_list st) = length (res_cost_trace res)
              \<and> length (inference_trace res) = length (res_cost_trace res)"
    if "\<not> (is_moo problem \<or> is_mf_or_mt problem)"
    using bp [OF that] f(2) a3 by simp
  have a8: "length (inference_trace res) = length (oracle_trace res)"
    if "\<not> (is_moo problem \<or> is_mf_or_mt problem)
          \<and> (\<forall>e oc. length (c_get_trace c e oc) = length (exp_trials e))"
    using that a6 a7 by simp
  show ?thesis
    apply (rule exI [where x = st])
    apply (intro conjI impI)
    apply (rule loop)
    apply (rule cost)
    apply (rule a3)
    apply (rule a4)
    apply (rule a5)
    apply (erule a6)
    apply (simp add: a7)
    apply (simp add: a7)
    apply (erule a8)
    done
qed

lemma get_cumulative_cost_plain:
  assumes r: "exp_runner e = Some runner" and s: "simulated_backend_runner runner = None"
      and c: "get_cumulative_cost tr pc S e = Inr c"
  shows "c = pc + (\<Sum>i \<in> S. trial_total_runtime tr e i)"
proof -
  from c r s have all: "\<forall>i \<in> S. trials_lookup e i \<noteq> None"
    and val: "c = pc + (\<Sum>i \<in> S. tr (the (trials_lookup e i))
                         (step_runtime_function runner) (n_steps (test_function runner)))"
    by (auto simp: get_cumulative_cost_def split: if_splits)
  have "(\<Sum>i \<in> S. tr (the (trials_lookup e i))
                         (step_runtime_function runner) (n_steps (test_function runner)))
          = (\<Sum>i \<in> S. trial_total_runtime tr e i)"
    using all r by (intro sum.cong) (auto simp: trial_total_runtime_def)
  with val show ?thesis by simp
qed

lemma loop_cost:
  assumes "run_loop tr problem method start st steps = Inr st'"
      and "\<forall>s \<in> set steps. \<exists>runner. exp_runner (step_experiment s) = Some runner
                                  \<and> simulated_backend_runner runner = None"
  shows "cost st' = cost st
           + sum_list (map (\<lambda>(s, S). \<Sum>i \<in> S. trial_total_runtime tr (step_experiment s) i)
               (zip steps (newly_completed_per_step tr problem method start st steps)))"
  using assms
proof (induction steps arbitrary: st)
  case Nil
  then show ?case by simp
next
  case (Cons s rest)
  let ?e = "step_experiment s"
  let ?S = "newly_completed_trials st ?e"
  from Cons.prems(1) obtain st1 st2 brk where
    bk: "bookkeeping tr problem method st ?e = Inr st1"
    and ct: "check_timeout method start st1 (step_clock s) = (st2, brk)"
    and fin: "brk \<Longrightarrow> st' = st2"
    and go: "\<not> brk \<Longrightarrow> run_loop tr problem method start st2 rest = Inr st'"
    and nw: "newly_completed_per_step tr problem method start st (s # rest)
       = ?S # (if brk then [] else newly_completed_per_step tr problem method start st2 rest)"
    by (rule run_loop_Cons_Inr) blast
  from Cons.prems(2) obtain runner where r: "exp_runner ?e = Some runner"
    "simulated_backend_runner runner = None" by auto
  from Cons.prems(2) have rest: "\<forall>s \<in> set rest. \<exists>runner. exp_runner (step_experiment s) = Some runner
                                  \<and> simulated_backend_runner runner = None" by simp
  have step1: "cost st1 = cost st + (\<Sum>i \<in> ?S. trial_total_runtime tr ?e i)"
  proof (cases "?S = {}")
    case True
    with bookkeeping_Inr(4) [OF bk] show ?thesis by simp
  next
    case False
    from bookkeeping_Inr(5) [OF bk False]
    have "get_cumulative_cost tr (cost st) ?S ?e = Inr (cost st1)" by simp
    from get_cumulative_cost_plain [OF r this] show ?thesis .
  qed
  have step: "cost st2 = cost st + (\<Sum>i \<in> ?S. trial_total_runtime tr ?e i)"
    using step1 check_timeout_fields(5) [OF ct] by simp
  show ?case
  proof (cases brk)
    case True
    with fin step nw show ?thesis by simp
  next
    case False
    from Cons.IH [OF go [OF False] rest] step nw False show ?thesis by simp
  qed
qed








text \<open>
  C1. For every run of the loop of a replication along which the statuses \<open>COMPLETED\<close> and
  \<open>EARLY_STOPPED\<close> are absorbing, the sets of newly completed trial indices that the
  iterations compute are pairwise disjoint, so every trial index lies in at most one of
  them. The evaluated-arms list of a loop that ends without an exception has one entry
  for each non-empty one of these sets, the arms of its trials at that iteration; and
  when no experiment of the run has a simulator, the final cost is the sum, over the
  iterations, of the runtimes of the trials in the iteration's set. Hence the arms of a
  trial are appended at most once and its runtime is counted at most once.
\<close>

theorem C1_newly_completed_disjoint:
  assumes "absorbing (map step_experiment steps)"
  shows "(\<forall>i j. i < j \<and> j < length (newly_completed_per_step tr problem method start
                                       (initial_state method experiment) steps) \<longrightarrow>
            newly_completed_per_step tr problem method start (initial_state method experiment) steps ! i
            \<inter> newly_completed_per_step tr problem method start (initial_state method experiment) steps ! j
            = {})
       \<and> (\<forall>k. length (filter (\<lambda>S. k \<in> S)
                        (newly_completed_per_step tr problem method start
                           (initial_state method experiment) steps)) \<le> 1)
       \<and> (\<forall>st'. run_loop tr problem method start (initial_state method experiment) steps = Inr st' \<longrightarrow>
            evaluated_arms_list st'
              = map (\<lambda>(s, S). arms_of_trials (step_experiment s) S)
                  (filter (\<lambda>(s, S). S \<noteq> {})
                     (zip steps (newly_completed_per_step tr problem method start
                                   (initial_state method experiment) steps))))
       \<and> (\<forall>st'. run_loop tr problem method start (initial_state method experiment) steps = Inr st'
                \<and> (\<forall>s \<in> set steps. \<exists>runner. exp_runner (step_experiment s) = Some runner
                                            \<and> simulated_backend_runner runner = None) \<longrightarrow>
            cost st'
              = sum_list (map (\<lambda>(s, S). \<Sum>i \<in> S. trial_total_runtime tr (step_experiment s) i)
                  (zip steps (newly_completed_per_step tr problem method start
                                (initial_state method experiment) steps))))"
proof -
  let ?init = "initial_state method experiment"
  let ?N = "newly_completed_per_step tr problem method start ?init steps"
  have i0: "previously_completed_trial_idcs ?init = {}" "evaluated_arms_list ?init = []"
    "cost ?init = 0"
    by (simp_all add: initial_state_def)
  have s: "sorted_wrt (\<lambda>A B. A \<inter> B = {}) ?N"
    using newly_disjoint_aux [OF assms, of ?init tr problem "method" start] i0(1) by simp
  have p1: "\<forall>i j. i < j \<and> j < length ?N \<longrightarrow> ?N ! i \<inter> ?N ! j = {}"
    using s by (simp add: sorted_wrt_iff_nth_less)
  have p2: "\<forall>k. length (filter (\<lambda>S. k \<in> S) ?N) \<le> 1"
    using disjoint_count [OF s] by blast
  have p3: "evaluated_arms_list st'
              = map (\<lambda>(s, S). arms_of_trials (step_experiment s) S)
                  (filter (\<lambda>(s, S). S \<noteq> {}) (zip steps ?N))"
    if "run_loop tr problem method start ?init steps = Inr st'" for st'
    using loop_evaluated_arms [OF that] i0(2) by simp
  have p4: "cost st'
              = sum_list (map (\<lambda>(s, S). \<Sum>i \<in> S. trial_total_runtime tr (step_experiment s) i)
                  (zip steps ?N))"
    if "run_loop tr problem method start ?init steps = Inr st'
          \<and> (\<forall>s \<in> set steps. \<exists>runner. exp_runner (step_experiment s) = Some runner
                                      \<and> simulated_backend_runner runner = None)" for st'
  proof -
    from that have a: "run_loop tr problem method start ?init steps = Inr st'"
      and b: "\<forall>s \<in> set steps. \<exists>runner. exp_runner (step_experiment s) = Some runner
                                      \<and> simulated_backend_runner runner = None"
      by blast+
    from loop_cost [OF a b] i0(3) show ?thesis by simp
  qed
  show ?thesis
    apply (intro conjI allI impI)
    apply (erule p1 [rule_format])
    apply (rule p2 [rule_format])
    apply (erule p3)
    apply (erule p4)
    done
qed


text \<open>
  C3. For a multi-objective problem, or one with target fidelity or task parameters: a
  loop that ends without an exception has called \<open>get_best_parameters\<close> never and
  recorded no best parameters, the replication does not depend on the method's
  \<open>get_best_parameters\<close> at all, and a result has an empty inference trace, while its
  oracle trace is the best-point extractor's trace of the oracle experiment built from the
  evaluated arms. The list of evaluated arms holds, for each iteration that had newly
  completed trials, the arms of those trials, each once. The oracle experiment has one
  trial for each of these groups, numbered from 0 in their order and completed; the arms
  of a trial have the names of the arms of its group, each with the parameters of an arm
  of that name in the group merged with the target fidelity and task parameters, and when
  the names in the group are distinct they are the arms of the group in order, so merged.
  For a single-objective problem with no target fidelity or task parameters, a loop that
  ends without an exception has called \<open>get_best_parameters\<close> once for each iteration
  with newly completed trials, and its list of best parameters holds, in order, the one
  parameterization each call returned.
\<close>

theorem C3_inference_trace:
  "(is_moo problem \<or> target_fidelity_and_task problem \<noteq> [] \<longrightarrow>
      (\<forall>st. replication_loop c problem method seed slvl = Inr st \<longrightarrow>
         best_params_list st = [] \<and> GetBestParametersCall \<notin> set (events st))
    \<and> (\<forall>g. benchmark_replication c problem (method \<lparr> get_best_parameters := g \<rparr>) seed strip slvl lvl
             = benchmark_replication c problem method seed strip slvl lvl)
    \<and> (\<forall>res. benchmark_replication c problem method seed strip slvl lvl = Inr res \<longrightarrow>
         inference_trace res = []
       \<and> (\<exists>st dummy. replication_loop c problem method seed slvl = Inr st
             \<and> oracle_trace res = c_get_trace c dummy (optimization_config problem)
             \<and> length (exp_trials dummy) = length (filter (\<lambda>S. S \<noteq> {}) 
                 (newly_completed_per_step (c_total_runtime c) problem method
                    (run_start (replication_run c problem method seed slvl))
                    (initial_state method (replication_experiment problem method slvl))
                    (run_steps (replication_run c problem method seed slvl))))
             \<and> evaluated_arms_list st
                 = map (\<lambda>(s, S). arms_of_trials (step_experiment s) S)
                     (filter (\<lambda>(s, S). S \<noteq> {}) (zip (run_steps (replication_run c problem method seed slvl)) 
                 (newly_completed_per_step (c_total_runtime c) problem method
                    (run_start (replication_run c problem method seed slvl))
                    (initial_state method (replication_experiment problem method slvl))
                    (run_steps (replication_run c problem method seed slvl)))))
             \<and> (\<forall>(s, S) \<in> set (zip (run_steps (replication_run c problem method seed slvl)) 
                 (newly_completed_per_step (c_total_runtime c) problem method
                    (run_start (replication_run c problem method seed slvl))
                    (initial_state method (replication_experiment problem method slvl))
                    (run_steps (replication_run c problem method seed slvl)))).
                   distinct (arms_of_trials (step_experiment s) S)
                 \<and> set (arms_of_trials (step_experiment s) S)
                     = (\<Union>(i, t) \<in> set (exp_trials (step_experiment s)).
                          if i \<in> S then set (trial_arms t) else {}))
             \<and> exp_trials dummy
                 = map (\<lambda>(i, arms). (int i, oracle_trial (c_run c) problem
                          (BenchmarkRunner_init (problem_test_function problem) 0 None 1)
                          (dict_of_arms arms)))
                     (enumerate 0 (evaluated_arms_list st))
             \<and> (\<forall>k<length (evaluated_arms_list st).
                   fst (exp_trials dummy ! k) = int k
                 \<and> trial_status (snd (exp_trials dummy ! k)) = COMPLETED
                 \<and> arm_name ` set (trial_arms (snd (exp_trials dummy ! k)))
                     = arm_name ` set (evaluated_arms_list st ! k)
                 \<and> (\<forall>a \<in> set (trial_arms (snd (exp_trials dummy ! k))).
                       \<exists>a' \<in> set (evaluated_arms_list st ! k). arm_name a' = arm_name a
                         \<and> arm_parameters a
                             = dict_merge (arm_parameters a') (target_fidelity_and_task problem))
                 \<and> (distinct (map arm_name (evaluated_arms_list st ! k)) \<longrightarrow>
                       trial_arms (snd (exp_trials dummy ! k))
                       = map (\<lambda>a. \<lparr> arm_name = arm_name a,
                                arm_parameters = dict_merge (arm_parameters a)
                                                   (target_fidelity_and_task problem) \<rparr>)
                           (evaluated_arms_list st ! k))))))
   \<and> (\<not> is_moo problem \<and> target_fidelity_and_task problem = [] \<longrightarrow>
      (\<forall>st. replication_loop c problem method seed slvl = Inr st \<longrightarrow>
         best_params_list st
           = concat (map (\<lambda>(s, S). get_best_parameters method (step_experiment s)
                                     (optimization_config problem) (n_best_points problem))
               (filter (\<lambda>(s, S). S \<noteq> {})
                  (zip (run_steps (replication_run c problem method seed slvl))
                     (newly_completed_per_step (c_total_runtime c) problem method
                        (run_start (replication_run c problem method seed slvl))
                        (initial_state method (replication_experiment problem method slvl))
                        (run_steps (replication_run c problem method seed slvl))))))
       \<and> length (best_params_list st)
           = length (filter (\<lambda>S. S \<noteq> {})
               (newly_completed_per_step (c_total_runtime c) problem method
                  (run_start (replication_run c problem method seed slvl))
                  (initial_state method (replication_experiment problem method slvl))
                  (run_steps (replication_run c problem method seed slvl))))
       \<and> length (filter (\<lambda>ev. ev = GetBestParametersCall) (events st))
           = length (filter (\<lambda>S. S \<noteq> {})
               (newly_completed_per_step (c_total_runtime c) problem method
                  (run_start (replication_run c problem method seed slvl))
                  (initial_state method (replication_experiment problem method slvl))
                  (run_steps (replication_run c problem method seed slvl))))))"
proof -
  let ?run = "replication_run c problem method seed slvl"
  let ?init = "initial_state method (replication_experiment problem method slvl)"
  let ?N = "newly_completed_per_step (c_total_runtime c) problem method (run_start ?run)
              ?init (run_steps ?run)"
  have i0: "best_params_list ?init = []" "events ?init = []"
    by (simp_all add: initial_state_def)
  have rl: "run_loop (c_total_runtime c) problem method (run_start ?run) ?init (run_steps ?run)
              = Inr st"
    if "replication_loop c problem method seed slvl = Inr st" for st
    using that by (simp add: replication_loop_def Let_def)
  have mf: "is_mf_or_mt problem = (target_fidelity_and_task problem \<noteq> [])"
    by (simp add: is_mf_or_mt_def)
  have no1: "best_params_list st = [] \<and> GetBestParametersCall \<notin> set (events st)"
    if u: "is_moo problem \<or> target_fidelity_and_task problem \<noteq> []"
      and l: "replication_loop c problem method seed slvl = Inr st" for st
  proof -
    from u have u': "is_moo problem \<or> is_mf_or_mt problem" by (simp add: mf)
    from loop_no_inference [OF rl [OF l] u'] i0
    have "best_params_list st = []"
      and "filter (\<lambda>ev. ev = GetBestParametersCall) (events st) = []"
      by simp_all
    then show ?thesis by (auto simp: filter_empty_conv)
  qed
  have no2: "benchmark_replication c problem (method \<lparr> get_best_parameters := g \<rparr>) seed strip slvl lvl
             = benchmark_replication c problem method seed strip slvl lvl"
    if u: "is_moo problem \<or> target_fidelity_and_task problem \<noteq> []" for g
    using replication_ignores_best_point_query [of problem] u by (simp add: mf)
  have sets: "distinct (arms_of_trials e S)
       \<and> set (arms_of_trials e S)
           = (\<Union>(i, t) \<in> set (exp_trials e). if i \<in> S then set (trial_arms t) else {})" for e S
    by (auto simp add: arms_of_trials_def split: if_splits)
  have no3: "inference_trace res = []
       \<and> (\<exists>st dummy. replication_loop c problem method seed slvl = Inr st
             \<and> oracle_trace res = c_get_trace c dummy (optimization_config problem)
             \<and> length (exp_trials dummy) = length (filter (\<lambda>S. S \<noteq> {}) ?N)
             \<and> evaluated_arms_list st
                 = map (\<lambda>(s, S). arms_of_trials (step_experiment s) S)
                     (filter (\<lambda>(s, S). S \<noteq> {}) (zip (run_steps ?run) ?N))
             \<and> (\<forall>(s, S) \<in> set (zip (run_steps ?run) ?N).
                   distinct (arms_of_trials (step_experiment s) S)
                 \<and> set (arms_of_trials (step_experiment s) S)
                     = (\<Union>(i, t) \<in> set (exp_trials (step_experiment s)).
                          if i \<in> S then set (trial_arms t) else {}))
             \<and> exp_trials dummy
                 = map (\<lambda>(i, arms). (int i, oracle_trial (c_run c) problem
                          (BenchmarkRunner_init (problem_test_function problem) 0 None 1)
                          (dict_of_arms arms)))
                     (enumerate 0 (evaluated_arms_list st))
             \<and> (\<forall>k<length (evaluated_arms_list st).
                   fst (exp_trials dummy ! k) = int k
                 \<and> trial_status (snd (exp_trials dummy ! k)) = COMPLETED
                 \<and> arm_name ` set (trial_arms (snd (exp_trials dummy ! k)))
                     = arm_name ` set (evaluated_arms_list st ! k)
                 \<and> (\<forall>a \<in> set (trial_arms (snd (exp_trials dummy ! k))).
                       \<exists>a' \<in> set (evaluated_arms_list st ! k). arm_name a' = arm_name a
                         \<and> arm_parameters a
                             = dict_merge (arm_parameters a') (target_fidelity_and_task problem))
                 \<and> (distinct (map arm_name (evaluated_arms_list st ! k)) \<longrightarrow>
                       trial_arms (snd (exp_trials dummy ! k))
                       = map (\<lambda>a. \<lparr> arm_name = arm_name a,
                                arm_parameters = dict_merge (arm_parameters a)
                                                   (target_fidelity_and_task problem) \<rparr>)
                           (evaluated_arms_list st ! k))))"
    if u: "is_moo problem \<or> target_fidelity_and_task problem \<noteq> []"
      and r: "benchmark_replication c problem method seed strip slvl lvl = Inr res" for res
  proof -
    let ?rn = "BenchmarkRunner_init (problem_test_function problem) 0 None 1"
    from r obtain st where l: "replication_loop c problem method seed slvl = Inr st"
      and f: "finalize c problem seed strip lvl st = Inr res"
      by (rule replication_Inr)
    from no1 [OF u l] finalize_Inr(2) [OF f] have a: "inference_trace res = []" by simp
    from finalize_oracle_trials [OF f] obtain dummy where
      d1: "oracle_trace res = c_get_trace c dummy (optimization_config problem)"
      and d2: "exp_trials dummy
                 = map (\<lambda>(i, arms). (int i, oracle_trial (c_run c) problem ?rn (dict_of_arms arms)))
                     (enumerate 0 (evaluated_arms_list st))"
      by blast
    have e0: "evaluated_arms_list ?init = []" by (simp add: initial_state_def)
    have ea: "evaluated_arms_list st
                 = map (\<lambda>(s, S). arms_of_trials (step_experiment s) S)
                     (filter (\<lambda>(s, S). S \<noteq> {}) (zip (run_steps ?run) ?N))"
      using loop_evaluated_arms [OF rl [OF l]] e0 by simp
    have "length (exp_trials dummy) = length (evaluated_arms_list st)"
      by (simp add: d2)
    also have "\<dots> = length (filter (\<lambda>S. S \<noteq> {}) ?N)"
      using loop_evaluated_arms_length [OF rl [OF l]] e0 by simp
    finally have len: "length (exp_trials dummy) = length (filter (\<lambda>S. S \<noteq> {}) ?N)" .
    have st: "\<forall>(s, S) \<in> set (zip (run_steps ?run) ?N).
                   distinct (arms_of_trials (step_experiment s) S)
                 \<and> set (arms_of_trials (step_experiment s) S)
                     = (\<Union>(i, t) \<in> set (exp_trials (step_experiment s)).
                          if i \<in> S then set (trial_arms t) else {})"
      using sets by blast
    have per: "fst (exp_trials dummy ! k) = int k
                 \<and> trial_status (snd (exp_trials dummy ! k)) = COMPLETED
                 \<and> arm_name ` set (trial_arms (snd (exp_trials dummy ! k)))
                     = arm_name ` set (evaluated_arms_list st ! k)
                 \<and> (\<forall>a \<in> set (trial_arms (snd (exp_trials dummy ! k))).
                       \<exists>a' \<in> set (evaluated_arms_list st ! k). arm_name a' = arm_name a
                         \<and> arm_parameters a
                             = dict_merge (arm_parameters a') (target_fidelity_and_task problem))
                 \<and> (distinct (map arm_name (evaluated_arms_list st ! k)) \<longrightarrow>
                       trial_arms (snd (exp_trials dummy ! k))
                       = map (\<lambda>a. \<lparr> arm_name = arm_name a,
                                arm_parameters = dict_merge (arm_parameters a)
                                                   (target_fidelity_and_task problem) \<rparr>)
                           (evaluated_arms_list st ! k))"
      if k: "k < length (evaluated_arms_list st)" for k
    proof -
      have nth: "exp_trials dummy ! k
          = (int k, oracle_trial (c_run c) problem ?rn (dict_of_arms (evaluated_arms_list st ! k)))"
        using k by (simp add: d2 nth_enumerate_eq)
      show ?thesis unfolding nth fst_conv snd_conv
        using oracle_trial_of_arms [of "c_run c" problem ?rn "evaluated_arms_list st ! k"]
        by simp
    qed
    from per have per': "\<forall>k<length (evaluated_arms_list st).
                   fst (exp_trials dummy ! k) = int k
                 \<and> trial_status (snd (exp_trials dummy ! k)) = COMPLETED
                 \<and> arm_name ` set (trial_arms (snd (exp_trials dummy ! k)))
                     = arm_name ` set (evaluated_arms_list st ! k)
                 \<and> (\<forall>a \<in> set (trial_arms (snd (exp_trials dummy ! k))).
                       \<exists>a' \<in> set (evaluated_arms_list st ! k). arm_name a' = arm_name a
                         \<and> arm_parameters a
                             = dict_merge (arm_parameters a') (target_fidelity_and_task problem))
                 \<and> (distinct (map arm_name (evaluated_arms_list st ! k)) \<longrightarrow>
                       trial_arms (snd (exp_trials dummy ! k))
                       = map (\<lambda>a. \<lparr> arm_name = arm_name a,
                                arm_parameters = dict_merge (arm_parameters a)
                                                   (target_fidelity_and_task problem) \<rparr>)
                           (evaluated_arms_list st ! k))"
      by blast
    show ?thesis
      apply (rule conjI [OF a])
      apply (rule exI [where x = st])
      apply (rule exI [where x = dummy])
      apply (intro conjI)
      apply (rule l)
      apply (rule d1)
      apply (rule len)
      apply (rule ea)
      apply (rule st)
      apply (rule d2)
      apply (rule per')
      done
  qed
  have yes: "best_params_list st
           = concat (map (\<lambda>(s, S). get_best_parameters method (step_experiment s)
                                     (optimization_config problem) (n_best_points problem))
               (filter (\<lambda>(s, S). S \<noteq> {}) (zip (run_steps ?run) ?N)))
       \<and> length (best_params_list st) = length (filter (\<lambda>S. S \<noteq> {}) ?N)
       \<and> length (filter (\<lambda>ev. ev = GetBestParametersCall) (events st))
           = length (filter (\<lambda>S. S \<noteq> {}) ?N)"
    if u: "\<not> is_moo problem \<and> target_fidelity_and_task problem = []"
      and l: "replication_loop c problem method seed slvl = Inr st" for st
  proof -
    from u have u': "\<not> (is_moo problem \<or> is_mf_or_mt problem)" by (simp add: mf)
    note li = loop_inference [OF rl [OF l] u']
    have y1: "best_params_list st
           = concat (map (\<lambda>(s, S). get_best_parameters method (step_experiment s)
                                     (optimization_config problem) (n_best_points problem))
               (filter (\<lambda>(s, S). S \<noteq> {}) (zip (run_steps ?run) ?N)))"
      using li [THEN conjunct1] i0 by simp
    have y2: "length (best_params_list st) = length (filter (\<lambda>S. S \<noteq> {}) ?N)"
      using li [THEN conjunct2, THEN conjunct1] i0 by simp
    have y3: "length (filter (\<lambda>ev. ev = GetBestParametersCall) (events st))
           = length (filter (\<lambda>S. S \<noteq> {}) ?N)"
      using li [THEN conjunct2, THEN conjunct2] i0 by simp
    from y1 y2 y3 show ?thesis by (intro conjI)
  qed
  show ?thesis
    apply (intro conjI impI allI)
    apply (simp add: no1)
    apply (simp add: no1)
    apply (erule no2)
    apply (simp add: no3)
    apply (erule (1) no3 [THEN conjunct2])
    apply (erule (1) yes [THEN conjunct1])
    apply (erule (1) yes [THEN conjunct2, THEN conjunct1])
    apply (erule (1) yes [THEN conjunct2, THEN conjunct2])
    done
qed

text \<open>
  C4. For every result of a replication: the length of the cost trace is the number of
  iterations of the loop with newly completed trials, which is the number of groups of
  evaluated arms and the number of trials of the oracle experiment that the oracle trace
  is extracted from (so the cost trace and the oracle trace have the same length when
  the best-point extractor yields one value for each trial); and when the inference trace
  is supported, it has that length too, so it is as long as the oracle trace under the
  same condition on the extractor.
\<close>

theorem C4_trace_lengths:
  assumes "benchmark_replication c problem method seed strip slvl lvl = Inr res"
  shows "\<exists>st. replication_loop c problem method seed slvl = Inr st
          \<and> res_cost_trace res = cost_trace st
          \<and> length (res_cost_trace res)
              = length (filter (\<lambda>S. S \<noteq> {})
                  (newly_completed_per_step (c_total_runtime c) problem method
                     (run_start (replication_run c problem method seed slvl))
                     (initial_state method (replication_experiment problem method slvl))
                     (run_steps (replication_run c problem method seed slvl))))
          \<and> length (evaluated_arms_list st) = length (res_cost_trace res)
          \<and> (\<exists>dummy. oracle_trace res = c_get_trace c dummy (optimization_config problem)
                \<and> length (exp_trials dummy) = length (res_cost_trace res))
          \<and> ((\<forall>e oc. length (c_get_trace c e oc) = length (exp_trials e)) \<longrightarrow>
                length (oracle_trace res) = length (res_cost_trace res))
          \<and> (\<not> (is_moo problem \<or> is_mf_or_mt problem) \<longrightarrow>
                length (best_params_list st) = length (res_cost_trace res)
              \<and> length (inference_trace res) = length (res_cost_trace res))
          \<and> (\<not> (is_moo problem \<or> is_mf_or_mt problem)
                \<and> (\<forall>e oc. length (c_get_trace c e oc) = length (exp_trials e)) \<longrightarrow>
                length (inference_trace res) = length (oracle_trace res))"
  using assms by (rule replication_trace_lengths)

subsection \<open>Baseline value\<close>

text \<open>
  C10. \<open>compute_baseline_value_from_sobol\<close> discards its \<open>target_fidelity_and_task\<close>
  argument: the dummy problem has an empty target mapping and is the same problem
  whether the caller passes \<open>None\<close> or a mapping, and so is the value returned.
\<close>

theorem C10_target_discarded:
  "target_fidelity_and_task (sobol_dummy_problem defaults infinity config space tf target_arg) = []
   \<and> sobol_dummy_problem defaults infinity config space tf target_arg
       = sobol_dummy_problem defaults infinity config space tf None
   \<and> compute_baseline_value_from_sobol c sobol_method defaults infinity lvl config space tf
         target_arg n_repeats
       = compute_baseline_value_from_sobol c sobol_method defaults infinity lvl config space tf
         None n_repeats"
proof -
  have a: "sobol_dummy_problem defaults infinity config space tf target_arg
       = sobol_dummy_problem defaults infinity config space tf None"
    by (cases target_arg) (simp_all add: sobol_dummy_problem_def)
  have b: "target_fidelity_and_task (sobol_dummy_problem defaults infinity config space tf None) = []"
    by (simp add: sobol_dummy_problem_def Let_def)
  show ?thesis
    unfolding compute_baseline_value_from_sobol_def a using b by simp
qed

subsection \<open>The theorems at concrete inputs\<close>

lemmas sample_defs =
  sample_collaborators_def three_steps_def first_step_def second_step_def third_step_def
  experiment_with_def trial_of_def plain_experiment_def
  plain_runner_def two_trials_def arm_a_def arm_b_def sample_problem_def hour_method_def
  patient_method_def sequential_method_def unbatched_method_def moo_problem_def
  first_parameters_def unit_runtime_def count_arms_run_def arms_trace_def

lemmas loop_defs =
  replication_loop_def replication_run_def replication_experiment_def replication_options_def
  get_benchmark_scheduler_options_def get_benchmark_runner_def BenchmarkRunner_init_def
  initial_state_def bookkeeping_def check_timeout_def currently_completed_trials_def
  newly_completed_trials_def arms_of_trials_def get_cumulative_cost_def trials_lookup_def
  is_moo_def is_mf_or_mt_def Let_def

lemma arms_trace_one_per_trial:
  "\<forall>e oc. length (c_get_trace sample_collaborators e oc) = length (exp_trials e)"
  by (simp add: sample_collaborators_def arms_trace_def)

theorem C1_newly_completed_disjoint_witness:
  "absorbing (map step_experiment three_steps)
   \<and> newly_completed_per_step unit_runtime sample_problem patient_method 0
       (initial_state patient_method plain_experiment) three_steps = [{}, {0}, {1}]
   \<and> newly_completed_per_step unit_runtime sample_problem patient_method 0
       (initial_state patient_method plain_experiment) three_steps ! 1
     \<inter> newly_completed_per_step unit_runtime sample_problem patient_method 0
       (initial_state patient_method plain_experiment) three_steps ! 2 = {}
   \<and> length (filter (\<lambda>S. 0 \<in> S)
         (newly_completed_per_step unit_runtime sample_problem patient_method 0
            (initial_state patient_method plain_experiment) three_steps)) \<le> 1
   \<and> (\<exists>st'. run_loop unit_runtime sample_problem patient_method 0
               (initial_state patient_method plain_experiment) three_steps = Inr st'
          \<and> evaluated_arms_list st' = [[arm_a], [arm_b]]
          \<and> cost st' = 6)"
proof -
  let ?N = "newly_completed_per_step unit_runtime sample_problem patient_method 0
             (initial_state patient_method plain_experiment) three_steps"
  have a: "absorbing (map step_experiment three_steps)"
    by (simp add: sample_defs currently_completed_trials_def)
  have n: "?N = [{}, {0}, {1}]"
    by (simp add: sample_defs loop_defs)
  have plain: "\<forall>s \<in> set three_steps. \<exists>runner. exp_runner (step_experiment s) = Some runner
                                            \<and> simulated_backend_runner runner = None"
    by (simp add: sample_defs)
  have "\<exists>st'. run_loop unit_runtime sample_problem patient_method 0
               (initial_state patient_method plain_experiment) three_steps = Inr st'"
    by (simp add: sample_defs loop_defs)
  then obtain st' where r: "run_loop unit_runtime sample_problem patient_method 0
               (initial_state patient_method plain_experiment) three_steps = Inr st'" ..
  note t = C1_newly_completed_disjoint [OF a, of unit_runtime sample_problem patient_method 0
      plain_experiment]
  from t have d: "?N ! 1 \<inter> ?N ! 2 = {}"
    by (simp add: n)
  from t have c: "length (filter (\<lambda>S. 0 \<in> S) ?N) \<le> 1"
    by blast
  from t r have "evaluated_arms_list st'
              = map (\<lambda>(s, S). arms_of_trials (step_experiment s) S)
                  (filter (\<lambda>(s, S). S \<noteq> {}) (zip three_steps ?N))"
    by blast
  then have e: "evaluated_arms_list st' = [[arm_a], [arm_b]]"
    unfolding n by (simp add: sample_defs arms_of_trials_def)
  from t r plain have "cost st'
              = sum_list (map (\<lambda>(s, S). \<Sum>i \<in> S. trial_total_runtime unit_runtime (step_experiment s) i)
                  (zip three_steps ?N))"
    by blast
  then have k: "cost st' = 6"
    unfolding n by (simp add: sample_defs trial_total_runtime_def trials_lookup_def)
  have x: "\<exists>st'. run_loop unit_runtime sample_problem patient_method 0
               (initial_state patient_method plain_experiment) three_steps = Inr st'
          \<and> evaluated_arms_list st' = [[arm_a], [arm_b]] \<and> cost st' = 6"
    by (rule exI [where x = st']) (intro conjI r e k)
  from a n d c x show ?thesis by (intro conjI)
qed


theorem C3_inference_trace_witness:
  "is_moo moo_problem
   \<and> (\<exists>res st dummy.
         benchmark_replication sample_collaborators moo_problem patient_method 0 True 20 20 = Inr res
       \<and> inference_trace res = [] \<and> length (oracle_trace res) = 2
       \<and> replication_loop sample_collaborators moo_problem patient_method 0 20 = Inr st
       \<and> evaluated_arms_list st = [[arm_a], [arm_b]]
       \<and> oracle_trace res
           = c_get_trace sample_collaborators dummy (optimization_config moo_problem)
       \<and> length (exp_trials dummy) = 2
       \<and> fst (exp_trials dummy ! 0) = 0
       \<and> trial_arms (snd (exp_trials dummy ! 0)) = [arm_a]
       \<and> trial_status (snd (exp_trials dummy ! 0)) = COMPLETED
       \<and> fst (exp_trials dummy ! 1) = 1
       \<and> trial_arms (snd (exp_trials dummy ! 1)) = [arm_b]
       \<and> trial_status (snd (exp_trials dummy ! 1)) = COMPLETED)
   \<and> \<not> is_moo sample_problem \<and> target_fidelity_and_task sample_problem = []
   \<and> (\<exists>st. replication_loop sample_collaborators sample_problem patient_method 0 20 = Inr st
         \<and> best_params_list st = [[(''x'', PFloat 0)], [(''x'', PFloat 0)]]
         \<and> length (filter (\<lambda>ev. ev = GetBestParametersCall) (events st)) = 2)"
proof -
  have m: "is_moo moo_problem"
    by (simp add: is_moo_def moo_problem_def)
  have nm: "\<not> is_moo sample_problem" "target_fidelity_and_task sample_problem = []"
    by (simp_all add: is_moo_def sample_problem_def)
  have n1: "newly_completed_per_step (c_total_runtime sample_collaborators) moo_problem patient_method
              (run_start (replication_run sample_collaborators moo_problem patient_method 0 20))
              (initial_state patient_method (replication_experiment moo_problem patient_method 20))
              (run_steps (replication_run sample_collaborators moo_problem patient_method 0 20))
            = [{}, {0}, {1}]"
    by (simp add: sample_defs loop_defs)
  have n2: "newly_completed_per_step (c_total_runtime sample_collaborators) sample_problem patient_method
              (run_start (replication_run sample_collaborators sample_problem patient_method 0 20))
              (initial_state patient_method (replication_experiment sample_problem patient_method 20))
              (run_steps (replication_run sample_collaborators sample_problem patient_method 0 20))
            = [{}, {0}, {1}]"
    by (simp add: sample_defs loop_defs)
  have s1: "run_steps (replication_run sample_collaborators moo_problem patient_method 0 20)
              = three_steps"
    by (simp add: replication_run_def sample_collaborators_def)
  have s2: "run_steps (replication_run sample_collaborators sample_problem patient_method 0 20)
              = three_steps"
    by (simp add: replication_run_def sample_collaborators_def)
  have "\<exists>res. benchmark_replication sample_collaborators moo_problem patient_method 0 True 20 20 = Inr res"
    by (simp add: benchmark_replication_def finalize_def get_oracle_trace_from_arms_def
        get_oracle_experiment_from_params_def dict_of_arms_def enumerate_eq_zip
        attach_trial_def new_trial_def dict_merge_def update_run_metadata_def mark_completed_def
        sample_defs loop_defs)
  then obtain res where r: "benchmark_replication sample_collaborators moo_problem patient_method
                              0 True 20 20 = Inr res" ..
  note t1 = C3_inference_trace [of moo_problem sample_collaborators patient_method 0 20 True 20,
      THEN conjunct1, rule_format, OF disjI1, OF m]
  note t3 = t1 [THEN conjunct2, THEN conjunct2, rule_format, OF r]
  from t3 have i: "inference_trace res = []" by (rule conjunct1)
  note n1' = n1 [unfolded s1]
  from t3 [THEN conjunct2, unfolded s1, unfolded n1'] obtain st dummy where
    l: "replication_loop sample_collaborators moo_problem patient_method 0 20 = Inr st"
    and o: "oracle_trace res
              = c_get_trace sample_collaborators dummy (optimization_config moo_problem)"
    and len: "length (exp_trials dummy) = length (filter (\<lambda>S. S \<noteq> {}) [{}, {0}, {1::int}])"
    and ea: "evaluated_arms_list st
               = map (\<lambda>(s, S). arms_of_trials (step_experiment s) S)
                   (filter (\<lambda>(s, S). S \<noteq> {}) (zip three_steps [{}, {0}, {1::int}]))"
    and per: "\<forall>k<length (evaluated_arms_list st).
                   fst (exp_trials dummy ! k) = int k
                 \<and> trial_status (snd (exp_trials dummy ! k)) = COMPLETED
                 \<and> arm_name ` set (trial_arms (snd (exp_trials dummy ! k)))
                     = arm_name ` set (evaluated_arms_list st ! k)
                 \<and> (\<forall>a \<in> set (trial_arms (snd (exp_trials dummy ! k))).
                       \<exists>a' \<in> set (evaluated_arms_list st ! k). arm_name a' = arm_name a
                         \<and> arm_parameters a
                             = dict_merge (arm_parameters a') (target_fidelity_and_task moo_problem))
                 \<and> (distinct (map arm_name (evaluated_arms_list st ! k)) \<longrightarrow>
                       trial_arms (snd (exp_trials dummy ! k))
                       = map (\<lambda>a. \<lparr> arm_name = arm_name a,
                                arm_parameters = dict_merge (arm_parameters a)
                                                   (target_fidelity_and_task moo_problem) \<rparr>)
                           (evaluated_arms_list st ! k))"
    apply (elim exE conjE)
    subgoal premises p for st dummy
      by (rule p(1) [OF p(2) p(3) p(4) p(5) p(8)])
    done
  have len2: "length (exp_trials dummy) = 2" using len by simp
  with o arms_trace_one_per_trial have ol: "length (oracle_trace res) = 2" by simp
  have ev: "evaluated_arms_list st = [[arm_a], [arm_b]]"
    unfolding ea by (simp add: sample_defs arms_of_trials_def)
  have tf: "target_fidelity_and_task moo_problem = []"
    by (simp add: moo_problem_def sample_problem_def)
  have p0: "0 < length (evaluated_arms_list st)" by (simp add: ev)
  note q0 = per [rule_format, OF p0]
  have d0: "distinct (map arm_name (evaluated_arms_list st ! 0))" by (simp add: ev)
  have k0a: "fst (exp_trials dummy ! 0) = 0" using q0 [THEN conjunct1] by simp
  have k0b: "trial_status (snd (exp_trials dummy ! 0)) = COMPLETED"
    using q0 [THEN conjunct2, THEN conjunct1] .
  have "trial_arms (snd (exp_trials dummy ! 0))
      = map (\<lambda>a. \<lparr> arm_name = arm_name a,
                 arm_parameters = dict_merge (arm_parameters a)
                                    (target_fidelity_and_task moo_problem) \<rparr>)
          (evaluated_arms_list st ! 0)"
    using q0 [THEN conjunct2, THEN conjunct2, THEN conjunct2, THEN conjunct2, rule_format, OF d0] .
  then have k0c: "trial_arms (snd (exp_trials dummy ! 0)) = [arm_a]"
    by (simp add: ev tf arm_a_def dict_merge_def)
  have p1: "1 < length (evaluated_arms_list st)" by (simp add: ev)
  note q1 = per [rule_format, OF p1]
  have d1: "distinct (map arm_name (evaluated_arms_list st ! 1))" by (simp add: ev)
  have k1a: "fst (exp_trials dummy ! 1) = 1" using q1 [THEN conjunct1] by simp
  have k1b: "trial_status (snd (exp_trials dummy ! 1)) = COMPLETED"
    using q1 [THEN conjunct2, THEN conjunct1] .
  have "trial_arms (snd (exp_trials dummy ! 1))
      = map (\<lambda>a. \<lparr> arm_name = arm_name a,
                 arm_parameters = dict_merge (arm_parameters a)
                                    (target_fidelity_and_task moo_problem) \<rparr>)
          (evaluated_arms_list st ! 1)"
    using q1 [THEN conjunct2, THEN conjunct2, THEN conjunct2, THEN conjunct2, rule_format, OF d1] .
  then have k1c: "trial_arms (snd (exp_trials dummy ! 1)) = [arm_b]"
    by (simp add: ev tf arm_b_def dict_merge_def)
  have x: "\<exists>res st dummy.
         benchmark_replication sample_collaborators moo_problem patient_method 0 True 20 20 = Inr res
       \<and> inference_trace res = [] \<and> length (oracle_trace res) = 2
       \<and> replication_loop sample_collaborators moo_problem patient_method 0 20 = Inr st
       \<and> evaluated_arms_list st = [[arm_a], [arm_b]]
       \<and> oracle_trace res
           = c_get_trace sample_collaborators dummy (optimization_config moo_problem)
       \<and> length (exp_trials dummy) = 2
       \<and> fst (exp_trials dummy ! 0) = 0
       \<and> trial_arms (snd (exp_trials dummy ! 0)) = [arm_a]
       \<and> trial_status (snd (exp_trials dummy ! 0)) = COMPLETED
       \<and> fst (exp_trials dummy ! 1) = 1
       \<and> trial_arms (snd (exp_trials dummy ! 1)) = [arm_b]
       \<and> trial_status (snd (exp_trials dummy ! 1)) = COMPLETED"
    apply (rule exI [where x = res])
    apply (rule exI [where x = st])
    apply (rule exI [where x = dummy])
    apply (intro conjI r i ol l ev o len2 k0a k0c k0b k1a k1c k1b)
    done
  have "\<exists>st. replication_loop sample_collaborators sample_problem patient_method 0 20 = Inr st"
    by (simp add: sample_defs loop_defs)
  then obtain st' where l': "replication_loop sample_collaborators sample_problem patient_method 0 20
                             = Inr st'" ..
  note t2 = C3_inference_trace [of sample_problem sample_collaborators patient_method 0 20 True 20,
      THEN conjunct2, rule_format, OF conjI, OF nm l']
  from t2 [unfolded n2] have "best_params_list st'
           = concat (map (\<lambda>(s, S). get_best_parameters patient_method (step_experiment s)
                                     (optimization_config sample_problem) (n_best_points sample_problem))
               (filter (\<lambda>(s, S). S \<noteq> {}) (zip three_steps [{}, {0}, {1::int}])))"
    unfolding s2 by (rule conjunct1)
  then have b: "best_params_list st' = [[(''x'', PFloat 0)], [(''x'', PFloat 0)]]"
    by (simp add: sample_defs)
  from t2 [unfolded n2] have e: "length (filter (\<lambda>ev. ev = GetBestParametersCall) (events st')) = 2"
    by simp
  have y: "\<exists>st. replication_loop sample_collaborators sample_problem patient_method 0 20 = Inr st
         \<and> best_params_list st = [[(''x'', PFloat 0)], [(''x'', PFloat 0)]]
         \<and> length (filter (\<lambda>ev. ev = GetBestParametersCall) (events st)) = 2"
    by (rule exI [where x = st']) (intro conjI l' b e)
  from m x nm y show ?thesis by (intro conjI)
qed

theorem C4_trace_lengths_witness:
  "\<exists>res. benchmark_replication sample_collaborators sample_problem patient_method 0 True 20 20 = Inr res
      \<and> length (res_cost_trace res) = 2
      \<and> length (oracle_trace res) = 2
      \<and> length (inference_trace res) = 2"
proof -
  have n2: "newly_completed_per_step (c_total_runtime sample_collaborators) sample_problem patient_method
              (run_start (replication_run sample_collaborators sample_problem patient_method 0 20))
              (initial_state patient_method (replication_experiment sample_problem patient_method 20))
              (run_steps (replication_run sample_collaborators sample_problem patient_method 0 20))
            = [{}, {0}, {1}]"
    by (simp add: sample_defs loop_defs)
  have nm: "\<not> (is_moo sample_problem \<or> is_mf_or_mt sample_problem)"
    by (simp add: is_moo_def is_mf_or_mt_def sample_problem_def)
  have "\<exists>res. benchmark_replication sample_collaborators sample_problem patient_method 0 True 20 20
                = Inr res"
    by (simp add: benchmark_replication_def finalize_def get_oracle_trace_from_arms_def
        get_oracle_value_of_params_def
        get_oracle_experiment_from_params_def dict_of_arms_def enumerate_eq_zip
        attach_trial_def new_trial_def dict_merge_def update_run_metadata_def mark_completed_def
        sample_defs loop_defs)
  then obtain res where r: "benchmark_replication sample_collaborators sample_problem patient_method
                              0 True 20 20 = Inr res" ..
  from C4_trace_lengths [OF r] arms_trace_one_per_trial nm
  have "length (res_cost_trace res) = 2 \<and> length (oracle_trace res) = 2
          \<and> length (inference_trace res) = 2"
    unfolding n2 by auto
  with r show ?thesis by blast
qed

theorem C10_target_discarded_witness:
  "target_fidelity_and_task
     (sobol_dummy_problem sample_problem 1000 \<lparr> objective = Objective True \<rparr> (SearchSpace [''x''])
        \<lparr> n_steps = 3 \<rparr> (Some [(''fidelity'', PFloat 1)])) = []
   \<and> compute_baseline_value_from_sobol sample_collaborators patient_method sample_problem 1000 20
       \<lparr> objective = Objective True \<rparr> (SearchSpace [''x'']) \<lparr> n_steps = 3 \<rparr>
       (Some [(''fidelity'', PFloat 1)]) 2
     = compute_baseline_value_from_sobol sample_collaborators patient_method sample_problem 1000 20
       \<lparr> objective = Objective True \<rparr> (SearchSpace [''x'']) \<lparr> n_steps = 3 \<rparr> None 2"
  using C10_target_discarded [of sample_problem 1000 "\<lparr> objective = Objective True \<rparr>"
      "SearchSpace [''x'']" "\<lparr> n_steps = 3 \<rparr>" "Some [(''fidelity'', PFloat 1)]"
      sample_collaborators patient_method 20 2]
  by blast

end
